(* ===== verification/C4ex_Prelude.thy ===== *)
theory C4ex_Prelude
  imports Main "HOL-Library.Word"
begin

text \<open>
  Shared prelude: Go's fixed-width integers as \<^typ>\<open>int\<close> with the wrap-around written
  out, byte strings, results of fallible operations and the little-endian codec that
  \<^verbatim>\<open>encoding/binary\<close> provides, with the lemmas the component theories use.
\<close>

unbundle bit_operations_syntax

named_theorems result_simps \<open>rewriting of results of fallible operations\<close>

section \<open>Types\<close>

type_synonym byte = "8 word"
type_synonym bytes = "byte list"
type_synonym uint16 = "16 word"
type_synonym uint32 = "32 word"
type_synonym uint64 = "64 word"

section \<open>Signed machine integers\<close>

text \<open>
  A Go \<^verbatim>\<open>int32\<close> or \<^verbatim>\<open>int64\<close> is an \<^typ>\<open>int\<close> in its range; \<open>int32\<close> and
  \<open>int64\<close> bring the mathematical result of an operation back into that range.
\<close>

definition int32 :: "int \<Rightarrow> int" where
  "int32 x = (x + 2 ^ 31) mod 2 ^ 32 - 2 ^ 31"

definition int64 :: "int \<Rightarrow> int" where
  "int64 x = (x + 2 ^ 63) mod 2 ^ 64 - 2 ^ 63"

lemma int32_id [simp]: "\<lbrakk> - (2 ^ 31) \<le> x; x < 2 ^ 31 \<rbrakk> \<Longrightarrow> int32 x = x"
  by (simp add: int32_def)

lemma int64_id [simp]: "\<lbrakk> - (2 ^ 63) \<le> x; x < 2 ^ 63 \<rbrakk> \<Longrightarrow> int64 x = x"
  by (simp add: int64_def)

lemma int32_range: "- (2 ^ 31) \<le> int32 x \<and> int32 x < 2 ^ 31"
  by (simp add: int32_def)

lemma int64_range: "- (2 ^ 63) \<le> int64 x \<and> int64 x < 2 ^ 63"
  by (simp add: int64_def)

lemma int32_of_nat [simp]: "n < 2147483648 \<Longrightarrow> int32 (int n) = int n"
  by simp

section \<open>Results\<close>

text \<open>
  A fallible Go function returns a value of \<open>'e + 'a\<close>: \<open>Inl\<close> is the error path,
  \<open>Inr\<close> the value. \<open>bindR\<close> is the pattern \<^verbatim>\<open>x, err := f(); if err != nil { return err }\<close>.
\<close>

definition bindR :: "'e + 'a \<Rightarrow> ('a \<Rightarrow> 'e + 'b) \<Rightarrow> 'e + 'b" where
  "bindR r k = (case r of Inl e \<Rightarrow> Inl e | Inr x \<Rightarrow> k x)"

lemma bindR_simps [simp, result_simps]:
  "bindR (Inl e) k = Inl e"
  "bindR (Inr x) k = k x"
  by (simp_all add: bindR_def)

lemma bindR_Inr_iff [result_simps]:
  "bindR r k = Inr y \<longleftrightarrow> (\<exists>x. r = Inr x \<and> k x = Inr y)"
  by (cases r) auto

lemma bindR_Inl_iff [result_simps]:
  "bindR r k = Inl e \<longleftrightarrow> r = Inl e \<or> (\<exists>x. r = Inr x \<and> k x = Inl e)"
  by (cases r) auto

lemma bindR_cong [fundef_cong]:
  "\<lbrakk> r = r'; \<And>x. r' = Inr x \<Longrightarrow> k x = k' x \<rbrakk> \<Longrightarrow> bindR r k = bindR r' k'"
  by (cases r') auto

section \<open>Slices\<close>

text \<open>\<open>slice a b xs\<close> is Go's \<^verbatim>\<open>xs[a:b]\<close> for bounds that are in range.\<close>

definition slice :: "nat \<Rightarrow> nat \<Rightarrow> 'a list \<Rightarrow> 'a list" where
  "slice a b xs = drop a (take b xs)"

lemma length_slice [simp]: "length (slice a b xs) = min b (length xs) - a"
  by (simp add: slice_def)

section \<open>The little-endian codec\<close>

text \<open>
  \<open>putLE n x\<close> is \<^verbatim>\<open>binary.LittleEndian.PutUint\<close> for an \<open>n\<close>-byte buffer, \<open>getLE\<close> the
  corresponding read.
\<close>

fun putLE :: "nat \<Rightarrow> nat \<Rightarrow> bytes" where
  "putLE 0 x = []"
| "putLE (Suc n) x = word_of_nat (x mod 256) # putLE n (x div 256)"

fun getLE :: "bytes \<Rightarrow> nat" where
  "getLE [] = 0"
| "getLE (b # bs) = unat b + 256 * getLE bs"

lemma length_putLE [simp]: "length (putLE n x) = n"
  by (induction n arbitrary: x) auto

lemma unat_byte_less [simp]: "unat (b :: byte) < 256"
  using unsigned_less [of b, where ?'a = nat] by simp

lemma unat_byte_of_mod [simp]: "unat (word_of_nat (x mod 256) :: byte) = x mod 256"
  by (simp add: unat_of_nat)

lemma getLE_putLE: "getLE (putLE n x) = x mod 256 ^ n"
proof (induction n arbitrary: x)
  case (Suc n)
  have "x mod 256 + 256 * (x div 256 mod 256 ^ n) = x mod (256 * 256 ^ n)"
    by (simp add: mod_mult2_eq)
  then show ?case by (simp add: Suc)
qed simp

lemma getLE_bound: "getLE bs < 256 ^ length bs"
proof (induction bs)
  case (Cons b bs)
  then have "getLE bs + 1 \<le> 256 ^ length bs" by simp
  then have "256 * (getLE bs + 1) \<le> 256 * 256 ^ length bs" by (rule mult_le_mono2)
  then show ?case using unat_byte_less [of b] by (simp del: unat_byte_less)
qed simp

lemma putLE_getLE: "length bs = n \<Longrightarrow> putLE n (getLE bs) = bs"
proof (induction bs arbitrary: n)
  case (Cons b bs)
  have "word_of_nat ((unat b + 256 * getLE bs) mod 256) = b"
    by simp
  moreover have "(unat b + 256 * getLE bs) div 256 = getLE bs"
    by simp
  ultimately show ?case using Cons by auto
qed simp

lemma putLE_inj: "\<lbrakk> putLE n x = putLE n y; x < 256 ^ n; y < 256 ^ n \<rbrakk> \<Longrightarrow> x = y"
  by (metis getLE_putLE mod_less)

lemma getLE_append: "getLE (xs @ ys) = getLE xs + 256 ^ length xs * getLE ys"
  by (induction xs) (auto simp: algebra_simps)

lemma getLE_replicate_0 [simp]: "getLE (replicate n 0) = 0"
  by (induction n) auto

section \<open>Lists\<close>

lemma butlast_last_snoc: "xs \<noteq> [] \<Longrightarrow> \<exists>ys y. xs = ys @ [y]"
  by (metis append_butlast_last_id)

lemma split_suffix: "n \<le> length xs \<Longrightarrow> \<exists>ys zs. xs = ys @ zs \<and> length zs = n"
  by (rule exI [of _ "take (length xs - n) xs"], rule exI [of _ "drop (length xs - n) xs"]) simp

lemma nth_append_mid: "n = length xs \<Longrightarrow> (xs @ y # ys) ! n = y"
  by simp

section \<open>Codecs of byte streams\<close>

text \<open>
  The interface between a stream parser and its printer: an element decoder that consumes bytes
  from the front of the stream, an element encoder, and the loops over a whole stream that are
  built from them. \<open>good\<close> are the elements whose encoding the decoder reads back.
\<close>

locale stream_codec =
  fixes decode :: "byte \<Rightarrow> bytes \<Rightarrow> 'e + ('a \<times> bytes)"
    and encode :: "'a \<Rightarrow> 'e + bytes"
    and good :: "'a \<Rightarrow> bool"
    and decodes :: "bytes \<Rightarrow> 'a list \<times> 'e option"
    and encodes :: "'a list \<Rightarrow> 'e + bytes"
  assumes decodes_Nil: "decodes [] = ([], None)"
    and decodes_Cons: "decodes (b # s) =
      (case decode b s of Inl e \<Rightarrow> ([], Some e)
       | Inr (x, r) \<Rightarrow> (case decodes r of (xs, e) \<Rightarrow> (x # xs, e)))"
    and encodes_Nil: "encodes [] = Inr []"
    and encodes_Cons: "encodes (x # xs) = bindR (encode x) (\<lambda>b. bindR (encodes xs) (\<lambda>s. Inr (b @ s)))"
    and decode_shrinks: "decode b s = Inr (x, r) \<Longrightarrow> length r \<le> length s"
    and encode_decode: "\<lbrakk> decode b s = Inr (x, r); good x \<rbrakk> \<Longrightarrow> \<exists>e. encode x = Inr e \<and> b # s = e @ r"
    and decode_encode: "good x \<Longrightarrow> \<exists>b s. encode x = Inr (b # s) \<and> (\<forall>r. decode b (s @ r) = Inr (x, r))"
begin

lemma encodes_decodes:
  "\<lbrakk> decodes s = (xs, None); list_all good xs \<rbrakk> \<Longrightarrow> encodes xs = Inr s"
proof (induction s arbitrary: xs rule: length_induct)
  case (1 s)
  show ?case
  proof (cases s)
    case Nil
    with 1 show ?thesis by (simp add: decodes_Nil encodes_Nil)
  next
    case (Cons b t)
    with 1(2) obtain x r ys where x: "decode b t = Inr (x, r)" and xs: "xs = x # ys"
      and r: "decodes r = (ys, None)"
      by (auto simp: decodes_Cons split: sum.splits prod.splits)
    from decode_shrinks [OF x] Cons have "length r < length s" by simp
    with 1 r xs have "encodes ys = Inr r" by simp
    moreover obtain e where "encode x = Inr e" "b # t = e @ r"
      using encode_decode [OF x] 1(3) xs by auto
    ultimately show ?thesis by (simp add: xs encodes_Cons Cons)
  qed
qed

lemma decodes_encodes_append:
  "list_all good xs \<Longrightarrow> \<exists>s. encodes xs = Inr s \<and>
     (\<forall>r. decodes (s @ r) = (case decodes r of (ys, e) \<Rightarrow> (xs @ ys, e)))"
proof (induction xs)
  case Nil
  then show ?case by (simp add: encodes_Nil split: prod.splits)
next
  case (Cons x xs)
  then obtain s where s: "encodes xs = Inr s"
    "\<And>r. decodes (s @ r) = (case decodes r of (ys, e) \<Rightarrow> (xs @ ys, e))" by auto
  from Cons.prems decode_encode [of x] obtain b e where
    e: "encode x = Inr (b # e)" "\<And>r. decode b (e @ r) = Inr (x, r)" by auto
  have "encodes (x # xs) = Inr (b # e @ s)" by (simp add: encodes_Cons e s)
  moreover have "decodes ((b # e @ s) @ r) = (case decodes r of (ys, err) \<Rightarrow> ((x # xs) @ ys, err))" for r
    by (simp add: decodes_Cons e s split: prod.splits)
  ultimately show ?case by blast
qed

lemma decodes_encodes:
  "list_all good xs \<Longrightarrow> \<exists>s. encodes xs = Inr s \<and> decodes s = (xs, None)"
  using decodes_encodes_append [of xs] decodes_Nil by (metis append_Nil2 case_prod_conv)

end

end
