(* ===== verification/ScriptError.thy ===== *)
theory ScriptError
  imports C4ex_Prelude
begin

text \<open>
  The error codes of the script package (\<^verbatim>\<open>txscript/error.go\<close>) and the failures a call
  into it can end with: a script error, an error value of another package, or a run-time
  panic (an index out of range, a nil dereference).
\<close>

datatype (plugins only: code size) ErrorCode =
    ErrInternal
  | ErrInvalidFlags
  | ErrInvalidIndex
  | ErrUnsupportedAddress
  | ErrNotMultisigScript
  | ErrTooManyRequiredSigs
  | ErrEarlyReturn
  | ErrEmptyStack
  | ErrEvalFalse
  | ErrScriptUnfinished
  | ErrInvalidProgramCounter
  | ErrScriptTooBig
  | ErrElementTooBig
  | ErrTooManyOperations
  | ErrStackOverflow
  | ErrInvalidPubKeyCount
  | ErrInvalidSignatureCount
  | ErrNumberTooBig
  | ErrVerify
  | ErrEqualVerify
  | ErrNumEqualVerify
  | ErrCheckSigVerify
  | ErrCheckMultiSigVerify
  | ErrDisabledOpcode
  | ErrReservedOpcode
  | ErrMalformedPush
  | ErrInvalidStackOperation
  | ErrUnbalancedConditional
  | ErrMinimalData
  | ErrInvalidSigHashType
  | ErrSigLength
  | ErrSigHighS
  | ErrNotPushOnly
  | ErrPubKeyFormat
  | ErrCleanStack
  | ErrNullFail
  | ErrNegativeLockTime
  | ErrUnsatisfiedLockTime
  | ErrMinimalIf

datatype failure = ScriptErr ErrorCode | OtherErr | GoPanic

type_synonym 'a outcome = "failure + 'a"

text \<open>\<open>scriptError\<close> builds the error path of a result; the description string is dropped.\<close>

definition scriptError :: "ErrorCode \<Rightarrow> 'a outcome" where
  "scriptError c = Inl (ScriptErr c)"

text \<open>A result that is not a run-time panic.\<close>

definition no_panic :: "'a outcome \<Rightarrow> bool" where
  "no_panic r \<longleftrightarrow> r \<noteq> Inl GoPanic"

lemma scriptError_neq [simp, result_simps]:
  "scriptError c \<noteq> Inr x" "Inr x \<noteq> scriptError c"
  "scriptError c \<noteq> Inl GoPanic" "scriptError c \<noteq> Inl OtherErr"
  "Inl GoPanic \<noteq> scriptError c"
  by (simp_all add: scriptError_def)

lemma scriptError_eq_Inl [simp, result_simps]:
  "scriptError c = Inl e \<longleftrightarrow> e = ScriptErr c"
  by (auto simp: scriptError_def)

lemma bindR_scriptError [simp, result_simps]: "bindR (scriptError c) k = scriptError c"
  by (simp add: scriptError_def)

lemma no_panic_simps [simp]:
  "no_panic (Inr x)" "no_panic (scriptError c)" "no_panic (Inl OtherErr)"
  "\<not> no_panic (Inl GoPanic)" "no_panic (Inl (ScriptErr c))"
  by (simp_all add: no_panic_def)

lemma no_panic_bindR [intro]:
  "\<lbrakk> no_panic r; \<And>x. r = Inr x \<Longrightarrow> no_panic (k x) \<rbrakk> \<Longrightarrow> no_panic (bindR r k)"
  by (cases r) (auto simp: no_panic_def)

section \<open>Postconditions\<close>

text \<open>
  \<open>returns Q r\<close>: if the call returns a value, the value satisfies \<open>Q\<close>. \<open>ensures Q r\<close>: the call
  does not panic, and if it returns a value, the value satisfies \<open>Q\<close>.
\<close>

definition returns :: "('a \<Rightarrow> bool) \<Rightarrow> 'a outcome \<Rightarrow> bool" where
  "returns Q r \<longleftrightarrow> (\<forall>x. r = Inr x \<longrightarrow> Q x)"

definition ensures :: "('a \<Rightarrow> bool) \<Rightarrow> 'a outcome \<Rightarrow> bool" where
  "ensures Q r \<longleftrightarrow> no_panic r \<and> returns Q r"

lemma returnsI: "(\<And>x. r = Inr x \<Longrightarrow> Q x) \<Longrightarrow> returns Q r"
  by (simp add: returns_def)

lemma returnsD: "\<lbrakk> returns Q r; r = Inr x \<rbrakk> \<Longrightarrow> Q x"
  by (simp add: returns_def)

lemma returns_simps [simp]:
  "returns Q (Inr x) \<longleftrightarrow> Q x" "returns Q (Inl e)" "returns Q (scriptError c)"
  "returns Q (bindR r k) \<longleftrightarrow> returns (\<lambda>x. returns Q (k x)) r"
  by (auto simp: returns_def bindR_Inr_iff)

lemma ensures_simps [simp]:
  "ensures Q (Inr x) \<longleftrightarrow> Q x" "ensures Q (Inl e) \<longleftrightarrow> e \<noteq> GoPanic" "ensures Q (scriptError c)"
  "ensures Q (bindR r k) \<longleftrightarrow> ensures (\<lambda>x. ensures Q (k x)) r"
  by (auto simp: ensures_def returns_def no_panic_def bindR_Inr_iff bindR_Inl_iff)

lemma ensures_True [simp]: "ensures (\<lambda>_. True) r \<longleftrightarrow> no_panic r"
  by (simp add: ensures_def returns_def)

lemma ensures_mono: "\<lbrakk> ensures P r; \<And>x. \<lbrakk> r = Inr x; P x \<rbrakk> \<Longrightarrow> Q x \<rbrakk> \<Longrightarrow> ensures Q r"
  by (simp add: ensures_def returns_def)

lemma ensures_cases:
  assumes "ensures Q r"
  obtains (err) e where "r = Inl e" "e \<noteq> GoPanic" | (val) x where "r = Inr x" "Q x"
  using assms by (cases r) auto

end
