(* ===== verification/Serialization.thy ===== *)
theory Serialization
  imports C4ex_Prelude
begin

text \<open>
  Serialization of primitive values (\<^verbatim>\<open>domain/consensus/utils/serialization/common.go\<close> over
  \<^verbatim>\<open>util/binaryserializer\<close>). A writer is the byte string written to it; a reader is the
  byte string that is left to read. Signed integers are \<^typ>\<open>int\<close> in the range of their type.
\<close>

section \<open>Fixed-width integers\<close>

definition PutUint8 :: "byte \<Rightarrow> bytes" where
  "PutUint8 val = [val]"

definition PutUint16 :: "uint16 \<Rightarrow> bytes" where
  "PutUint16 val = putLE 2 (unat val)"

definition PutUint32 :: "uint32 \<Rightarrow> bytes" where
  "PutUint32 val = putLE 4 (unat val)"

definition PutUint64 :: "uint64 \<Rightarrow> bytes" where
  "PutUint64 val = putLE 8 (unat val)"

datatype serError = EOF | ErrUnexpectedEOF | ErrMalformed | ErrNoEncodingForType

text \<open>\<open>readFull n r\<close> is \<^verbatim>\<open>io.ReadFull\<close> into a buffer of \<open>n > 0\<close> bytes.\<close>

definition readFull :: "nat \<Rightarrow> bytes \<Rightarrow> serError + (bytes \<times> bytes)" where
  "readFull n r =
     (if length r < n then (if r = [] then Inl EOF else Inl ErrUnexpectedEOF)
      else Inr (take n r, drop n r))"

definition Uint8 :: "bytes \<Rightarrow> serError + (byte \<times> bytes)" where
  "Uint8 r = bindR (readFull 1 r) (\<lambda>(buf, r). Inr (buf ! 0, r))"

definition Uint16 :: "bytes \<Rightarrow> serError + (uint16 \<times> bytes)" where
  "Uint16 r = bindR (readFull 2 r) (\<lambda>(buf, r). Inr (word_of_nat (getLE buf), r))"

definition Uint32 :: "bytes \<Rightarrow> serError + (uint32 \<times> bytes)" where
  "Uint32 r = bindR (readFull 4 r) (\<lambda>(buf, r). Inr (word_of_nat (getLE buf), r))"

definition Uint64 :: "bytes \<Rightarrow> serError + (uint64 \<times> bytes)" where
  "Uint64 r = bindR (readFull 8 r) (\<lambda>(buf, r). Inr (word_of_nat (getLE buf), r))"

section \<open>Elements\<close>

text \<open>
  The values the type switches of \<^verbatim>\<open>WriteElement\<close> and \<^verbatim>\<open>ReadElement\<close> know; \<open>KOther\<close> stands for the
  pointer types that \<^verbatim>\<open>ReadElement\<close> has no case for.
\<close>

datatype element =
    EBytes bytes
  | EInt16 int | EUint16 uint16
  | EInt32 int | EUint32 uint32
  | EInt64 int | EUint64 uint64
  | EUint8 byte
  | EBool bool
  | EDomainHash bytes
  | EDomainTransactionID bytes
  | EDomainSubnetworkID bytes

datatype elementKind =
  KInt16 | KUint16 | KInt32 | KUint32 | KInt64 | KUint64 | KUint8 | KBool | KOther

primrec kind_of :: "element \<Rightarrow> elementKind" where
  "kind_of (EBytes _) = KOther"
| "kind_of (EInt16 _) = KInt16"
| "kind_of (EUint16 _) = KUint16"
| "kind_of (EInt32 _) = KInt32"
| "kind_of (EUint32 _) = KUint32"
| "kind_of (EInt64 _) = KInt64"
| "kind_of (EUint64 _) = KUint64"
| "kind_of (EUint8 _) = KUint8"
| "kind_of (EBool _) = KBool"
| "kind_of (EDomainHash _) = KOther"
| "kind_of (EDomainTransactionID _) = KOther"
| "kind_of (EDomainSubnetworkID _) = KOther"

primrec WriteElement :: "element \<Rightarrow> bytes" where
  "WriteElement (EBytes e) = PutUint64 (word_of_nat (length e)) @ e"
| "WriteElement (EInt16 e) = PutUint16 (word_of_int e)"
| "WriteElement (EUint16 e) = PutUint16 e"
| "WriteElement (EInt32 e) = PutUint32 (word_of_int e)"
| "WriteElement (EUint32 e) = PutUint32 e"
| "WriteElement (EInt64 e) = PutUint64 (word_of_int e)"
| "WriteElement (EUint64 e) = PutUint64 e"
| "WriteElement (EUint8 e) = PutUint8 e"
| "WriteElement (EBool e) = (if e then PutUint8 0x01 else PutUint8 0x00)"
| "WriteElement (EDomainHash e) = e"
| "WriteElement (EDomainTransactionID e) = e"
| "WriteElement (EDomainSubnetworkID e) = e"

primrec WriteElements :: "element list \<Rightarrow> bytes" where
  "WriteElements [] = []"
| "WriteElements (e # es) = WriteElement e @ WriteElements es"

fun ReadElement :: "elementKind \<Rightarrow> bytes \<Rightarrow> serError + (element \<times> bytes)" where
  "ReadElement KInt16 r = bindR (Uint16 r) (\<lambda>(rv, r). Inr (EInt16 (sint rv), r))"
| "ReadElement KUint16 r = bindR (Uint16 r) (\<lambda>(rv, r). Inr (EUint16 rv, r))"
| "ReadElement KInt32 r = bindR (Uint32 r) (\<lambda>(rv, r). Inr (EInt32 (sint rv), r))"
| "ReadElement KUint32 r = bindR (Uint32 r) (\<lambda>(rv, r). Inr (EUint32 rv, r))"
| "ReadElement KInt64 r = bindR (Uint64 r) (\<lambda>(rv, r). Inr (EInt64 (sint rv), r))"
| "ReadElement KUint64 r = bindR (Uint64 r) (\<lambda>(rv, r). Inr (EUint64 rv, r))"
| "ReadElement KUint8 r = bindR (Uint8 r) (\<lambda>(rv, r). Inr (EUint8 rv, r))"
| "ReadElement KBool r = bindR (Uint8 r) (\<lambda>(rv, r).
     if rv = 0x00 then Inr (EBool False, r)
     else if rv = 0x01 then Inr (EBool True, r)
     else Inl ErrMalformed)"
| "ReadElement KOther r = Inl ErrNoEncodingForType"

fun ReadElements :: "elementKind list \<Rightarrow> bytes \<Rightarrow> serError + (element list \<times> bytes)" where
  "ReadElements [] r = Inr ([], r)"
| "ReadElements (k # ks) r =
     bindR (ReadElement k r) (\<lambda>(e, r). bindR (ReadElements ks r) (\<lambda>(es, r). Inr (e # es, r)))"

definition IsMalformedError :: "serError \<Rightarrow> bool" where
  "IsMalformedError e \<longleftrightarrow> e = ErrUnexpectedEOF \<or> e = EOF \<or> e = ErrMalformed"

section \<open>Reading back\<close>

lemmas put_defs = PutUint8_def PutUint16_def PutUint32_def PutUint64_def
lemmas uint_defs = Uint8_def Uint16_def Uint32_def Uint64_def

lemma length_put [simp]:
  "length (PutUint8 a) = 1" "length (PutUint16 b) = 2" "length (PutUint32 c) = 4" "length (PutUint64 d) = 8"
  by (simp_all add: put_defs)

lemma getLE_put [simp]:
  "getLE (PutUint16 b) = unat b" "getLE (PutUint32 c) = unat c" "getLE (PutUint64 d) = unat d"
  using unsigned_less [of b, where ?'a = nat] unsigned_less [of c, where ?'a = nat]
    unsigned_less [of d, where ?'a = nat]
  by (simp_all add: put_defs getLE_putLE)

lemma readFull_Inr_iff: "readFull n r = Inr (b, r') \<longleftrightarrow> r = b @ r' \<and> length b = n"
  by (auto simp: readFull_def)

lemma Uint_put [simp]:
  "Uint8 (PutUint8 a @ r) = Inr (a, r)" "Uint16 (PutUint16 b @ r) = Inr (b, r)"
  "Uint32 (PutUint32 c @ r) = Inr (c, r)" "Uint64 (PutUint64 d @ r) = Inr (d, r)"
  by (simp_all add: uint_defs readFull_def) (simp add: PutUint8_def)

lemma put_word_of_getLE:
  "length b = 2 \<Longrightarrow> PutUint16 (word_of_nat (getLE b)) = b"
  "length b = 4 \<Longrightarrow> PutUint32 (word_of_nat (getLE b)) = b"
  "length b = 8 \<Longrightarrow> PutUint64 (word_of_nat (getLE b)) = b"
  using getLE_bound [of b] by (simp_all add: put_defs unat_of_nat putLE_getLE)

lemma Uint_Inr_iff:
  "Uint8 r = Inr (a, r') \<longleftrightarrow> r = PutUint8 a @ r'"
  "Uint16 r = Inr (b, r') \<longleftrightarrow> r = PutUint16 b @ r'"
  "Uint32 r = Inr (c, r') \<longleftrightarrow> r = PutUint32 c @ r'"
  "Uint64 r = Inr (d, r') \<longleftrightarrow> r = PutUint64 d @ r'"
proof -
  have 1: "b = PutUint8 (b ! 0)" if "length b = 1" for b
    using that by (auto simp: PutUint8_def length_Suc_conv)
  show "Uint8 r = Inr (a, r') \<longleftrightarrow> r = PutUint8 a @ r'"
    using 1 by (auto simp: uint_defs bindR_Inr_iff readFull_Inr_iff) (simp add: PutUint8_def)
  show "Uint16 r = Inr (b, r') \<longleftrightarrow> r = PutUint16 b @ r'"
    using put_word_of_getLE(1) by (auto simp: uint_defs bindR_Inr_iff readFull_Inr_iff)
  show "Uint32 r = Inr (c, r') \<longleftrightarrow> r = PutUint32 c @ r'"
    using put_word_of_getLE(2) by (auto simp: uint_defs bindR_Inr_iff readFull_Inr_iff)
  show "Uint64 r = Inr (d, r') \<longleftrightarrow> r = PutUint64 d @ r'"
    using put_word_of_getLE(3) by (auto simp: uint_defs bindR_Inr_iff readFull_Inr_iff)
qed

text \<open>The elements that are in the range of a type \<^verbatim>\<open>ReadElement\<close> can read.\<close>

fun readable :: "element \<Rightarrow> bool" where
  "readable (EInt16 e) \<longleftrightarrow> - (2 ^ 15) \<le> e \<and> e < 2 ^ 15"
| "readable (EInt32 e) \<longleftrightarrow> - (2 ^ 31) \<le> e \<and> e < 2 ^ 31"
| "readable (EInt64 e) \<longleftrightarrow> - (2 ^ 63) \<le> e \<and> e < 2 ^ 63"
| "readable e \<longleftrightarrow> kind_of e \<noteq> KOther"

lemma sint_word_of_int:
  "\<lbrakk> - (2 ^ 15) \<le> x; x < 2 ^ 15 \<rbrakk> \<Longrightarrow> sint (word_of_int x :: uint16) = x"
  "\<lbrakk> - (2 ^ 31) \<le> x; x < 2 ^ 31 \<rbrakk> \<Longrightarrow> sint (word_of_int x :: uint32) = x"
  "\<lbrakk> - (2 ^ 63) \<le> x; x < 2 ^ 63 \<rbrakk> \<Longrightarrow> sint (word_of_int x :: uint64) = x"
  by (simp_all add: signed_of_int signed_take_bit_int_eq_self)

lemma readable_sint:
  "readable (EInt16 (sint (a :: uint16)))" "readable (EInt32 (sint (b :: uint32)))"
  "readable (EInt64 (sint (c :: uint64)))"
  using sint_range_size [of a] sint_range_size [of b] sint_range_size [of c] by (simp_all add: word_size)

lemma ReadElement_WriteElement:
  "readable e \<Longrightarrow> ReadElement (kind_of e) (WriteElement e @ r) = Inr (e, r)"
  by (cases e) (simp_all add: sint_word_of_int)

lemma WriteElement_ReadElement:
  "ReadElement k bs = Inr (e, r) \<Longrightarrow> bs = WriteElement e @ r \<and> kind_of e = k \<and> readable e"
  using readable_sint
  by (cases k) (auto simp: bindR_Inr_iff Uint_Inr_iff simp del: readable.simps(1-3) split: if_splits)

lemma ReadElement_error:
  "ReadElement k bs = Inl e \<Longrightarrow> k \<noteq> KOther \<Longrightarrow> IsMalformedError e"
  by (cases k) (auto simp: bindR_Inl_iff uint_defs readFull_def IsMalformedError_def split: if_splits)

lemma ReadElements_iff:
  "ReadElements ks bs = Inr (es, r) \<longleftrightarrow>
     bs = WriteElements es @ r \<and> map kind_of es = ks \<and> list_all readable es"
proof (induction ks arbitrary: bs es)
  case (Cons k ks)
  show ?case
  proof
    assume "ReadElements (k # ks) bs = Inr (es, r)"
    then obtain e r' es' where "ReadElement k bs = Inr (e, r')"
      "ReadElements ks r' = Inr (es', r)" "es = e # es'"
      by (auto simp: bindR_Inr_iff)
    then show "bs = WriteElements es @ r \<and> map kind_of es = k # ks \<and> list_all readable es"
      using WriteElement_ReadElement [of k bs e r'] Cons.IH by simp
  next
    assume *: "bs = WriteElements es @ r \<and> map kind_of es = k # ks \<and> list_all readable es"
    then obtain e es' where es: "es = e # es'" by (cases es) auto
    then show "ReadElements (k # ks) bs = Inr (es, r)"
      using * Cons.IH [of "WriteElements es' @ r" es'] ReadElement_WriteElement [of e]
      by (auto simp: bindR_Inr_iff)
  qed
qed auto

section \<open>Properties\<close>

text \<open>
  C33: Serialization of primitive values is canonical: reading a sequence of typed values from a
  stream succeeds with the values \<open>es\<close> and the rest \<open>r\<close> exactly when the stream is what
  writing \<open>es\<close> gives, followed by \<open>r\<close>, and the values have the requested types and are
  in their ranges. So written values are read back, and no other bytes are read as them.
\<close>

theorem serialization_canonical:
  "ReadElements ks bs = Inr (es, r) \<longleftrightarrow>
     bs = WriteElements es @ r \<and> map kind_of es = ks \<and> list_all readable es"
  by (rule ReadElements_iff)

end
