(* ===== verification/Transaction.thy ===== *)
theory Transaction
  imports ScriptError Serialization
begin

text \<open>
  Transactions (\<^verbatim>\<open>model/externalapi/transaction.go\<close>, \<^verbatim>\<open>utils/utxo/utxo_entry.go\<close>), their
  equality, their encoding and the hashes over it (\<^verbatim>\<open>consensushashing/transaction.go\<close>,
  \<^verbatim>\<open>hashes/domains.go\<close>). Pointers to parts of a transaction are not nil; the UTXO entry of an
  input and the cached ID may be. The hash functions of the Go libraries are the record
  \<open>hashLib\<close> of parameters.
\<close>

section \<open>Data\<close>

record ScriptPublicKey =
  spk_Script :: bytes
  spk_Version :: uint16

record DomainOutpoint =
  outpoint_TransactionID :: bytes
  outpoint_Index :: uint32

record UTXOEntry =
  utxo_Amount :: uint64
  utxo_ScriptPublicKey :: ScriptPublicKey
  utxo_BlockDAAScore :: uint64
  utxo_IsCoinbase :: bool

record DomainTransactionInput =
  in_PreviousOutpoint :: DomainOutpoint
  in_SignatureScript :: bytes
  in_Sequence :: uint64
  in_SigOpCount :: byte
  in_UTXOEntry :: "UTXOEntry option"

record DomainTransactionOutput =
  out_Value :: uint64
  out_ScriptPublicKey :: ScriptPublicKey

record DomainTransaction =
  tx_Version :: uint16
  tx_Inputs :: "DomainTransactionInput list"
  tx_Outputs :: "DomainTransactionOutput list"
  tx_LockTime :: uint64
  tx_SubnetworkID :: bytes
  tx_Gas :: uint64
  tx_Payload :: bytes
  tx_Fee :: uint64
  tx_Mass :: uint64
  tx_ID :: "bytes option"

definition DomainHashSize :: nat where "DomainHashSize = 32"
definition DomainSubnetworkIDSize :: nat where "DomainSubnetworkIDSize = 20"

definition SubnetworkIDNative :: bytes where
  "SubnetworkIDNative = replicate DomainSubnetworkIDSize 0"

definition SubnetworkIDCoinbase :: bytes where
  "SubnetworkIDCoinbase = 1 # replicate (DomainSubnetworkIDSize - 1) 0"

definition SubnetworkIDRegistry :: bytes where
  "SubnetworkIDRegistry = 2 # replicate (DomainSubnetworkIDSize - 1) 0"

definition IsBuiltIn :: "bytes \<Rightarrow> bool" where
  "IsBuiltIn subnetworkID \<longleftrightarrow> subnetworkID = SubnetworkIDCoinbase \<or> subnetworkID = SubnetworkIDRegistry"

definition IsCoinBase :: "DomainTransaction \<Rightarrow> bool" where
  "IsCoinBase tx \<longleftrightarrow> tx_SubnetworkID tx = SubnetworkIDCoinbase"

section \<open>Equality\<close>

definition spk_Equal :: "ScriptPublicKey \<Rightarrow> ScriptPublicKey \<Rightarrow> bool" where
  "spk_Equal a b = (if spk_Version a \<noteq> spk_Version b then False else spk_Script a = spk_Script b)"

definition utxoEntry_Equal :: "UTXOEntry \<Rightarrow> UTXOEntry \<Rightarrow> bool" where
  "utxoEntry_Equal u other =
     (if utxo_Amount u \<noteq> utxo_Amount other then False
      else if \<not> spk_Equal (utxo_ScriptPublicKey u) (utxo_ScriptPublicKey other) then False
      else if utxo_BlockDAAScore u \<noteq> utxo_BlockDAAScore other then False
      else if utxo_IsCoinbase u \<noteq> utxo_IsCoinbase other then False
      else True)"

definition input_Equal :: "DomainTransactionInput \<Rightarrow> DomainTransactionInput \<Rightarrow> bool outcome" where
  "input_Equal input other =
     (if in_PreviousOutpoint input \<noteq> in_PreviousOutpoint other then Inr False
      else if in_SignatureScript input \<noteq> in_SignatureScript other then Inr False
      else if in_Sequence input \<noteq> in_Sequence other then Inr False
      else if in_SigOpCount input \<noteq> in_SigOpCount other then Inr False
      else case (in_UTXOEntry input, in_UTXOEntry other) of
             (Some u, Some v) \<Rightarrow> if \<not> utxoEntry_Equal u v then Inl GoPanic else Inr True
           | _ \<Rightarrow> Inr True)"

definition output_Equal :: "DomainTransactionOutput \<Rightarrow> DomainTransactionOutput \<Rightarrow> bool" where
  "output_Equal output other =
     (if out_Value output \<noteq> out_Value other then False
      else spk_Equal (out_ScriptPublicKey output) (out_ScriptPublicKey other))"

fun inputs_Equal :: "DomainTransactionInput list \<Rightarrow> DomainTransactionInput list \<Rightarrow> bool outcome" where
  "inputs_Equal (i # is) (j # js) =
     bindR (input_Equal i j) (\<lambda>b. if \<not> b then Inr False else inputs_Equal is js)"
| "inputs_Equal _ _ = Inr True"

definition transaction_Equal :: "DomainTransaction \<Rightarrow> DomainTransaction \<Rightarrow> bool outcome" where
  "transaction_Equal tx other =
     (if tx_Version tx \<noteq> tx_Version other then Inr False
      else if length (tx_Inputs tx) \<noteq> length (tx_Inputs other) then Inr False
      else bindR (inputs_Equal (tx_Inputs tx) (tx_Inputs other)) (\<lambda>b.
        if \<not> b then Inr False
        else if length (tx_Outputs tx) \<noteq> length (tx_Outputs other) then Inr False
        else if \<not> list_all2 output_Equal (tx_Outputs tx) (tx_Outputs other) then Inr False
        else if tx_LockTime tx \<noteq> tx_LockTime other then Inr False
        else if tx_SubnetworkID tx \<noteq> tx_SubnetworkID other then Inr False
        else if tx_Gas tx \<noteq> tx_Gas other then Inr False
        else if tx_Payload tx \<noteq> tx_Payload other then Inr False
        else if tx_Fee tx \<noteq> 0 \<and> tx_Fee other \<noteq> 0 \<and> tx_Fee tx \<noteq> tx_Fee other then Inl GoPanic
        else if tx_Mass tx \<noteq> 0 \<and> tx_Mass other \<noteq> 0 \<and> tx_Mass tx \<noteq> tx_Mass other then Inl GoPanic
        else if tx_ID tx \<noteq> None \<and> tx_ID other \<noteq> None \<and> tx_ID tx \<noteq> tx_ID other then Inl GoPanic
        else Inr True))"

section \<open>Encoding\<close>

text \<open>\<^verbatim>\<open>txEncodingExcludeSignatureScript\<close> is \<^verbatim>\<open>1 << iota\<close> on the second line of its block.\<close>

definition txEncodingFull :: byte where "txEncodingFull = 0"
definition txEncodingExcludeSignatureScript :: byte where
  "txEncodingExcludeSignatureScript = push_bit 1 1"

definition writeVarBytes :: "bytes \<Rightarrow> bytes" where
  "writeVarBytes data = WriteElement (EUint64 (word_of_nat (length data))) @ data"

definition writeOutpoint :: "DomainOutpoint \<Rightarrow> bytes" where
  "writeOutpoint outpoint = outpoint_TransactionID outpoint @ PutUint32 (outpoint_Index outpoint)"

definition writeTransactionInput :: "byte \<Rightarrow> DomainTransactionInput \<Rightarrow> bytes" where
  "writeTransactionInput encodingFlags ti =
     writeOutpoint (in_PreviousOutpoint ti) @
     (if encodingFlags AND txEncodingExcludeSignatureScript \<noteq> txEncodingExcludeSignatureScript
      then writeVarBytes (in_SignatureScript ti) @ [in_SigOpCount ti]
      else writeVarBytes []) @
     PutUint64 (in_Sequence ti)"

definition writeTxOut :: "DomainTransactionOutput \<Rightarrow> bytes" where
  "writeTxOut to = PutUint64 (out_Value to) @ PutUint16 (spk_Version (out_ScriptPublicKey to)) @
     writeVarBytes (spk_Script (out_ScriptPublicKey to))"

definition serializeTransaction :: "DomainTransaction \<Rightarrow> byte \<Rightarrow> bytes" where
  "serializeTransaction tx encodingFlags =
     PutUint16 (tx_Version tx) @
     WriteElement (EUint64 (word_of_nat (length (tx_Inputs tx)))) @
     concat (map (writeTransactionInput encodingFlags) (tx_Inputs tx)) @
     WriteElement (EUint64 (word_of_nat (length (tx_Outputs tx)))) @
     concat (map writeTxOut (tx_Outputs tx)) @
     PutUint64 (tx_LockTime tx) @
     tx_SubnetworkID tx @
     PutUint64 (tx_Gas tx) @
     writeVarBytes (tx_Payload tx)"

section \<open>Hashes\<close>

text \<open>
  The hash functions of the libraries: keyed BLAKE2b with a 256-bit digest (\<^verbatim>\<open>blake2b.New256\<close>),
  \<^verbatim>\<open>blake2b.Sum256\<close> and \<^verbatim>\<open>sha256.Sum256\<close>.
\<close>

record hashLib =
  blake2b_New256 :: "bytes \<Rightarrow> bytes \<Rightarrow> bytes"
  blake2b_Sum256 :: "bytes \<Rightarrow> bytes"
  sha256_Sum256 :: "bytes \<Rightarrow> bytes"

definition strBytes :: "string \<Rightarrow> bytes" where
  "strBytes s = map (\<lambda>c. word_of_nat (of_char c)) s"

definition transactionHashWriter :: "hashLib \<Rightarrow> bytes \<Rightarrow> bytes" where
  "transactionHashWriter lib = blake2b_New256 lib (strBytes ''TransactionHash'')"

definition transactionIDWriter :: "hashLib \<Rightarrow> bytes \<Rightarrow> bytes" where
  "transactionIDWriter lib = blake2b_New256 lib (strBytes ''TransactionID'')"

definition transactionSigningHashWriter :: "hashLib \<Rightarrow> bytes \<Rightarrow> bytes" where
  "transactionSigningHashWriter lib = blake2b_New256 lib (strBytes ''TransactionSigningHash'')"

definition transactionSigningECDSADomainHash :: "hashLib \<Rightarrow> bytes" where
  "transactionSigningECDSADomainHash lib = sha256_Sum256 lib (strBytes ''TransactionSigningHashECDSA'')"

definition transactionSigningHashECDSAWriter :: "hashLib \<Rightarrow> bytes \<Rightarrow> bytes" where
  "transactionSigningHashECDSAWriter lib data =
     sha256_Sum256 lib (transactionSigningECDSADomainHash lib @ data)"

definition TransactionHash :: "hashLib \<Rightarrow> DomainTransaction \<Rightarrow> bytes" where
  "TransactionHash lib tx = transactionHashWriter lib (serializeTransaction tx txEncodingFull)"

text \<open>The ID and the transaction with the ID cached in it.\<close>

definition TransactionID :: "hashLib \<Rightarrow> DomainTransaction \<Rightarrow> bytes \<times> DomainTransaction" where
  "TransactionID lib tx =
     (case tx_ID tx of
        Some txID \<Rightarrow> (txID, tx)
      | None \<Rightarrow>
          let encodingFlags = (if \<not> IsCoinBase tx then txEncodingExcludeSignatureScript else 0);
              transactionID = transactionIDWriter lib (serializeTransaction tx encodingFlags)
          in (transactionID, tx\<lparr>tx_ID := Some transactionID\<rparr>))"

fun TransactionIDs :: "hashLib \<Rightarrow> DomainTransaction list \<Rightarrow> bytes list \<times> DomainTransaction list" where
  "TransactionIDs lib [] = ([], [])"
| "TransactionIDs lib (tx # txs) =
     (let (txID, tx') = TransactionID lib tx; (txIDs, txs') = TransactionIDs lib txs
      in (txID # txIDs, tx' # txs'))"

section \<open>Self-delimiting encodings\<close>

text \<open>
  An encoding \<open>f\<close> is self-delimiting on the values that satisfy \<open>P\<close>, up to the view
  \<open>key\<close>, when the encoding of a value at the front of a stream determines the view of
  the value and the rest of the stream.
\<close>

definition delimits :: "('a \<Rightarrow> bytes) \<Rightarrow> ('a \<Rightarrow> bool) \<Rightarrow> ('a \<Rightarrow> 'k) \<Rightarrow> bool" where
  "delimits f P key \<longleftrightarrow>
     (\<forall>x y r s. P x \<longrightarrow> P y \<longrightarrow> f x @ r = f y @ s \<longrightarrow> key x = key y \<and> r = s)"

lemma delimitsI:
  "(\<And>x y r s. \<lbrakk> P x; P y; f x @ r = f y @ s \<rbrakk> \<Longrightarrow> key x = key y \<and> r = s) \<Longrightarrow> delimits f P key"
  unfolding delimits_def by blast

lemma delimitsD:
  "\<lbrakk> delimits f P key; P x; P y; f x @ r = f y @ s \<rbrakk> \<Longrightarrow> key x = key y \<and> r = s"
  unfolding delimits_def by blast

lemma PutUint_inj [simp]:
  "PutUint16 a = PutUint16 b \<longleftrightarrow> a = b" "PutUint32 c = PutUint32 d \<longleftrightarrow> c = d"
  "PutUint64 x = PutUint64 y \<longleftrightarrow> x = y"
  by (metis getLE_put(1) word_unat_eq_iff) (metis getLE_put(2) word_unat_eq_iff, metis getLE_put(3) word_unat_eq_iff)

lemma PutUint_append [simp]:
  "PutUint16 a @ r = PutUint16 b @ s \<longleftrightarrow> a = b \<and> r = s"
  "PutUint32 c @ r = PutUint32 d @ s \<longleftrightarrow> c = d \<and> r = s"
  "PutUint64 x @ r = PutUint64 y @ s \<longleftrightarrow> x = y \<and> r = s"
  by (simp_all add: append_eq_append_conv)

text \<open>A length that fits the 64-bit counters of the encoding.\<close>

definition fits :: "'a list \<Rightarrow> bool" where
  "fits xs \<longleftrightarrow> length xs < 2 ^ 64"

lemma word_of_length_eq:
  "\<lbrakk> fits xs; fits ys; (word_of_nat (length xs) :: uint64) = word_of_nat (length ys) \<rbrakk> \<Longrightarrow> length xs = length ys"
  by (simp add: fits_def word_of_nat_eq_iff take_bit_nat_eq_self)

lemma delimits_writeVarBytes: "delimits writeVarBytes fits (\<lambda>d. d)"
proof (rule delimitsI)
  fix x y r s
  assume "fits x" "fits y" "writeVarBytes x @ r = writeVarBytes y @ s"
  then show "x = y \<and> r = s"
    using word_of_length_eq [of x y] by (auto simp: writeVarBytes_def append_eq_append_conv)
qed

lemma writeVarBytes_append:
  "\<lbrakk> fits x; fits y \<rbrakk> \<Longrightarrow> writeVarBytes x @ r = writeVarBytes y @ s \<longleftrightarrow> x = y \<and> r = s"
  using delimitsD [OF delimits_writeVarBytes, of x y r s] by auto

lemma delimits_concat:
  assumes "delimits f P key"
  shows "\<lbrakk> list_all P xs; list_all P ys; length xs = length ys;
      concat (map f xs) @ r = concat (map f ys) @ s \<rbrakk> \<Longrightarrow> map key xs = map key ys \<and> r = s"
proof (induction xs arbitrary: ys)
  case (Cons x xs)
  then obtain y ys' where ys: "ys = y # ys'" by (cases ys) auto
  with Cons.prems have "f x @ (concat (map f xs) @ r) = f y @ (concat (map f ys') @ s)" by simp
  from delimitsD [OF assms _ _ this] Cons.prems ys
  have k: "key x = key y" and r: "concat (map f xs) @ r = concat (map f ys') @ s" by simp_all
  have "map key xs = map key ys' \<and> r = s"
    by (rule Cons.IH [OF _ _ _ r]) (use Cons.prems ys in simp_all)
  with k ys show ?case by simp
qed simp

section \<open>The encoding determines the transaction\<close>

definition wf_outpoint :: "DomainOutpoint \<Rightarrow> bool" where
  "wf_outpoint op \<longleftrightarrow> length (outpoint_TransactionID op) = DomainHashSize"

definition wf_input :: "DomainTransactionInput \<Rightarrow> bool" where
  "wf_input i \<longleftrightarrow> wf_outpoint (in_PreviousOutpoint i) \<and> fits (in_SignatureScript i)"

definition wf_output :: "DomainTransactionOutput \<Rightarrow> bool" where
  "wf_output out \<longleftrightarrow> fits (spk_Script (out_ScriptPublicKey out))"

text \<open>Fixed-size arrays have their size, and lengths fit 64 bits: what the Go types guarantee.\<close>

definition wf_tx :: "DomainTransaction \<Rightarrow> bool" where
  "wf_tx tx \<longleftrightarrow> list_all wf_input (tx_Inputs tx) \<and> fits (tx_Inputs tx) \<and>
     list_all wf_output (tx_Outputs tx) \<and> fits (tx_Outputs tx) \<and>
     length (tx_SubnetworkID tx) = DomainSubnetworkIDSize \<and> fits (tx_Payload tx)"

text \<open>What a transaction encoding shows of an input and of the transaction.\<close>

definition input_view :: "byte \<Rightarrow> DomainTransactionInput \<Rightarrow> DomainOutpoint \<times> (bytes \<times> byte) option \<times> uint64" where
  "input_view flags i =
     (in_PreviousOutpoint i,
      if flags = txEncodingExcludeSignatureScript then None else Some (in_SignatureScript i, in_SigOpCount i),
      in_Sequence i)"

definition tx_view :: "byte \<Rightarrow> DomainTransaction \<Rightarrow>
    uint16 \<times> (DomainOutpoint \<times> (bytes \<times> byte) option \<times> uint64) list \<times> DomainTransactionOutput list \<times>
    uint64 \<times> bytes \<times> uint64 \<times> bytes" where
  "tx_view flags tx = (tx_Version tx, map (input_view flags) (tx_Inputs tx), tx_Outputs tx,
     tx_LockTime tx, tx_SubnetworkID tx, tx_Gas tx, tx_Payload tx)"

lemma delimits_writeOutpoint: "delimits writeOutpoint wf_outpoint (\<lambda>op. op)"
proof (rule delimitsI)
  fix x y r s
  assume "wf_outpoint x" "wf_outpoint y" "writeOutpoint x @ r = writeOutpoint y @ s"
  then show "x = y \<and> r = s"
    by (cases x; cases y) (simp add: writeOutpoint_def wf_outpoint_def append_eq_append_conv)
qed

lemma writeOutpoint_append:
  "\<lbrakk> wf_outpoint x; wf_outpoint y \<rbrakk> \<Longrightarrow> writeOutpoint x @ r = writeOutpoint y @ s \<longleftrightarrow> x = y \<and> r = s"
  using delimitsD [OF delimits_writeOutpoint, of x y r s] by auto

lemma writeTransactionInput_cases:
  "writeTransactionInput txEncodingFull i =
     writeOutpoint (in_PreviousOutpoint i) @ writeVarBytes (in_SignatureScript i) @ in_SigOpCount i #
     PutUint64 (in_Sequence i)"
  "writeTransactionInput txEncodingExcludeSignatureScript i =
     writeOutpoint (in_PreviousOutpoint i) @ writeVarBytes [] @ PutUint64 (in_Sequence i)"
  by (simp_all add: writeTransactionInput_def txEncodingFull_def txEncodingExcludeSignatureScript_def)

lemma delimits_writeTransactionInput:
  assumes "flags = txEncodingFull \<or> flags = txEncodingExcludeSignatureScript"
  shows "delimits (writeTransactionInput flags) wf_input (input_view flags)"
proof (rule delimitsI)
  fix x y r s
  assume wf: "wf_input x" "wf_input y" and eq: "writeTransactionInput flags x @ r = writeTransactionInput flags y @ s"
  have ne: "txEncodingFull \<noteq> txEncodingExcludeSignatureScript"
    by (simp add: txEncodingFull_def txEncodingExcludeSignatureScript_def)
  from assms show "input_view flags x = input_view flags y \<and> r = s"
  proof
    assume f: "flags = txEncodingFull"
    from eq have "writeOutpoint (in_PreviousOutpoint x) @ writeVarBytes (in_SignatureScript x) @
        in_SigOpCount x # PutUint64 (in_Sequence x) @ r
      = writeOutpoint (in_PreviousOutpoint y) @ writeVarBytes (in_SignatureScript y) @
        in_SigOpCount y # PutUint64 (in_Sequence y) @ s"
      by (simp add: f writeTransactionInput_cases)
    then have "in_PreviousOutpoint x = in_PreviousOutpoint y \<and> in_SignatureScript x = in_SignatureScript y
        \<and> in_SigOpCount x # PutUint64 (in_Sequence x) @ r = in_SigOpCount y # PutUint64 (in_Sequence y) @ s"
      using wf by (simp only: wf_input_def writeOutpoint_append writeVarBytes_append)
    then show ?thesis using f ne by (simp add: input_view_def)
  next
    assume f: "flags = txEncodingExcludeSignatureScript"
    from eq have "writeOutpoint (in_PreviousOutpoint x) @ writeVarBytes [] @ PutUint64 (in_Sequence x) @ r
      = writeOutpoint (in_PreviousOutpoint y) @ writeVarBytes [] @ PutUint64 (in_Sequence y) @ s"
      by (simp add: f writeTransactionInput_cases)
    then have "in_PreviousOutpoint x = in_PreviousOutpoint y \<and>
        writeVarBytes [] @ PutUint64 (in_Sequence x) @ r = writeVarBytes [] @ PutUint64 (in_Sequence y) @ s"
      using wf by (simp only: wf_input_def writeOutpoint_append)
    then show ?thesis using f by (simp add: input_view_def)
  qed
qed

lemma delimits_writeTxOut: "delimits writeTxOut wf_output (\<lambda>out. out)"
proof (rule delimitsI)
  fix x y :: DomainTransactionOutput and r s
  assume wf: "wf_output x" "wf_output y" and eq: "writeTxOut x @ r = writeTxOut y @ s"
  let ?p = out_ScriptPublicKey
  from eq have "out_Value x = out_Value y" "spk_Version (?p x) = spk_Version (?p y)"
    "writeVarBytes (spk_Script (?p x)) @ r = writeVarBytes (spk_Script (?p y)) @ s"
    by (simp_all add: writeTxOut_def)
  then show "x = y \<and> r = s"
    using wf by (simp add: wf_output_def writeVarBytes_append DomainTransactionOutput.equality ScriptPublicKey.equality)
qed

lemma serializeTransaction_view:
  assumes flags: "flags = txEncodingFull \<or> flags = txEncodingExcludeSignatureScript"
    and wf: "wf_tx tx" "wf_tx tx'" and eq: "serializeTransaction tx flags = serializeTransaction tx' flags"
  shows "tx_view flags tx = tx_view flags tx'"
proof -
  from eq have v: "tx_Version tx = tx_Version tx'"
    and ins: "(word_of_nat (length (tx_Inputs tx)) :: uint64) = word_of_nat (length (tx_Inputs tx'))"
    and r1: "concat (map (writeTransactionInput flags) (tx_Inputs tx)) @
       PutUint64 (word_of_nat (length (tx_Outputs tx))) @ concat (map writeTxOut (tx_Outputs tx)) @
       PutUint64 (tx_LockTime tx) @ tx_SubnetworkID tx @ PutUint64 (tx_Gas tx) @ writeVarBytes (tx_Payload tx)
     = concat (map (writeTransactionInput flags) (tx_Inputs tx')) @
       PutUint64 (word_of_nat (length (tx_Outputs tx'))) @ concat (map writeTxOut (tx_Outputs tx')) @
       PutUint64 (tx_LockTime tx') @ tx_SubnetworkID tx' @ PutUint64 (tx_Gas tx') @ writeVarBytes (tx_Payload tx')"
    by (simp_all only: serializeTransaction_def WriteElement.simps PutUint_append)
  have li: "length (tx_Inputs tx) = length (tx_Inputs tx')"
    using wf ins by (auto simp: wf_tx_def intro: word_of_length_eq)
  from delimits_concat [OF delimits_writeTransactionInput [OF flags] _ _ li r1] wf
  have i: "map (input_view flags) (tx_Inputs tx) = map (input_view flags) (tx_Inputs tx')"
    and r2: "PutUint64 (word_of_nat (length (tx_Outputs tx))) @ concat (map writeTxOut (tx_Outputs tx)) @
       PutUint64 (tx_LockTime tx) @ tx_SubnetworkID tx @ PutUint64 (tx_Gas tx) @ writeVarBytes (tx_Payload tx)
     = PutUint64 (word_of_nat (length (tx_Outputs tx'))) @ concat (map writeTxOut (tx_Outputs tx')) @
       PutUint64 (tx_LockTime tx') @ tx_SubnetworkID tx' @ PutUint64 (tx_Gas tx') @ writeVarBytes (tx_Payload tx')"
    by (simp_all add: wf_tx_def)
  have lo: "length (tx_Outputs tx) = length (tx_Outputs tx')"
    using wf r2 by (auto simp: wf_tx_def intro: word_of_length_eq)
  from r2 have r3: "concat (map writeTxOut (tx_Outputs tx)) @
       PutUint64 (tx_LockTime tx) @ tx_SubnetworkID tx @ PutUint64 (tx_Gas tx) @ writeVarBytes (tx_Payload tx)
     = concat (map writeTxOut (tx_Outputs tx')) @
       PutUint64 (tx_LockTime tx') @ tx_SubnetworkID tx' @ PutUint64 (tx_Gas tx') @ writeVarBytes (tx_Payload tx')"
    by simp
  from delimits_concat [OF delimits_writeTxOut _ _ lo r3] wf
  have o: "tx_Outputs tx = tx_Outputs tx'" and "tx_LockTime tx = tx_LockTime tx'"
    and "tx_SubnetworkID tx @ PutUint64 (tx_Gas tx) @ writeVarBytes (tx_Payload tx)
       = tx_SubnetworkID tx' @ PutUint64 (tx_Gas tx') @ writeVarBytes (tx_Payload tx')"
    by (simp_all add: wf_tx_def)
  moreover from this wf have "tx_SubnetworkID tx = tx_SubnetworkID tx'" "tx_Gas tx = tx_Gas tx'"
    "writeVarBytes (tx_Payload tx) = writeVarBytes (tx_Payload tx')"
    by (auto simp: wf_tx_def append_eq_append_conv)
  moreover from this wf have "tx_Payload tx = tx_Payload tx'"
    using writeVarBytes_append [of "tx_Payload tx" "tx_Payload tx'" "[]" "[]"] by (simp add: wf_tx_def)
  ultimately show ?thesis using v i by (simp add: tx_view_def)
qed

lemma writeTransactionInput_view:
  assumes "flags = txEncodingFull \<or> flags = txEncodingExcludeSignatureScript" "input_view flags x = input_view flags y"
  shows "writeTransactionInput flags x = writeTransactionInput flags y"
proof -
  have "txEncodingFull \<noteq> txEncodingExcludeSignatureScript"
    by (simp add: txEncodingFull_def txEncodingExcludeSignatureScript_def)
  then show ?thesis using assms by (auto simp: input_view_def writeTransactionInput_cases)
qed

lemma map_view_cong:
  assumes "map v xs = map v ys" "\<And>x y. v x = v y \<Longrightarrow> f x = f y"
  shows "map f xs = map f ys"
proof (rule nth_equalityI)
  from assms(1) have len: "length xs = length ys" by (rule map_eq_imp_length_eq)
  then show "length (map f xs) = length (map f ys)" by simp
  show "map f xs ! i = map f ys ! i" if "i < length (map f xs)" for i
    using that len arg_cong [OF assms(1), of "\<lambda>l. l ! i"] by (simp, intro assms(2)) simp
qed

lemma serializeTransaction_iff:
  assumes "flags = txEncodingFull \<or> flags = txEncodingExcludeSignatureScript" "wf_tx tx" "wf_tx tx'"
  shows "serializeTransaction tx flags = serializeTransaction tx' flags \<longleftrightarrow> tx_view flags tx = tx_view flags tx'"
proof
  assume "tx_view flags tx = tx_view flags tx'"
  moreover from this have ins: "map (input_view flags) (tx_Inputs tx) = map (input_view flags) (tx_Inputs tx')"
    by (simp add: tx_view_def)
  from map_view_cong [OF ins writeTransactionInput_view [OF assms(1)]]
  have "map (writeTransactionInput flags) (tx_Inputs tx) = map (writeTransactionInput flags) (tx_Inputs tx')" .
  moreover from ins have "length (tx_Inputs tx) = length (tx_Inputs tx')" by (rule map_eq_imp_length_eq)
  ultimately show "serializeTransaction tx flags = serializeTransaction tx' flags"
    by (simp add: tx_view_def serializeTransaction_def)
qed (rule serializeTransaction_view [OF assms])

section \<open>Equality is equality of the encoded fields\<close>

lemma spk_Equal_iff [simp]: "spk_Equal a b \<longleftrightarrow> a = b"
  by (cases a; cases b) (auto simp: spk_Equal_def)

lemma utxoEntry_Equal_iff [simp]: "utxoEntry_Equal a b \<longleftrightarrow> a = b"
  by (cases a; cases b) (auto simp: utxoEntry_Equal_def)

lemma output_Equal_eq: "output_Equal = (=)"
proof (intro ext)
  show "output_Equal a b = (a = b)" for a b
    by (cases a; cases b) (auto simp: output_Equal_def)
qed

lemma full_not_exclude: "txEncodingFull \<noteq> txEncodingExcludeSignatureScript"
  by (simp add: txEncodingFull_def txEncodingExcludeSignatureScript_def)

lemma input_Equal_view:
  "input_Equal i j = Inr b \<Longrightarrow> b \<longleftrightarrow> input_view txEncodingFull i = input_view txEncodingFull j"
  using full_not_exclude by (auto simp: input_Equal_def input_view_def split: if_splits option.splits)

lemma inputs_Equal_view:
  "\<lbrakk> inputs_Equal is js = Inr b; length is = length js \<rbrakk> \<Longrightarrow>
     b \<longleftrightarrow> map (input_view txEncodingFull) is = map (input_view txEncodingFull) js"
proof (induction "is" js rule: inputs_Equal.induct)
  case (1 i "is" j js)
  from 1(2) obtain c where c: "input_Equal i j = Inr c" by (auto simp: bindR_Inr_iff)
  with 1 input_Equal_view [OF c] show ?case by (cases c) auto
qed auto

lemma transaction_Equal_view:
  "transaction_Equal tx tx' = Inr b \<Longrightarrow> b \<longleftrightarrow> tx_view txEncodingFull tx = tx_view txEncodingFull tx'"
proof -
  assume eq: "transaction_Equal tx tx' = Inr b"
  show ?thesis
  proof (cases "tx_Version tx = tx_Version tx' \<and> length (tx_Inputs tx) = length (tx_Inputs tx')")
    case False
    then have "map (input_view txEncodingFull) (tx_Inputs tx) \<noteq> map (input_view txEncodingFull) (tx_Inputs tx')
        \<or> tx_Version tx \<noteq> tx_Version tx'"
      by (metis length_map)
    with False eq show ?thesis by (auto simp: transaction_Equal_def tx_view_def split: if_splits)
  next
    case True
    with eq obtain c where "inputs_Equal (tx_Inputs tx) (tx_Inputs tx') = Inr c"
      by (auto simp: transaction_Equal_def bindR_Inr_iff)
    with True eq inputs_Equal_view [OF this] show ?thesis
      by (auto simp: transaction_Equal_def tx_view_def output_Equal_eq list.rel_eq split: if_splits)
  qed
qed

section \<open>Properties\<close>

text \<open>
  C24: The encoding that is hashed into a transaction hash or ID is unambiguous: two transactions
  have the same full encoding exactly when they agree on every field of it, and the same
  encoding without signature scripts (the one of the ID of a transaction that is no coinbase)
  exactly when they agree on everything but signature scripts and signature-operation counts.
  In particular the ID depends on the payload.
\<close>

theorem transaction_encoding_unambiguous:
  assumes "flags = txEncodingFull \<or> flags = txEncodingExcludeSignatureScript" "wf_tx tx" "wf_tx tx'"
  shows "serializeTransaction tx flags = serializeTransaction tx' flags \<longleftrightarrow> tx_view flags tx = tx_view flags tx'"
  by (rule serializeTransaction_iff [OF assms])

definition sample_tx :: "bytes \<Rightarrow> DomainTransaction" where
  "sample_tx payload = \<lparr>tx_Version = 0,
     tx_Inputs = [\<lparr>in_PreviousOutpoint = \<lparr>outpoint_TransactionID = replicate 32 7, outpoint_Index = 1\<rparr>,
       in_SignatureScript = [1, 2], in_Sequence = 5, in_SigOpCount = 1, in_UTXOEntry = None\<rparr>],
     tx_Outputs = [\<lparr>out_Value = 9, out_ScriptPublicKey = \<lparr>spk_Script = [0x51], spk_Version = 0\<rparr>\<rparr>],
     tx_LockTime = 0, tx_SubnetworkID = SubnetworkIDNative, tx_Gas = 0, tx_Payload = payload,
     tx_Fee = 0, tx_Mass = 0, tx_ID = None\<rparr>"

lemma wf_sample_tx: "fits payload \<Longrightarrow> wf_tx (sample_tx payload)"
  by (simp add: sample_tx_def wf_tx_def wf_input_def wf_outpoint_def wf_output_def fits_def
      DomainHashSize_def DomainSubnetworkIDSize_def SubnetworkIDNative_def)

theorem transaction_encoding_unambiguous_witness:
  "serializeTransaction (sample_tx [1]) txEncodingExcludeSignatureScript
     \<noteq> serializeTransaction (sample_tx [2]) txEncodingExcludeSignatureScript"
  using transaction_encoding_unambiguous [of txEncodingExcludeSignatureScript "sample_tx [1]" "sample_tx [2]"]
  by (simp add: wf_sample_tx fits_def) (simp add: tx_view_def sample_tx_def)

text \<open>
  C34: Where the comparison of two transactions returns at all (it panics when cached values of
  equal transactions differ), it returns whether they have the same full encoding.
\<close>

theorem transaction_Equal_encoding:
  assumes "wf_tx tx" "wf_tx tx'" "transaction_Equal tx tx' = Inr b"
  shows "b \<longleftrightarrow> serializeTransaction tx txEncodingFull = serializeTransaction tx' txEncodingFull"
  using transaction_Equal_view [OF assms(3)] serializeTransaction_iff [OF _ assms(1,2)] by simp

theorem transaction_Equal_encoding_witness:
  "transaction_Equal (sample_tx [1]) (sample_tx [2]) = Inr False \<and>
   serializeTransaction (sample_tx [1]) txEncodingFull \<noteq> serializeTransaction (sample_tx [2]) txEncodingFull"
proof -
  have "transaction_Equal (sample_tx [1]) (sample_tx [2]) = Inr False"
    by (simp add: transaction_Equal_def sample_tx_def input_Equal_def output_Equal_def)
  then show ?thesis
    using transaction_Equal_encoding [of "sample_tx [1]" "sample_tx [2]" False]
    by (simp add: wf_sample_tx fits_def)
qed

end
