(* ===== verification/RuleErrors.thy ===== *)
theory RuleErrors
  imports ScriptError Transaction
begin

text \<open>
  Rule errors of the consensus (\<^verbatim>\<open>domain/consensus/ruleerrors\<close>), in the order of the source.
  A rejection is a rule error, another error (a store without the data) or a panic.
\<close>

datatype (plugins only: code) ruleError =
    ErrDuplicateBlock | ErrBlockVersionTooOld | ErrTimeTooOld | ErrTimeTooMuchInTheFuture | ErrNoParents
  | ErrUnexpectedDifficulty | ErrUnexpectedDAAScore | ErrUnexpectedBlueWork | ErrUnexpectedFinalityPoint
  | ErrUnexpectedCoinbaseBlueScore | ErrUnexpectedHeaderBlueScore | ErrTargetTooHigh | ErrNegativeTarget
  | ErrInvalidPoW | ErrBadMerkleRoot | ErrBadUTXOCommitment | ErrFinalityPointTimeTooOld | ErrNoTransactions
  | ErrNoTxInputs | ErrBadTxOutValue | ErrTxOutValueZero | ErrDuplicateTxInputs | ErrDoubleSpendInSameBlock
  | ErrUnfinalizedTx | ErrDuplicateTx | ErrImmatureSpend | ErrSpendTooHigh | ErrFirstTxNotCoinbase
  | ErrMultipleCoinbases | ErrBadCoinbasePayloadLen | ErrBadCoinbaseTransaction | ErrScriptMalformed
  | ErrScriptValidation | ErrInvalidAncestorBlock | ErrTransactionsNotSorted | ErrInvalidGas | ErrInvalidPayload
  | ErrWrongSigOpCount | ErrSubnetworkRegistry | ErrInvalidParentsRelation | ErrTooManyParents
  | ErrViolatingBoundedMergeDepth | ErrViolatingMergeLimit | ErrChainedTransactions | ErrBlockMassTooHigh
  | ErrKnownInvalid | ErrSubnetworksDisabled | ErrBadPruningPointUTXOSet | ErrMalformedUTXO
  | ErrWrongPruningPointHash | ErrPruningPointViolation | ErrUnexpectedParents | ErrUnexpectedPruningPoint
  | ErrInvalidPruningPointsChain | ErrSuggestedPruningViolatesFinality | ErrBlockVersionIsUnknown
  | ErrTransactionVersionIsUnknown | ErrPrunedBlock | ErrGetVirtualUTXOsWrongVirtualParents | ErrVirtualGenesisParent
  | ErrGenesisOnInitializedConsensus | ErrPruningPointSelectedChildDisqualifiedFromChain
  | ErrUnexpectedHeaderPruningPoint | ErrPruningProofHeaderWithNoKnownParents | ErrPruningProofMissingBlockLevels
  | ErrPruningProofWrongBlockLevel | ErrPruningProofSelectedTipNotParentOfPruningPoint
  | ErrPruningProofSelectedTipIsNotThePruningPoint | ErrPruningProofInsufficientBlueWork
  | ErrPruningProofMissingBlockAtDepthMFromNextLevel | ErrPruningProofMissesBlocksBelowPruningPoint
  | ErrPruningProofEmpty | ErrWrongCoinbaseSubsidy | ErrWrongBlockVersion | ErrCoinbaseWithInputs
  | ErrCoinbaseTooManyOutputs | ErrCoinbaseTooLongScriptPublicKey | ErrMissingTxOut "DomainOutpoint list"
  | ErrMissingParents "bytes list"

datatype rejection = RuleError ruleError | OtherError | Panicked

type_synonym 'a validated = "rejection + 'a"

definition ruleErr :: "ruleError \<Rightarrow> 'a validated" where
  "ruleErr e = Inl (RuleError e)"

text \<open>An error of a called function, passed on or wrapped into a rule error.\<close>

definition passOn :: "'a outcome \<Rightarrow> 'a validated" where
  "passOn r = (case r of Inr x \<Rightarrow> Inr x | Inl e \<Rightarrow> Inl (if e = GoPanic then Panicked else OtherError))"

definition wrapAs :: "ruleError \<Rightarrow> 'a outcome \<Rightarrow> 'a validated" where
  "wrapAs rule r = (case r of Inr x \<Rightarrow> Inr x | Inl e \<Rightarrow> Inl (if e = GoPanic then Panicked else RuleError rule))"

lemma ruled_simps [simp, result_simps]:
  "ruleErr e \<noteq> Inr x" "ruleErr e \<noteq> Inl Panicked" "bindR (ruleErr e) k = ruleErr e"
  "passOn r = Inr x \<longleftrightarrow> r = Inr x" "wrapAs rule r = Inr x \<longleftrightarrow> r = Inr x"
  "passOn r = Inl Panicked \<longleftrightarrow> r = Inl GoPanic" "wrapAs rule r = Inl Panicked \<longleftrightarrow> r = Inl GoPanic"
  by (auto simp: ruleErr_def passOn_def wrapAs_def split: sum.splits)

text \<open>A call does not panic, and what it returns satisfies the postcondition.\<close>

definition grants :: "('a \<Rightarrow> bool) \<Rightarrow> 'a validated \<Rightarrow> bool" where
  "grants Q r \<longleftrightarrow> r \<noteq> Inl Panicked \<and> (\<forall>x. r = Inr x \<longrightarrow> Q x)"

lemma grants_simps [simp]:
  "grants Q (Inr x) \<longleftrightarrow> Q x" "grants Q (Inl e) \<longleftrightarrow> e \<noteq> Panicked" "grants Q (ruleErr re)"
  "grants Q (bindR r k) \<longleftrightarrow> grants (\<lambda>x. grants Q (k x)) r"
  "grants Q (passOn o1) \<longleftrightarrow> ensures Q o1" "grants Q (wrapAs re o1) \<longleftrightarrow> ensures Q o1"
  by (auto simp: grants_def bindR_Inr_iff bindR_Inl_iff ensures_def returns_def no_panic_def)

lemma grants_mono: "\<lbrakk> grants P r; \<And>x. \<lbrakk> r = Inr x; P x \<rbrakk> \<Longrightarrow> Q x \<rbrakk> \<Longrightarrow> grants Q r"
  by (simp add: grants_def)

lemma grants_bind: "\<lbrakk> grants P r; \<And>x. P x \<Longrightarrow> grants Q (k x) \<rbrakk> \<Longrightarrow> grants Q (bindR r k)"
  by (cases r) auto

lemma grantsD: "\<lbrakk> grants Q r; r = Inr x \<rbrakk> \<Longrightarrow> Q x"
  by (simp add: grants_def)

end
