(* ===== verification/TxMass.thy ===== *)
theory TxMass
  imports Transaction
begin

text \<open>
  The mass of a transaction (\<^verbatim>\<open>util/txmass/calculator.go\<close>): its estimated size, the size of its
  script public keys and its signature operations, weighted. All sums are \<^verbatim>\<open>uint64\<close>.
\<close>

record Calculator =
  massPerTxByte :: uint64
  massPerScriptPubKeyByte :: uint64
  massPerSigOp :: uint64

definition len64 :: "'a list \<Rightarrow> uint64" where
  "len64 xs = word_of_nat (length xs)"

definition outpointEstimatedSerializedSize :: uint64 where
  "outpointEstimatedSerializedSize = word_of_nat DomainHashSize + 4"

definition transactionInputEstimatedSerializedSize :: "DomainTransactionInput \<Rightarrow> uint64" where
  "transactionInputEstimatedSerializedSize input =
     outpointEstimatedSerializedSize + 8 + len64 (in_SignatureScript input) + 8"

definition TransactionOutputEstimatedSerializedSize :: "DomainTransactionOutput \<Rightarrow> uint64" where
  "TransactionOutputEstimatedSerializedSize output = 8 + 2 + 8 + len64 (spk_Script (out_ScriptPublicKey output))"

definition transactionEstimatedSerializedSize :: "DomainTransaction \<Rightarrow> uint64" where
  "transactionEstimatedSerializedSize tx =
     (if IsCoinBase tx then 0
      else let size = 2 + 8;
               size = foldl (\<lambda>size input. size + transactionInputEstimatedSerializedSize input) size (tx_Inputs tx);
               size = size + 8;
               size = foldl (\<lambda>size output. size + TransactionOutputEstimatedSerializedSize output) size (tx_Outputs tx)
           in size + 8 + word_of_nat DomainSubnetworkIDSize + 8 + word_of_nat DomainHashSize + 8 + len64 (tx_Payload tx))"

definition CalculateTransactionMass :: "Calculator \<Rightarrow> DomainTransaction \<Rightarrow> uint64" where
  "CalculateTransactionMass c transaction =
     (if IsCoinBase transaction then 0
      else let massForSize = transactionEstimatedSerializedSize transaction * massPerTxByte c;
               totalScriptPubKeySize = foldl (\<lambda>total output. total + 2 + len64 (spk_Script (out_ScriptPublicKey output))) 0 (tx_Outputs transaction);
               massForScriptPubKey = totalScriptPubKeySize * massPerScriptPubKeyByte c;
               totalSigOpCount = foldl (\<lambda>total input. total + ucast (in_SigOpCount input)) 0 (tx_Inputs transaction);
               massForSigOps = totalSigOpCount * massPerSigOp c
           in massForSize + massForScriptPubKey + massForSigOps)"

section \<open>The estimated size and the encoding\<close>

text \<open>
  The estimate exceeds the length of the encoding that is hashed by the size of a payload hash, which
  the encoding does not have, and falls short of it by one byte for each input, the count of
  signature operations.
\<close>

lemma length_writeTransactionInput:
  "length (outpoint_TransactionID (in_PreviousOutpoint i)) = DomainHashSize \<Longrightarrow>
   word_of_nat (length (writeTransactionInput txEncodingFull i)) = transactionInputEstimatedSerializedSize i + 1"
  by (simp add: writeTransactionInput_cases writeOutpoint_def writeVarBytes_def transactionInputEstimatedSerializedSize_def
      outpointEstimatedSerializedSize_def len64_def DomainHashSize_def algebra_simps)

lemma length_writeTxOut:
  "word_of_nat (length (writeTxOut out)) = TransactionOutputEstimatedSerializedSize out"
  by (simp add: writeTxOut_def writeVarBytes_def TransactionOutputEstimatedSerializedSize_def len64_def algebra_simps)

lemma foldl_sizes:
  fixes f :: "'a \<Rightarrow> uint64"
  assumes "\<forall>x\<in>set xs. word_of_nat (length (w x)) = f x + k"
  shows "foldl (\<lambda>size x. size + f x) s xs = s + word_of_nat (length (concat (map w xs))) - word_of_nat (length xs) * k"
  using assms by (induction xs arbitrary: s) (auto simp: algebra_simps)

lemma estimated_size_encoding:
  assumes "wf_tx tx" "\<not> IsCoinBase tx"
  shows "transactionEstimatedSerializedSize tx + len64 (tx_Inputs tx) =
    word_of_nat (length (serializeTransaction tx txEncodingFull)) + word_of_nat DomainHashSize"
proof -
  have i: "foldl (\<lambda>size i. size + transactionInputEstimatedSerializedSize i) s (tx_Inputs tx) =
      s + word_of_nat (length (concat (map (writeTransactionInput txEncodingFull) (tx_Inputs tx)))) - word_of_nat (length (tx_Inputs tx)) * 1" for s
    using assms(1) by (intro foldl_sizes ballI length_writeTransactionInput) (auto simp: wf_tx_def wf_input_def wf_outpoint_def list_all_iff)
  have o: "foldl (\<lambda>size out. size + TransactionOutputEstimatedSerializedSize out) s (tx_Outputs tx) =
      s + word_of_nat (length (concat (map writeTxOut (tx_Outputs tx)))) - word_of_nat (length (tx_Outputs tx)) * 0" for s
    by (intro foldl_sizes ballI) (simp add: length_writeTxOut)
  have "length (tx_SubnetworkID tx) = DomainSubnetworkIDSize" using assms(1) by (simp add: wf_tx_def)
  then show ?thesis
    using assms(2) by (simp add: transactionEstimatedSerializedSize_def i o serializeTransaction_def writeVarBytes_def len64_def
        DomainHashSize_def DomainSubnetworkIDSize_def algebra_simps)
qed

end
