(* ===== verification/ScriptNum.thy ===== *)
theory ScriptNum
  imports ScriptError
begin

text \<open>
  Numbers of the scripting engine (\<^verbatim>\<open>txscript/scriptnum.go\<close>): an \<^verbatim>\<open>int64\<close> that is stored on the
  stacks as little-endian sign-magnitude bytes of minimal length.
\<close>

section \<open>Definitions\<close>

type_synonym scriptNum = int

definition maxInt32 :: int where "maxInt32 = 2 ^ 31 - 1"
definition minInt32 :: int where "minInt32 = - (2 ^ 31)"

definition defaultScriptNumLen :: nat where "defaultScriptNumLen = 4"

definition checkMinimalDataEncoding :: "bytes \<Rightarrow> unit outcome" where
  "checkMinimalDataEncoding v =
     (if v = [] then Inr ()
      else if v ! (length v - 1) AND 0x7f = 0
      then (if length v = 1 \<or> v ! (length v - 2) AND 0x80 = 0
            then scriptError ErrMinimalData else Inr ())
      else Inr ())"

text \<open>The loop of \<^verbatim>\<open>scriptNum.Bytes\<close> that encodes a positive number to little endian.\<close>

function encodeLE :: "int \<Rightarrow> bytes" where
  "encodeLE n = (if 0 < n then word_of_int (n AND 0xff) # encodeLE (drop_bit 8 n) else [])"
  by pat_completeness auto
termination
  by (relation "measure nat") (auto simp: drop_bit_eq_div nat_less_iff)

declare encodeLE.simps [simp del]

text \<open>
  \<open>scriptNum_Bytes\<close> is \<^verbatim>\<open>scriptNum.Bytes\<close>. Negating the least \<^verbatim>\<open>int64\<close> wraps back to itself, the
  loop then produces no byte and reading the last one panics.
\<close>

definition scriptNum_Bytes :: "scriptNum \<Rightarrow> bytes outcome" where
  "scriptNum_Bytes n =
     (if n = 0 then Inr []
      else let isNegative = n < 0;
               m = (if isNegative then int64 (- n) else n);
               result = encodeLE m
           in if result = [] then Inl GoPanic
              else if last result AND 0x80 \<noteq> 0
              then Inr (result @ [if isNegative then 0x80 else 0x00])
              else if isNegative then Inr (butlast result @ [last result OR 0x80])
              else Inr result)"

definition scriptNum_Int32 :: "scriptNum \<Rightarrow> int" where
  "scriptNum_Int32 n =
     (if n > maxInt32 then maxInt32 else if n < minInt32 then minInt32 else int32 n)"

text \<open>The decoding loop of \<^verbatim>\<open>makeScriptNum\<close>: \<^verbatim>\<open>result |= int64(val) << uint8(8*i)\<close>.\<close>

fun decodeLE :: "nat \<Rightarrow> int \<Rightarrow> bytes \<Rightarrow> int" where
  "decodeLE i result [] = result"
| "decodeLE i result (val # vs) =
     decodeLE (Suc i) (result OR int64 (push_bit (8 * i) (uint val))) vs"

definition makeScriptNum :: "bytes \<Rightarrow> nat \<Rightarrow> scriptNum outcome" where
  "makeScriptNum v scriptNumLen =
     (if length v > scriptNumLen then scriptError ErrNumberTooBig
      else if length v > 8 then scriptError ErrNumberTooBig
      else bindR (checkMinimalDataEncoding v) (\<lambda>_.
        if v = [] then Inr 0
        else let result = decodeLE 0 0 v
             in if v ! (length v - 1) AND 0x80 \<noteq> 0
                then Inr (int64 (- (result AND NOT (int64 (push_bit (8 * (length v - 1)) 0x80)))))
                else Inr result))"

section \<open>Bits of bytes\<close>

lemma byte_hi_bit: "(b :: byte) AND 0x80 = 0 \<longleftrightarrow> unat b < 128"
proof -
  have "b AND 0x80 = 0 \<longleftrightarrow> \<not> bit b 7"
  proof -
    have "(b AND 0x80 = 0) = (b AND push_bit 7 1 = 0)" by simp
    also have "\<dots> = (\<not> bit b 7)"
      by (simp add: bit_iff_and_push_bit_not_eq_0)
    finally show ?thesis .
  qed
  also have "bit b 7 \<longleftrightarrow> \<not> unat b < 128"
  proof -
    have "bit b 7 \<longleftrightarrow> bit (unat b) 7" by (simp add: bit_unsigned_iff)
    also have "\<dots> \<longleftrightarrow> odd (unat b div 128)" by (simp add: bit_iff_odd)
    also have "\<dots> \<longleftrightarrow> \<not> unat b < 128"
    proof -
      have "unat b div 128 < 2" using unat_byte_less [of b] by (simp add: less_mult_imp_div_less)
      then have "unat b div 128 = 0 \<or> unat b div 128 = 1" by linarith
      then show ?thesis by (auto simp: div_eq_0_iff)
    qed
    finally show ?thesis .
  qed
  finally show ?thesis by blast
qed

lemma unat_and_7f: "unat ((b :: byte) AND 0x7f) = unat b mod 128"
proof -
  have "b AND 0x7f = b mod 128"
    using take_bit_eq_mask [of 7 b] by (simp add: take_bit_eq_mod mask_eq_exp_minus_1)
  then show ?thesis by (simp add: unat_mod)
qed

lemma unat_or_80: "unat (b :: byte) < 128 \<Longrightarrow> unat (b OR 0x80) = unat b + 128"
proof -
  assume "unat b < 128"
  then have "b AND 0x80 = 0" by (simp add: byte_hi_bit)
  then have "b OR 0x80 = b + 0x80" by (simp add: disjunctive_add_eq_or)
  with \<open>unat b < 128\<close> show ?thesis by (simp add: unat_word_ariths)
qed

section \<open>The encoding loop\<close>

lemma encodeLE_0 [simp]: "n \<le> 0 \<Longrightarrow> encodeLE n = []"
  by (subst encodeLE.simps) simp

lemma encodeLE_pos:
  "0 < n \<Longrightarrow> encodeLE n = word_of_int (n mod 256) # encodeLE (n div 256)"
  using take_bit_eq_mask [of 8 n] encodeLE.simps [of n]
  by (simp add: take_bit_eq_mod mask_eq_exp_minus_1 drop_bit_eq_div)

lemma getLE_encodeLE: "0 \<le> n \<Longrightarrow> int (getLE (encodeLE n)) = n"
proof (induction n rule: encodeLE.induct)
  case (1 n)
  show ?case
  proof (cases "0 < n")
    case True
    have "int (unat (word_of_int (n mod 256) :: byte)) = n mod 256"
      by (simp add: unat_eq_nat_uint uint_word_of_int)
    moreover have "int (getLE (encodeLE (n div 256))) = n div 256"
      using True "1.IH" by (simp add: drop_bit_eq_div)
    ultimately show ?thesis using True by (simp add: encodeLE_pos)
  qed (use 1 in simp)
qed

lemma encodeLE_eq_Nil_iff: "encodeLE n = [] \<longleftrightarrow> n \<le> 0"
  by (metis encodeLE_0 encodeLE_pos list.discI not_le)

lemma encodeLE_getLE: "\<lbrakk> bs \<noteq> []; last bs \<noteq> 0 \<rbrakk> \<Longrightarrow> encodeLE (int (getLE bs)) = bs"
proof (induction bs)
  case (Cons b bs)
  have pos: "0 < getLE (b # bs)"
  proof -
    have "b # bs = butlast (b # bs) @ [last (b # bs)]" by simp
    then have "getLE (b # bs) = getLE (butlast (b # bs))
        + 256 ^ length (butlast (b # bs)) * unat (last (b # bs))"
      by (metis getLE.simps getLE_append add.right_neutral mult_0_right)
    with Cons.prems show ?thesis by (simp add: unat_eq_0 unat_gt_0 del: getLE.simps)
  qed
  have "getLE (b # bs) mod 256 = unat b" and "getLE (b # bs) div 256 = getLE bs" by simp_all
  then have m: "int (getLE (b # bs)) mod 256 = int (unat b)"
    and d: "int (getLE (b # bs)) div 256 = int (getLE bs)"
    by (metis of_nat_mod of_nat_numeral, metis of_nat_div of_nat_numeral)
  have "encodeLE (int (getLE bs)) = bs"
    using Cons by (cases bs) auto
  moreover have "word_of_int (int (unat b)) = b" by simp
  ultimately show ?case
    using pos m d by (metis encodeLE_pos of_nat_0_less_iff)
qed simp

lemma last_encodeLE: "0 < n \<Longrightarrow> last (encodeLE n) \<noteq> 0"
proof (induction n rule: encodeLE.induct)
  case (1 n)
  show ?case
  proof (cases "n div 256 > 0")
    case True
    then show ?thesis
      using 1 by (simp add: encodeLE_pos drop_bit_eq_div encodeLE_eq_Nil_iff)
  next
    case False
    then have "n < 256" by (simp add: pos_imp_zdiv_pos_iff)
    moreover have "(word_of_int n :: byte) \<noteq> 0" if "0 < n" "n < 256"
      using that by (simp add: word_of_int_eq_0_iff zdvd_not_zless)
    ultimately show ?thesis using False "1.prems" by (simp add: encodeLE_pos)
  qed
qed

lemma length_encodeLE: "n < 256 ^ k \<Longrightarrow> length (encodeLE n) \<le> k"
proof (induction k arbitrary: n)
  case (Suc k)
  then have "n div 256 < 256 ^ k"
    using zdiv_mono1 [of n "256 * 256 ^ k - 1" 256] by simp
  then show ?case by (cases "0 < n") (simp_all add: encodeLE_pos Suc.IH)
qed simp

section \<open>The decoding loop\<close>

lemma int64_signed_take_bit: "int64 x = signed_take_bit 63 x"
  by (simp add: int64_def signed_take_bit_eq_take_bit_shift take_bit_eq_mod)

lemma or_push_bit_eq_add:
  "\<lbrakk> 0 \<le> (x :: int); x < 2 ^ k \<rbrakk> \<Longrightarrow> x OR push_bit k y = x + push_bit k y"
proof -
  assume "0 \<le> x" "x < 2 ^ k"
  then have "x = take_bit k x" by (simp add: take_bit_eq_mod)
  then have "\<not> bit x n" if "n \<ge> k" for n
    using that by (metis bit_take_bit_iff not_le)
  then have "x AND push_bit k y = 0"
    by (auto simp: bit_eq_iff bit_simps)
  then show ?thesis by (simp add: disjunctive_add_eq_or)
qed

lemma decodeLE_eq:
  assumes "i + length vs \<le> 8" "R < 256 ^ i"
  shows "decodeLE i (int64 (int R)) vs = int64 (int (R + 256 ^ i * getLE vs))"
  using assms
proof (induction vs arbitrary: i R)
  case (Cons v vs)
  have pow: "(2 :: nat) ^ (8 * i) = 256 ^ i" by (simp add: power_mult)
  have "int64 (int R) OR int64 (push_bit (8 * i) (uint v))
      = int64 (int R OR push_bit (8 * i) (uint v))"
    by (rule bit_eqI) (simp add: int64_signed_take_bit bit_simps)
  also have "int R OR push_bit (8 * i) (uint v) = int R + push_bit (8 * i) (uint v)"
    using Cons.prems(2) pow by (intro or_push_bit_eq_add) (simp_all flip: of_nat_power)
  also have "\<dots> = int (R + 256 ^ i * unat v)"
    by (simp add: push_bit_eq_mult power_mult)
  finally have step: "int64 (int R) OR int64 (push_bit (8 * i) (uint v)) = int64 (int (R + 256 ^ i * unat v))" .
  have "R + 256 ^ i * unat v < 256 ^ i * (unat v + 1)" using Cons.prems(2) by simp
  also have "\<dots> \<le> 256 ^ i * 256"
    using unat_byte_less [of v] by (intro mult_le_mono2) (simp del: unat_byte_less)
  finally have "R + 256 ^ i * unat v < 256 ^ Suc i" by simp
  then show ?case
    using Cons.IH [of "Suc i" "R + 256 ^ i * unat v"] Cons.prems(1) step
    by (simp add: algebra_simps)
qed simp

text \<open>The value a non-empty byte string denotes in sign-magnitude form.\<close>

definition signedLE :: "bytes \<Rightarrow> int" where
  "signedLE v =
     (if unat (last v) < 128 then int (getLE v)
      else - int (getLE (butlast v) + 256 ^ (length v - 1) * (unat (last v) mod 128)))"

lemma getLE_snoc: "getLE (u @ [b]) = getLE u + 256 ^ length u * unat b"
  by (simp add: getLE_append)

lemma clear_sign_bit:
  assumes "K \<le> 63" "0 \<le> M" "M < 2 ^ Suc K"
  shows "int64 M AND NOT (int64 (2 ^ K)) = M mod 2 ^ K"
proof -
  have hi: "\<not> bit M j" if "K < j" for j
  proof -
    have "M = take_bit (Suc K) M" using assms(2,3) by (simp add: take_bit_eq_mod)
    then show ?thesis using that by (metis bit_take_bit_iff not_less_eq)
  qed
  have "bit (int64 M AND NOT (int64 (2 ^ K))) j = bit (take_bit K M) j" for j
  proof (cases "j < K")
    case True
    then show ?thesis using assms(1) by (simp add: int64_signed_take_bit bit_simps)
  next
    case False
    then have "K \<le> min 63 j" using assms(1) by simp
    then have "min 63 j = K \<or> \<not> bit M (min 63 j)" using hi by (metis le_neq_implies_less)
    then show ?thesis using False by (auto simp: int64_signed_take_bit bit_simps)
  qed
  then have "int64 M AND NOT (int64 (2 ^ K)) = take_bit K M" by (rule bit_eqI)
  then show ?thesis by (simp add: take_bit_eq_mod)
qed

lemma getLE_snoc_mod:
  assumes "128 \<le> unat b"
  shows "getLE (u @ [b]) mod 2 ^ (8 * length u + 7) = getLE u + 256 ^ length u * (unat b mod 128)"
proof -
  let ?k = "length u" and ?c = "unat b - 128"
  have c: "unat b mod 128 = ?c" "?c < 128" "unat b = ?c + 128"
    using assms unat_byte_less [of b] by (simp_all add: mod_if del: unat_byte_less)
  have p: "(2 :: nat) ^ (8 * ?k + 7) = 256 ^ ?k * 128" by (simp add: power_add power_mult)
  have "getLE u + 256 ^ ?k * ?c < 256 ^ ?k * (?c + 1)" using getLE_bound [of u] by simp
  also have "\<dots> \<le> 256 ^ ?k * 128" using c(2) by (intro mult_le_mono2) simp
  finally have small: "getLE u + 256 ^ ?k * ?c < 256 ^ ?k * 128" .
  have "getLE (u @ [b]) = (getLE u + 256 ^ ?k * ?c) + 256 ^ ?k * 128"
    unfolding getLE_snoc by (subst c(3)) (simp add: algebra_simps)
  then show ?thesis using small unfolding p c(1) by simp
qed

lemma makeScriptNum_nonempty:
  assumes "v \<noteq> []" "length v \<le> 8"
  shows "(let result = decodeLE 0 0 v
          in if v ! (length v - 1) AND 0x80 \<noteq> 0
             then Inr (int64 (- (result AND NOT (int64 (push_bit (8 * (length v - 1)) 0x80)))))
             else (Inr result :: scriptNum outcome)) = Inr (signedLE v)"
proof -
  from assms(1) obtain u b where v: "v = u @ [b]" using butlast_last_snoc by blast
  let ?K = "8 * length u + 7" and ?M = "getLE v"
  have K: "?K \<le> 63" using assms(2) v by simp
  have dec: "decodeLE 0 0 v = int64 (int ?M)"
    using decodeLE_eq [of 0 v 0] assms(2) by simp
  have p: "(2 :: nat) ^ ?K = 256 ^ length u * 128" by (simp add: power_add power_mult)
  have M: "?M < 2 ^ Suc ?K" using getLE_bound [of v] v by (simp add: power_add power_mult)
  show ?thesis
  proof (cases "unat b < 128")
    case True
    have "?M < 256 ^ length u * (unat b + 1)"
      using getLE_bound [of u] by (simp add: v getLE_snoc)
    also have "\<dots> \<le> 256 ^ length u * 128" using True by (intro mult_le_mono2) simp
    also have "\<dots> = 2 ^ ?K" by (rule p [symmetric])
    also have "\<dots> \<le> 2 ^ 63" using K by (intro power_increasing) auto
    finally have "int64 (int ?M) = int ?M" by simp
    then show ?thesis using True dec by (simp add: v byte_hi_bit signedLE_def)
  next
    case False
    have "push_bit (8 * length u) 0x80 = (2 :: int) ^ ?K"
      by (simp add: push_bit_eq_mult power_add)
    moreover have "int ?M mod 2 ^ ?K = int (getLE u + 256 ^ length u * (unat b mod 128))"
      using getLE_snoc_mod [of b u] False
      by (metis v not_less of_nat_mod of_nat_numeral of_nat_power)
    moreover have "int64 (- (int ?M mod 2 ^ ?K)) = - (int ?M mod 2 ^ ?K)"
    proof -
      have "int ?M mod 2 ^ ?K < 2 ^ ?K" "0 \<le> int ?M mod 2 ^ ?K" by simp_all
      moreover have "(2 :: int) ^ ?K \<le> 2 ^ 63" using K by (intro power_increasing) auto
      ultimately show ?thesis by (intro int64_id) linarith+
    qed
    moreover have "int64 (int ?M) AND NOT (int64 (2 ^ ?K)) = int ?M mod 2 ^ ?K"
      using K M by (intro clear_sign_bit) (simp_all flip: of_nat_power)
    ultimately show ?thesis using False dec by (simp add: v byte_hi_bit signedLE_def)
  qed
qed

lemma makeScriptNum_eq:
  "makeScriptNum v L =
     (if length v > L \<or> length v > 8 then scriptError ErrNumberTooBig
      else if checkMinimalDataEncoding v = Inr ()
      then Inr (if v = [] then 0 else signedLE v) else scriptError ErrMinimalData)"
proof (cases "length v > L \<or> length v > 8")
  case False
  have "checkMinimalDataEncoding v = Inr () \<or> checkMinimalDataEncoding v = scriptError ErrMinimalData"
    by (simp add: checkMinimalDataEncoding_def)
  moreover have "makeScriptNum v L = bindR (checkMinimalDataEncoding v) (\<lambda>_. Inr (signedLE v))"
    if "v \<noteq> []"
  proof -
    have "length v \<le> 8" using False by simp
    with that show ?thesis
      using False unfolding makeScriptNum_def makeScriptNum_nonempty [OF that \<open>length v \<le> 8\<close>]
      by simp
  qed
  moreover have "makeScriptNum [] L = Inr 0"
    by (simp add: makeScriptNum_def checkMinimalDataEncoding_def)
  ultimately show ?thesis using False by (cases "v = []") (auto simp: checkMinimalDataEncoding_def)
next
  case True
  then have "makeScriptNum v L = scriptError ErrNumberTooBig"
    unfolding makeScriptNum_def by (cases "length v > L") simp_all
  with True show ?thesis by simp
qed

lemma checkMinimal_snoc:
  "checkMinimalDataEncoding (u @ [b]) = Inr () \<longleftrightarrow>
     unat b mod 128 \<noteq> 0 \<or> (u \<noteq> [] \<and> 128 \<le> unat (last u))"
proof -
  have "unat b mod 128 = 0 \<longleftrightarrow> b AND 0x7f = 0" by (simp add: unat_and_7f [symmetric] unat_eq_0)
  moreover have "(u @ [b]) ! (length u - Suc 0) = last u" if "u \<noteq> []"
    using that by (simp add: nth_append last_conv_nth)
  ultimately show ?thesis
    by (auto simp: checkMinimalDataEncoding_def byte_hi_bit not_less split: if_splits)
qed

lemma signedLE_snoc:
  "signedLE (u @ [b]) =
     (if unat b < 128 then 1 else -1) * int (getLE u + 256 ^ length u * (unat b mod 128))"
  by (simp add: signedLE_def getLE_snoc)

section \<open>Round trips\<close>

text \<open>What \<open>scriptNum_Bytes\<close> returns for a number that is neither 0 nor the least \<^verbatim>\<open>int64\<close>.\<close>

lemma scriptNum_Bytes_eq:
  assumes "n \<noteq> 0" "- (2 ^ 63) < n" "n < 2 ^ 63"
  shows "scriptNum_Bytes n =
     (let r = encodeLE \<bar>n\<bar>
      in if 128 \<le> unat (last r) then Inr (r @ [if n < 0 then 0x80 else 0])
         else if n < 0 then Inr (butlast r @ [last r OR 0x80]) else Inr r)"
proof -
  have m: "(if n < 0 then int64 (- n) else n) = \<bar>n\<bar>" using assms by simp
  have "encodeLE \<bar>n\<bar> \<noteq> []" using assms(1) by (simp add: encodeLE_eq_Nil_iff)
  then show ?thesis
    using assms(1) by (simp only: scriptNum_Bytes_def Let_def m byte_hi_bit not_less) simp
qed

lemma scriptNum_Bytes_signedLE:
  assumes "n \<noteq> 0" "- (2 ^ 63) < n" "n < 2 ^ 63"
  shows "\<exists>v. scriptNum_Bytes n = Inr v \<and> v \<noteq> [] \<and> length v \<le> 8 \<and>
    checkMinimalDataEncoding v = Inr () \<and> signedLE v = n"
proof -
  define r where "r = encodeLE \<bar>n\<bar>"
  have r: "r \<noteq> []" "last r \<noteq> 0" "int (getLE r) = \<bar>n\<bar>"
    using assms(1) by (simp_all add: r_def encodeLE_eq_Nil_iff last_encodeLE getLE_encodeLE)
  then obtain u b where ub: "r = u @ [b]" using butlast_last_snoc by blast
  have len: "length r \<le> 8" using assms length_encodeLE [of "\<bar>n\<bar>" 8] by (simp add: r_def abs_if)
  have abs: "\<bar>n\<bar> = int (getLE u + 256 ^ length u * unat b)" using r(3) by (simp add: ub getLE_snoc)
  have b0: "unat b \<noteq> 0" using r(2) by (simp add: ub unat_eq_0)
  show ?thesis
  proof (cases "128 \<le> unat b")
    case True
    have "length u \<le> 6"
    proof (rule ccontr)
      assume "\<not> length u \<le> 6"
      then have "length u = 7" using len ub by simp
      then have "2 ^ 63 \<le> getLE u + 256 ^ length u * unat b" using True by simp
      then have "int (2 ^ 63) \<le> \<bar>n\<bar>" unfolding abs by (simp only: of_nat_le_iff)
      with assms show False by simp
    qed
    then have "length (r @ [s]) \<le> 8" for s by (simp add: ub)
    moreover have "checkMinimalDataEncoding (r @ [if n < 0 then 0x80 else 0]) = Inr ()"
      using True r(1) by (simp only: checkMinimal_snoc) (simp add: ub)
    moreover have "signedLE (r @ [if n < 0 then 0x80 else 0]) = n"
      using r(3) by (simp add: signedLE_snoc)
    moreover have "scriptNum_Bytes n = Inr (r @ [if n < 0 then 0x80 else 0])"
      using True by (simp add: scriptNum_Bytes_eq [OF assms] r_def [symmetric] ub)
    ultimately show ?thesis by blast
  next
    case False
    define c where "c = (if n < 0 then b OR 0x80 else b)"
    have c: "unat c mod 128 = unat b" "unat c < 128 \<longleftrightarrow> \<not> n < 0"
      using False by (simp_all add: c_def unat_or_80)
    have "scriptNum_Bytes n = Inr (u @ [c])"
      using False by (simp add: scriptNum_Bytes_eq [OF assms] r_def [symmetric] ub c_def)
    moreover have "length (u @ [c]) \<le> 8" using len by (simp add: ub)
    moreover have "checkMinimalDataEncoding (u @ [c]) = Inr ()"
      using b0 c(1) by (simp add: checkMinimal_snoc)
    moreover have "signedLE (u @ [c]) = n"
      unfolding signedLE_snoc c abs [symmetric] by (simp add: abs_if)
    ultimately show ?thesis by blast
  qed
qed

lemma makeScriptNum_Bytes:
  assumes "- (2 ^ 63) < n" "n < 2 ^ 63"
  shows "\<exists>v. scriptNum_Bytes n = Inr v \<and> length v \<le> 8 \<and>
    (\<forall>L \<ge> length v. makeScriptNum v L = Inr n)"
proof (cases "n = 0")
  case True
  then show ?thesis
    by (simp add: scriptNum_Bytes_def makeScriptNum_eq checkMinimalDataEncoding_def)
next
  case False
  then obtain v where v: "scriptNum_Bytes n = Inr v" "v \<noteq> []" "length v \<le> 8"
    "checkMinimalDataEncoding v = Inr ()" "signedLE v = n"
    using scriptNum_Bytes_signedLE [OF False assms] by blast
  then have "\<forall>L \<ge> length v. makeScriptNum v L = Inr n"
    unfolding makeScriptNum_eq by simp
  with v show ?thesis by blast
qed

lemma signedLE_bound:
  assumes "v \<noteq> []"
  shows "\<bar>signedLE v\<bar> < 2 ^ (8 * length v - 1)"
proof -
  from assms obtain u b where v: "v = u @ [b]" using butlast_last_snoc by blast
  have "getLE u + 256 ^ length u * (unat b mod 128) < 256 ^ length u * (unat b mod 128 + 1)"
    using getLE_bound [of u] by simp
  also have "\<dots> \<le> 256 ^ length u * 128" by (intro mult_le_mono2) (simp add: Suc_le_eq)
  also have "\<dots> = 2 ^ (8 * length v - 1)" by (simp add: v power_add power_mult)
  finally have "int (getLE u + 256 ^ length u * (unat b mod 128)) < 2 ^ (8 * length v - 1)"
    by (simp only: of_nat_less_iff [symmetric, where 'a = int] of_nat_power of_nat_numeral)
  moreover have "\<bar>signedLE v\<bar> = int (getLE u + 256 ^ length u * (unat b mod 128))"
    unfolding v signedLE_snoc abs_mult by simp
  ultimately show ?thesis by simp
qed

text \<open>Conversely, every byte string that decodes is the encoding of its value.\<close>

lemma encodeLE_snoc_mag:
  assumes "unat b mod 128 \<noteq> 0 \<or> (u \<noteq> [] \<and> 128 \<le> unat (last u))"
  defines "m \<equiv> getLE u + 256 ^ length u * (unat b mod 128)"
  shows "encodeLE (int m) = (if unat b mod 128 = 0 then u else u @ [b AND 0x7f])"
proof (cases "unat b mod 128 = 0")
  case True
  with assms have "u \<noteq> []" "last u \<noteq> 0" by auto
  with True show ?thesis by (simp add: m_def encodeLE_getLE)
next
  case False
  have "m = getLE (u @ [b AND 0x7f])" by (simp add: m_def getLE_snoc unat_and_7f)
  moreover have "b AND 0x7f \<noteq> 0" using False by (metis unat_and_7f unat_0)
  ultimately show ?thesis using False encodeLE_getLE [of "u @ [b AND 0x7f]"] by simp
qed

lemma byte_and_or_sign: "128 \<le> unat (b :: byte) \<Longrightarrow> (b AND 0x7f) OR 0x80 = b"
proof -
  assume "128 \<le> unat b"
  then have "unat b mod 128 = unat b - 128"
    using unat_byte_less [of b] by (simp add: mod_if del: unat_byte_less)
  then show ?thesis
    using \<open>128 \<le> unat b\<close> by (simp add: word_unat_eq_iff unat_or_80 unat_and_7f)
qed

lemma signedLE_encode:
  assumes "checkMinimalDataEncoding (u @ [b]) = Inr ()" "length (u @ [b]) \<le> 8"
  shows "scriptNum_Bytes (signedLE (u @ [b])) = Inr (u @ [b])"
proof -
  define m where "m = getLE u + 256 ^ length u * (unat b mod 128)"
  let ?n = "signedLE (u @ [b])"
  have min: "unat b mod 128 \<noteq> 0 \<or> (u \<noteq> [] \<and> 128 \<le> unat (last u))"
    using assms(1) by (simp add: checkMinimal_snoc)
  have enc: "encodeLE (int m) = (if unat b mod 128 = 0 then u else u @ [b AND 0x7f])"
    using encodeLE_snoc_mag [OF min] by (simp add: m_def)
  have n: "?n = (if unat b < 128 then 1 else -1) * int m" by (simp add: signedLE_snoc m_def)
  have "encodeLE (int m) \<noteq> []" using enc min by auto
  then have m0: "0 < m" by (simp add: encodeLE_eq_Nil_iff)
  have n0: "?n \<noteq> 0" and neg: "?n < 0 \<longleftrightarrow> 128 \<le> unat b" and abs: "\<bar>?n\<bar> = int m"
    using m0 by (simp_all add: n)
  have "\<bar>?n\<bar> < 2 ^ (8 * length (u @ [b]) - 1)" by (rule signedLE_bound) simp
  also have "\<dots> \<le> 2 ^ 63" using assms(2) by (intro power_increasing) auto
  finally have rng: "- (2 ^ 63) < ?n" "?n < 2 ^ 63" by linarith+
  show ?thesis
  proof (cases "unat b mod 128 = 0")
    case True
    have b: "(if 128 \<le> unat b then 0x80 else 0) = b"
    proof -
      have "unat b = 0 \<or> unat b = 128" using True unat_byte_less [of b] by presburger
      then show ?thesis by (auto simp: word_unat_eq_iff)
    qed
    have u: "128 \<le> unat (last u)" using True min by simp
    have "scriptNum_Bytes ?n = Inr (u @ [if 128 \<le> unat b then 0x80 else 0])"
      using True u by (simp add: scriptNum_Bytes_eq [OF n0 rng] abs enc neg)
    then show ?thesis by (simp only: b)
  next
    case False
    have "scriptNum_Bytes ?n =
        (if 128 \<le> unat b then Inr (u @ [(b AND 0x7f) OR 0x80]) else Inr (u @ [b AND 0x7f]))"
    proof -
      have "\<not> 128 \<le> unat b mod 128" by (simp add: not_le)
      then show ?thesis
        using False neg by (simp add: scriptNum_Bytes_eq [OF n0 rng] abs enc unat_and_7f Let_def)
    qed
    moreover have "unat b < 128 \<Longrightarrow> b AND 0x7f = b" by (simp add: word_unat_eq_iff unat_and_7f)
    ultimately show ?thesis using byte_and_or_sign [of b] by (simp split: if_splits)
  qed
qed

lemma makeScriptNum_canonical:
  assumes "makeScriptNum v L = Inr n"
  shows "scriptNum_Bytes n = Inr v"
proof (cases "v = []")
  case True
  with assms show ?thesis by (simp add: makeScriptNum_eq scriptNum_Bytes_def split: if_splits)
next
  case False
  then obtain u b where v: "v = u @ [b]" using butlast_last_snoc by blast
  with assms have "checkMinimalDataEncoding (u @ [b]) = Inr ()" "length (u @ [b]) \<le> 8" "n = signedLE (u @ [b])"
    unfolding makeScriptNum_eq by (simp_all split: if_splits)
  then show ?thesis using signedLE_encode v by blast
qed

lemma makeScriptNum_bound:
  assumes "makeScriptNum v L = Inr n" "0 < L"
  shows "\<bar>n\<bar> < 2 ^ (8 * L - 1)"
proof (cases "v = []")
  case True
  with assms show ?thesis by (simp add: makeScriptNum_eq split: if_splits)
next
  case False
  with assms have "length v \<le> L" "n = signedLE v"
    unfolding makeScriptNum_eq by (simp_all split: if_splits)
  then have "\<bar>n\<bar> < 2 ^ (8 * length v - 1)" using signedLE_bound [OF False] by simp
  also have "\<dots> \<le> 2 ^ (8 * L - 1)" using \<open>length v \<le> L\<close> by (intro power_increasing) auto
  finally show ?thesis .
qed

lemma makeScriptNum_no_panic [simp]: "makeScriptNum v L \<noteq> Inl GoPanic"
  by (simp add: makeScriptNum_eq)

lemma length_makeScriptNum: "makeScriptNum v L = Inr n \<Longrightarrow> length v \<le> L"
  by (simp add: makeScriptNum_eq split: if_splits)

lemma scriptNum_Bytes_total: "\<lbrakk> - (2 ^ 63) < n; n < 2 ^ 63 \<rbrakk> \<Longrightarrow> \<exists>v. scriptNum_Bytes n = Inr v"
  using makeScriptNum_Bytes by blast

lemma scriptNum_Bytes_min: "scriptNum_Bytes (- (2 ^ 63)) = Inl GoPanic"
  by (simp add: scriptNum_Bytes_def int64_def Let_def)

lemma scriptNum_Int32_id: "\<lbrakk> minInt32 \<le> n; n \<le> maxInt32 \<rbrakk> \<Longrightarrow> scriptNum_Int32 n = n"
  by (simp add: scriptNum_Int32_def minInt32_def maxInt32_def)

section \<open>Properties\<close>

text \<open>
  C31: Every script number but the least \<^verbatim>\<open>int64\<close> is encoded by \<^verbatim>\<open>scriptNum.Bytes\<close> without a panic into at
  most 8 bytes, and \<^verbatim>\<open>makeScriptNum\<close> reads the encoding back to the same number under every
  length limit that admits it.
\<close>

theorem scriptNum_round_trip:
  assumes "- (2 ^ 63) < n" "n < 2 ^ 63"
  shows "\<exists>v. scriptNum_Bytes n = Inr v \<and> length v \<le> 8 \<and> (\<forall>L \<ge> length v. makeScriptNum v L = Inr n)"
  using makeScriptNum_Bytes [OF assms] .

theorem scriptNum_round_trip_witness:
  "scriptNum_Bytes (-255) = Inr [0xff, 0x80] \<and> makeScriptNum [0xff, 0x80] 4 = Inr (-255)"
proof -
  have v: "scriptNum_Bytes (-255) = Inr [0xff, 0x80]" by code_simp
  from scriptNum_round_trip [of "-255"] obtain v where
    "scriptNum_Bytes (-255) = Inr v" "\<forall>L \<ge> length v. makeScriptNum v L = Inr (-255)" by auto
  with v show ?thesis by simp
qed

text \<open>
  C32: A byte string that \<^verbatim>\<open>makeScriptNum\<close> accepts is the canonical encoding of its value: \<^verbatim>\<open>scriptNum.Bytes\<close>
  gives the very same bytes back, so no two accepted strings have the same value; and with a
  limit of \<open>L\<close> bytes the value has at most \<open>8 L - 1\<close> bits.
\<close>

theorem makeScriptNum_unique:
  assumes "makeScriptNum v L = Inr n"
  shows "scriptNum_Bytes n = Inr v \<and> length v \<le> L \<and> (0 < L \<longrightarrow> \<bar>n\<bar> < 2 ^ (8 * L - 1))"
  using makeScriptNum_canonical [OF assms] length_makeScriptNum [OF assms] makeScriptNum_bound [OF assms]
  by blast

theorem makeScriptNum_unique_witness:
  "makeScriptNum [0xff, 0xff, 0xff, 0xff] 4 = Inr (-2147483647) \<and>
   scriptNum_Bytes (-2147483647) = Inr [0xff, 0xff, 0xff, 0xff]"
proof -
  have "makeScriptNum [0xff, 0xff, 0xff, 0xff] 4 = Inr (-2147483647)" by code_simp
  then show ?thesis using makeScriptNum_unique [of "[0xff, 0xff, 0xff, 0xff]" 4] by blast
qed

end
