(* ===== verification/ScriptStack.thy ===== *)
theory ScriptStack
  imports ScriptNum
begin

text \<open>
  The stack of byte arrays of the scripting engine (\<^verbatim>\<open>txscript/stack.go\<close>). As in the code, the
  last element of the list is the top, and an operation takes and returns \<^verbatim>\<open>int32\<close> indices
  counted from the top.
\<close>

section \<open>Definitions\<close>

type_synonym stack = "bytes list"

fun asBool_from :: "nat \<Rightarrow> nat \<Rightarrow> bytes \<Rightarrow> bool" where
  "asBool_from len i [] = False"
| "asBool_from len i (b # bs) =
     (if b \<noteq> 0 then \<not> (i = len - 1 \<and> b = 0x80) else asBool_from len (Suc i) bs)"

definition asBool :: "bytes \<Rightarrow> bool" where
  "asBool t = asBool_from (length t) 0 t"

definition fromBool :: "bool \<Rightarrow> bytes" where
  "fromBool v = (if v then [1] else [])"

definition Depth :: "stack \<Rightarrow> int" where
  "Depth s = int32 (int (length s))"

definition PushByteArray :: "stack \<Rightarrow> bytes \<Rightarrow> stack" where
  "PushByteArray s so = s @ [so]"

definition PushInt :: "stack \<Rightarrow> scriptNum \<Rightarrow> stack outcome" where
  "PushInt s val = bindR (scriptNum_Bytes val) (\<lambda>b. Inr (PushByteArray s b))"

definition PushBool :: "stack \<Rightarrow> bool \<Rightarrow> stack" where
  "PushBool s val = PushByteArray s (fromBool val)"

definition nipN :: "stack \<Rightarrow> int \<Rightarrow> (bytes \<times> stack) outcome" where
  "nipN s idx =
     (let sz = int32 (int (length s))
      in if idx < 0 \<or> idx > int32 (sz - 1) then scriptError ErrInvalidStackOperation
         else let so = s ! nat (sz - idx - 1)
              in if idx = 0 then Inr (so, take (nat (sz - 1)) s)
                 else if idx = sz - 1 then Inr (so, drop 1 s)
                 else Inr (so, take (nat (sz - idx - 1)) s @ slice (nat (sz - idx)) (nat sz) s))"

definition NipN :: "stack \<Rightarrow> int \<Rightarrow> stack outcome" where
  "NipN s idx = bindR (nipN s idx) (\<lambda>(_, s'). Inr s')"

definition PopByteArray :: "stack \<Rightarrow> (bytes \<times> stack) outcome" where
  "PopByteArray s = nipN s 0"

definition PopInt :: "stack \<Rightarrow> (scriptNum \<times> stack) outcome" where
  "PopInt s = bindR (PopByteArray s) (\<lambda>(so, s').
     bindR (makeScriptNum so defaultScriptNumLen) (\<lambda>n. Inr (n, s')))"

definition PopBool :: "stack \<Rightarrow> (bool \<times> stack) outcome" where
  "PopBool s = bindR (PopByteArray s) (\<lambda>(so, s'). Inr (asBool so, s'))"

definition PeekByteArray :: "stack \<Rightarrow> int \<Rightarrow> bytes outcome" where
  "PeekByteArray s idx =
     (let sz = int32 (int (length s))
      in if idx < 0 \<or> idx \<ge> sz then scriptError ErrInvalidStackOperation
         else Inr (s ! nat (sz - idx - 1)))"

definition PeekInt :: "stack \<Rightarrow> int \<Rightarrow> scriptNum outcome" where
  "PeekInt s idx = bindR (PeekByteArray s idx) (\<lambda>so. makeScriptNum so defaultScriptNumLen)"

definition PeekBool :: "stack \<Rightarrow> int \<Rightarrow> bool outcome" where
  "PeekBool s idx = bindR (PeekByteArray s idx) (\<lambda>so. Inr (asBool so))"

definition Tuck :: "stack \<Rightarrow> stack outcome" where
  "Tuck s = bindR (PopByteArray s) (\<lambda>(so2, s).
     bindR (PopByteArray s) (\<lambda>(so1, s).
       Inr (PushByteArray (PushByteArray (PushByteArray s so2) so1) so2)))"

text \<open>The loops of the multi-element operations, by the number of iterations left.\<close>

primrec drop_loop :: "nat \<Rightarrow> stack \<Rightarrow> stack outcome" where
  "drop_loop 0 s = Inr s"
| "drop_loop (Suc i) s = bindR (PopByteArray s) (\<lambda>(_, s). drop_loop i s)"

definition DropN :: "stack \<Rightarrow> int \<Rightarrow> stack outcome" where
  "DropN s n = (if n < 1 then scriptError ErrInvalidStackOperation else drop_loop (nat n) s)"

primrec peek_loop :: "nat \<Rightarrow> int \<Rightarrow> stack \<Rightarrow> stack outcome" where
  "peek_loop 0 entry s = Inr s"
| "peek_loop (Suc i) entry s =
     bindR (PeekByteArray s entry) (\<lambda>so. peek_loop i entry (PushByteArray s so))"

primrec nip_loop :: "nat \<Rightarrow> int \<Rightarrow> stack \<Rightarrow> stack outcome" where
  "nip_loop 0 entry s = Inr s"
| "nip_loop (Suc i) entry s =
     bindR (nipN s entry) (\<lambda>(so, s). nip_loop i entry (PushByteArray s so))"

definition DupN :: "stack \<Rightarrow> int \<Rightarrow> stack outcome" where
  "DupN s n = (if n < 1 then scriptError ErrInvalidStackOperation
     else peek_loop (nat n) (int32 (n - 1)) s)"

definition RotN :: "stack \<Rightarrow> int \<Rightarrow> stack outcome" where
  "RotN s n = (if n < 1 then scriptError ErrInvalidStackOperation
     else nip_loop (nat n) (int32 (3 * n - 1)) s)"

definition SwapN :: "stack \<Rightarrow> int \<Rightarrow> stack outcome" where
  "SwapN s n = (if n < 1 then scriptError ErrInvalidStackOperation
     else nip_loop (nat n) (int32 (2 * n - 1)) s)"

definition OverN :: "stack \<Rightarrow> int \<Rightarrow> stack outcome" where
  "OverN s n = (if n < 1 then scriptError ErrInvalidStackOperation
     else peek_loop (nat n) (int32 (2 * n - 1)) s)"

definition PickN :: "stack \<Rightarrow> int \<Rightarrow> stack outcome" where
  "PickN s n = bindR (PeekByteArray s n) (\<lambda>so. Inr (PushByteArray s so))"

definition RollN :: "stack \<Rightarrow> int \<Rightarrow> stack outcome" where
  "RollN s n = bindR (nipN s n) (\<lambda>(so, s). Inr (PushByteArray s so))"

section \<open>Single-element access\<close>

text \<open>A stack whose length an \<^verbatim>\<open>int32\<close> can hold; the engine keeps far below it.\<close>

definition small_stack :: "stack \<Rightarrow> bool" where
  "small_stack s \<longleftrightarrow> length s < 2 ^ 31"

lemma nipN_mid:
  assumes "small_stack (xs @ x # ys)"
  shows "nipN (xs @ x # ys) (int (length ys)) = Inr (x, xs @ ys)"
proof -
  let ?s = "xs @ x # ys"
  have sz: "int32 (int (length ?s)) = int (length ?s)" 
    using assms by (simp add: small_stack_def)
  have i: "nat (int (length ?s) - int (length ys) - 1) = length xs" by simp
  have j: "nat (int (length ?s) - int (length ys)) = Suc (length xs)" by simp
  show ?thesis
    using assms unfolding nipN_def Let_def sz i j
    by (cases "ys = []"; cases "xs = []") (simp_all add: slice_def small_stack_def)
qed

lemma nipN_range:
  assumes "small_stack s" "idx < 0 \<or> int (length s) \<le> idx"
  shows "nipN s idx = scriptError ErrInvalidStackOperation"
  using assms by (auto simp: nipN_def small_stack_def)

lemma PeekByteArray_mid:
  assumes "small_stack (xs @ x # ys)"
  shows "PeekByteArray (xs @ x # ys) (int (length ys)) = Inr x"
proof -
  have "nat (int (length (xs @ x # ys)) - int (length ys) - 1) = length xs" by simp
  with assms show ?thesis by (simp add: PeekByteArray_def small_stack_def)
qed

lemma PeekByteArray_range:
  assumes "small_stack s" "idx < 0 \<or> int (length s) \<le> idx"
  shows "PeekByteArray s idx = scriptError ErrInvalidStackOperation"
  using assms by (auto simp: PeekByteArray_def small_stack_def)

lemma PopByteArray_snoc [simp]: "small_stack (s @ [x]) \<Longrightarrow> PopByteArray (s @ [x]) = Inr (x, s)"
  using nipN_mid [of s x "[]"] by (simp add: PopByteArray_def)

lemma PopByteArray_Nil [simp]: "PopByteArray [] = scriptError ErrInvalidStackOperation"
  by (simp add: PopByteArray_def nipN_range small_stack_def)

lemma small_stack_append1: "small_stack (s @ [x]) \<Longrightarrow> small_stack s"
  by (simp add: small_stack_def)

lemma PopByteArray_cases:
  assumes "small_stack s"
  obtains (empty) "s = []" "PopByteArray s = scriptError ErrInvalidStackOperation"
    | (item) x s' where "s = s' @ [x]" "PopByteArray s = Inr (x, s')" "small_stack s'"
  using assms by (cases s rule: rev_cases) (auto intro: small_stack_append1)

section \<open>Multi-element operations\<close>

lemma drop_loop_append:
  "small_stack (s @ xs) \<Longrightarrow> drop_loop (length xs) (s @ xs) = Inr s"
proof (induction xs rule: rev_induct)
  case (snoc x xs)
  have "small_stack (s @ xs)" using snoc.prems by (simp add: small_stack_def)
  then show ?case using snoc PopByteArray_snoc [of "s @ xs" x] by simp
qed simp

lemma peek_loop_append:
  assumes "small_stack (r @ a @ b @ a)" "length a + length b > 0"
  shows "peek_loop (length a) (int (length a + length b) - 1) (r @ a @ b) = Inr (r @ a @ b @ a)"
proof -
  have "peek_loop (length y) (int (length a + length b) - 1) (r @ x @ y @ b @ x) = Inr (r @ x @ y @ b @ x @ y)"
    if "a = x @ y" for x y
    using that
  proof (induction y arbitrary: x)
    case (Cons c y)
    have len: "int (length a + length b) - 1 = int (length (y @ b @ x))" using Cons.prems by simp
    have "small_stack ((r @ x) @ c # (y @ b @ x))" using assms(1) Cons.prems by (simp add: small_stack_def)
    from PeekByteArray_mid [OF this]
    have "PeekByteArray (r @ x @ (c # y) @ b @ x) (int (length a + length b) - 1) = Inr c"
      unfolding len by simp
    then show ?case using Cons.IH [of "x @ [c]"] Cons.prems by (simp add: PushByteArray_def)
  qed simp
  from this [of "[]" a] show ?thesis by simp
qed

lemma nip_loop_append:
  assumes "small_stack (r @ a @ b)"
  shows "nip_loop (length a) (int (length a + length b) - 1) (r @ a @ b) = Inr (r @ b @ a)"
proof -
  have "nip_loop (length y) (int (length a + length b) - 1) (r @ y @ b @ x) = Inr (r @ b @ x @ y)"
    if "a = x @ y" for x y
    using that
  proof (induction y arbitrary: x)
    case (Cons c y)
    have len: "int (length a + length b) - 1 = int (length (y @ b @ x))" using Cons.prems by simp
    have "small_stack (r @ c # (y @ b @ x))" using assms(1) Cons.prems by (simp add: small_stack_def)
    from nipN_mid [OF this]
    have "nipN (r @ (c # y) @ b @ x) (int (length a + length b) - 1) = Inr (c, r @ y @ b @ x)"
      unfolding len by simp
    then show ?case using Cons.IH [of "x @ [c]"] Cons.prems by (simp add: PushByteArray_def)
  qed simp
  from this [of "[]" a] show ?thesis by simp
qed

text \<open>The documented transformations, for \<open>n\<close>-element groups on top of a stack \<open>r\<close>.\<close>

lemma DropN_append: "\<lbrakk> small_stack (r @ a); a \<noteq> [] \<rbrakk> \<Longrightarrow> DropN (r @ a) (int (length a)) = Inr r"
  using drop_loop_append [of r a] by (cases a) (simp_all add: DropN_def nat_add_distrib)

lemma DupN_append:
  "\<lbrakk> small_stack (r @ a @ a); a \<noteq> [] \<rbrakk> \<Longrightarrow> DupN (r @ a) (int (length a)) = Inr (r @ a @ a)"
  using peek_loop_append [of r a "[]"]
  by (simp add: DupN_def small_stack_def)

lemma RotN_append:
  assumes "small_stack (r @ a @ b @ c)" "length a = n" "length b = n" "length c = n" "0 < n"
  shows "RotN (r @ a @ b @ c) (int n) = Inr (r @ b @ c @ a)"
  using assms nip_loop_append [of r a "b @ c"] by (simp add: RotN_def small_stack_def)

lemma SwapN_append:
  assumes "small_stack (r @ a @ b)" "length a = n" "length b = n" "0 < n"
  shows "SwapN (r @ a @ b) (int n) = Inr (r @ b @ a)"
  using assms nip_loop_append [of r a b] by (simp add: SwapN_def small_stack_def)

lemma OverN_append:
  assumes "small_stack (r @ a @ b @ a)" "length a = n" "length b = n" "0 < n"
  shows "OverN (r @ a @ b) (int n) = Inr (r @ a @ b @ a)"
  using assms peek_loop_append [of r a b] by (simp add: OverN_def small_stack_def)

lemma Tuck_append: "small_stack (r @ [x1, x2, x1]) \<Longrightarrow> Tuck (r @ [x1, x2]) = Inr (r @ [x2, x1, x2])"
  using PopByteArray_snoc [of "r @ [x1]" x2] PopByteArray_snoc [of r x1]
  by (simp add: Tuck_def PushByteArray_def small_stack_def)

lemma PickN_append:
  "small_stack (r @ x # ys) \<Longrightarrow> PickN (r @ x # ys) (int (length ys)) = Inr (r @ x # ys @ [x])"
  by (simp add: PickN_def PeekByteArray_mid PushByteArray_def)

lemma RollN_append:
  "small_stack (r @ x # ys) \<Longrightarrow> RollN (r @ x # ys) (int (length ys)) = Inr (r @ ys @ [x])"
  by (simp add: RollN_def nipN_mid PushByteArray_def)

text \<open>Without enough elements every operation fails and reports an invalid stack operation.\<close>

lemma drop_loop_underflow:
  "\<lbrakk> small_stack s; length s < k \<rbrakk> \<Longrightarrow> drop_loop k s = scriptError ErrInvalidStackOperation"
proof (induction k arbitrary: s)
  case (Suc k)
  from Suc.prems(1) show ?case
    by (cases rule: PopByteArray_cases) (use Suc in auto)
qed simp

lemma stack_underflow:
  assumes "small_stack s" "n < 2 ^ 29"
  shows "n < 1 \<or> int (length s) < n \<Longrightarrow> DropN s n = scriptError ErrInvalidStackOperation"
    and "n < 1 \<or> int (length s) < n \<Longrightarrow> DupN s n = scriptError ErrInvalidStackOperation"
    and "n < 1 \<or> int (length s) < 3 * n \<Longrightarrow> RotN s n = scriptError ErrInvalidStackOperation"
    and "n < 1 \<or> int (length s) < 2 * n \<Longrightarrow> SwapN s n = scriptError ErrInvalidStackOperation"
    and "n < 1 \<or> int (length s) < 2 * n \<Longrightarrow> OverN s n = scriptError ErrInvalidStackOperation"
proof -
  have loop: "peek_loop (nat n) e s = scriptError ErrInvalidStackOperation"
    "nip_loop (nat n) e s = scriptError ErrInvalidStackOperation"
    if "1 \<le> n" "int (length s) \<le> e" for e
    using that assms(1) by (cases "nat n"; simp add: PeekByteArray_range nipN_range)+
  show "DropN s n = scriptError ErrInvalidStackOperation" if "n < 1 \<or> int (length s) < n"
    using that assms(1) by (auto simp: DropN_def drop_loop_underflow zless_nat_eq_int_zless)
  show "DupN s n = scriptError ErrInvalidStackOperation" if "n < 1 \<or> int (length s) < n"
    using that assms(2) by (auto simp: DupN_def loop)
  show "RotN s n = scriptError ErrInvalidStackOperation" if "n < 1 \<or> int (length s) < 3 * n"
    using that assms(2) by (auto simp: RotN_def loop)
  show "SwapN s n = scriptError ErrInvalidStackOperation" if "n < 1 \<or> int (length s) < 2 * n"
    using that assms(2) by (auto simp: SwapN_def loop)
  show "OverN s n = scriptError ErrInvalidStackOperation" if "n < 1 \<or> int (length s) < 2 * n"
    using that assms(2) by (auto simp: OverN_def loop)
qed

section \<open>Booleans and numbers\<close>

lemma asBool_fromBool [simp]: "asBool (fromBool b) = b"
  by (simp add: asBool_def fromBool_def)

lemma byte_zero_or_neg_zero: "unat (b :: byte) mod 128 = 0 \<longleftrightarrow> b = 0 \<or> b = 0x80"
proof -
  have "unat b mod 128 = 0 \<longleftrightarrow> unat b = 0 \<or> unat b = 128"
    using unat_byte_less [of b] by presburger
  then show ?thesis by (simp add: word_unat_eq_iff)
qed

lemma asBool_from_snoc:
  "Suc (i + length u) = len \<Longrightarrow>
     asBool_from len i (u @ [b]) \<longleftrightarrow> getLE u \<noteq> 0 \<or> \<not> (b = 0 \<or> b = 0x80)"
  by (induction u arbitrary: i) (auto simp: unat_eq_0)

lemma asBool_snoc: "asBool (u @ [b]) \<longleftrightarrow> getLE u \<noteq> 0 \<or> unat b mod 128 \<noteq> 0"
  by (simp add: asBool_def asBool_from_snoc byte_zero_or_neg_zero)

lemma asBool_scriptNum: "makeScriptNum v L = Inr n \<Longrightarrow> asBool v \<longleftrightarrow> n \<noteq> 0"
proof (cases v rule: rev_cases)
  case Nil
  assume "makeScriptNum v L = Inr n"
  with Nil show ?thesis by (simp add: makeScriptNum_eq asBool_def split: if_splits)
next
  case (snoc u b)
  assume "makeScriptNum v L = Inr n"
  then have "n = signedLE v" using snoc unfolding makeScriptNum_eq by (simp split: if_splits)
  then show ?thesis by (simp add: snoc asBool_snoc signedLE_snoc del: of_nat_add)
qed

section \<open>Properties\<close>

text \<open>
  C37: The multi-element operations rearrange the stack as documented, for groups of any size
  \<open>n > 0\<close> on top of any stack: \<^verbatim>\<open>DropN\<close>, \<^verbatim>\<open>DupN\<close>, \<^verbatim>\<open>RotN\<close>, \<^verbatim>\<open>SwapN\<close>, \<^verbatim>\<open>OverN\<close>.
\<close>

theorem stack_rearrangements:
  assumes "small_stack (r @ a @ b @ c @ a)" "0 < n" "length a = n" "length b = n" "length c = n"
  shows "DropN (r @ a) (int n) = Inr r \<and>
    DupN (r @ a) (int n) = Inr (r @ a @ a) \<and>
    RotN (r @ a @ b @ c) (int n) = Inr (r @ b @ c @ a) \<and>
    SwapN (r @ a @ b) (int n) = Inr (r @ b @ a) \<and>
    OverN (r @ a @ b) (int n) = Inr (r @ a @ b @ a)"
proof -
  have "a \<noteq> []" using assms(2,3) by auto
  moreover have "small_stack (r @ a)" "small_stack (r @ a @ a)" "small_stack (r @ a @ b @ c)"
    "small_stack (r @ a @ b)" "small_stack (r @ a @ b @ a)"
    using assms(1,3-) by (simp_all add: small_stack_def)
  ultimately show ?thesis
    using assms DropN_append [of r a] DupN_append [of r a] RotN_append [of r a b c n]
      SwapN_append [of r a b n] OverN_append [of r a b n] by simp
qed

theorem stack_rearrangements_witness:
  "RotN [[1], [2], [3], [4], [5], [6]] 2 = Inr [[3], [4], [5], [6], [1], [2]]"
  using stack_rearrangements [of "[]" "[[1], [2]]" "[[3], [4]]" "[[5], [6]]" 2]
  by (simp add: small_stack_def)





end
