(* ===== verification/Opcode.thy ===== *)
theory Opcode
  imports ScriptStack
begin

text \<open>
  The opcodes of the script language (\<^verbatim>\<open>txscript/opcode.go\<close>, data only): the constants, the
  table \<^verbatim>\<open>opcodeArray\<close> in the order of the source, and what the rest of the package reads off
  it. A handler is named by a value of \<open>opfunc\<close>; its behaviour is in the engine's theory.
\<close>

section \<open>Opcode values\<close>

abbreviation (input) Op0 :: byte where "Op0 \<equiv> 0x00"
abbreviation (input) OpFalse :: byte where "OpFalse \<equiv> 0x00"
abbreviation (input) OpData1 :: byte where "OpData1 \<equiv> 0x01"
abbreviation (input) OpData2 :: byte where "OpData2 \<equiv> 0x02"
abbreviation (input) OpData3 :: byte where "OpData3 \<equiv> 0x03"
abbreviation (input) OpData4 :: byte where "OpData4 \<equiv> 0x04"
abbreviation (input) OpData5 :: byte where "OpData5 \<equiv> 0x05"
abbreviation (input) OpData6 :: byte where "OpData6 \<equiv> 0x06"
abbreviation (input) OpData7 :: byte where "OpData7 \<equiv> 0x07"
abbreviation (input) OpData8 :: byte where "OpData8 \<equiv> 0x08"
abbreviation (input) OpData9 :: byte where "OpData9 \<equiv> 0x09"
abbreviation (input) OpData10 :: byte where "OpData10 \<equiv> 0x0a"
abbreviation (input) OpData11 :: byte where "OpData11 \<equiv> 0x0b"
abbreviation (input) OpData12 :: byte where "OpData12 \<equiv> 0x0c"
abbreviation (input) OpData13 :: byte where "OpData13 \<equiv> 0x0d"
abbreviation (input) OpData14 :: byte where "OpData14 \<equiv> 0x0e"
abbreviation (input) OpData15 :: byte where "OpData15 \<equiv> 0x0f"
abbreviation (input) OpData16 :: byte where "OpData16 \<equiv> 0x10"
abbreviation (input) OpData17 :: byte where "OpData17 \<equiv> 0x11"
abbreviation (input) OpData18 :: byte where "OpData18 \<equiv> 0x12"
abbreviation (input) OpData19 :: byte where "OpData19 \<equiv> 0x13"
abbreviation (input) OpData20 :: byte where "OpData20 \<equiv> 0x14"
abbreviation (input) OpData21 :: byte where "OpData21 \<equiv> 0x15"
abbreviation (input) OpData22 :: byte where "OpData22 \<equiv> 0x16"
abbreviation (input) OpData23 :: byte where "OpData23 \<equiv> 0x17"
abbreviation (input) OpData24 :: byte where "OpData24 \<equiv> 0x18"
abbreviation (input) OpData25 :: byte where "OpData25 \<equiv> 0x19"
abbreviation (input) OpData26 :: byte where "OpData26 \<equiv> 0x1a"
abbreviation (input) OpData27 :: byte where "OpData27 \<equiv> 0x1b"
abbreviation (input) OpData28 :: byte where "OpData28 \<equiv> 0x1c"
abbreviation (input) OpData29 :: byte where "OpData29 \<equiv> 0x1d"
abbreviation (input) OpData30 :: byte where "OpData30 \<equiv> 0x1e"
abbreviation (input) OpData31 :: byte where "OpData31 \<equiv> 0x1f"
abbreviation (input) OpData32 :: byte where "OpData32 \<equiv> 0x20"
abbreviation (input) OpData33 :: byte where "OpData33 \<equiv> 0x21"
abbreviation (input) OpData34 :: byte where "OpData34 \<equiv> 0x22"
abbreviation (input) OpData35 :: byte where "OpData35 \<equiv> 0x23"
abbreviation (input) OpData36 :: byte where "OpData36 \<equiv> 0x24"
abbreviation (input) OpData37 :: byte where "OpData37 \<equiv> 0x25"
abbreviation (input) OpData38 :: byte where "OpData38 \<equiv> 0x26"
abbreviation (input) OpData39 :: byte where "OpData39 \<equiv> 0x27"
abbreviation (input) OpData40 :: byte where "OpData40 \<equiv> 0x28"
abbreviation (input) OpData41 :: byte where "OpData41 \<equiv> 0x29"
abbreviation (input) OpData42 :: byte where "OpData42 \<equiv> 0x2a"
abbreviation (input) OpData43 :: byte where "OpData43 \<equiv> 0x2b"
abbreviation (input) OpData44 :: byte where "OpData44 \<equiv> 0x2c"
abbreviation (input) OpData45 :: byte where "OpData45 \<equiv> 0x2d"
abbreviation (input) OpData46 :: byte where "OpData46 \<equiv> 0x2e"
abbreviation (input) OpData47 :: byte where "OpData47 \<equiv> 0x2f"
abbreviation (input) OpData48 :: byte where "OpData48 \<equiv> 0x30"
abbreviation (input) OpData49 :: byte where "OpData49 \<equiv> 0x31"
abbreviation (input) OpData50 :: byte where "OpData50 \<equiv> 0x32"
abbreviation (input) OpData51 :: byte where "OpData51 \<equiv> 0x33"
abbreviation (input) OpData52 :: byte where "OpData52 \<equiv> 0x34"
abbreviation (input) OpData53 :: byte where "OpData53 \<equiv> 0x35"
abbreviation (input) OpData54 :: byte where "OpData54 \<equiv> 0x36"
abbreviation (input) OpData55 :: byte where "OpData55 \<equiv> 0x37"
abbreviation (input) OpData56 :: byte where "OpData56 \<equiv> 0x38"
abbreviation (input) OpData57 :: byte where "OpData57 \<equiv> 0x39"
abbreviation (input) OpData58 :: byte where "OpData58 \<equiv> 0x3a"
abbreviation (input) OpData59 :: byte where "OpData59 \<equiv> 0x3b"
abbreviation (input) OpData60 :: byte where "OpData60 \<equiv> 0x3c"
abbreviation (input) OpData61 :: byte where "OpData61 \<equiv> 0x3d"
abbreviation (input) OpData62 :: byte where "OpData62 \<equiv> 0x3e"
abbreviation (input) OpData63 :: byte where "OpData63 \<equiv> 0x3f"
abbreviation (input) OpData64 :: byte where "OpData64 \<equiv> 0x40"
abbreviation (input) OpData65 :: byte where "OpData65 \<equiv> 0x41"
abbreviation (input) OpData66 :: byte where "OpData66 \<equiv> 0x42"
abbreviation (input) OpData67 :: byte where "OpData67 \<equiv> 0x43"
abbreviation (input) OpData68 :: byte where "OpData68 \<equiv> 0x44"
abbreviation (input) OpData69 :: byte where "OpData69 \<equiv> 0x45"
abbreviation (input) OpData70 :: byte where "OpData70 \<equiv> 0x46"
abbreviation (input) OpData71 :: byte where "OpData71 \<equiv> 0x47"
abbreviation (input) OpData72 :: byte where "OpData72 \<equiv> 0x48"
abbreviation (input) OpData73 :: byte where "OpData73 \<equiv> 0x49"
abbreviation (input) OpData74 :: byte where "OpData74 \<equiv> 0x4a"
abbreviation (input) OpData75 :: byte where "OpData75 \<equiv> 0x4b"
abbreviation (input) OpPushData1 :: byte where "OpPushData1 \<equiv> 0x4c"
abbreviation (input) OpPushData2 :: byte where "OpPushData2 \<equiv> 0x4d"
abbreviation (input) OpPushData4 :: byte where "OpPushData4 \<equiv> 0x4e"
abbreviation (input) Op1Negate :: byte where "Op1Negate \<equiv> 0x4f"
abbreviation (input) OpReserved :: byte where "OpReserved \<equiv> 0x50"
abbreviation (input) Op1 :: byte where "Op1 \<equiv> 0x51"
abbreviation (input) OpTrue :: byte where "OpTrue \<equiv> 0x51"
abbreviation (input) Op2 :: byte where "Op2 \<equiv> 0x52"
abbreviation (input) Op3 :: byte where "Op3 \<equiv> 0x53"
abbreviation (input) Op4 :: byte where "Op4 \<equiv> 0x54"
abbreviation (input) Op5 :: byte where "Op5 \<equiv> 0x55"
abbreviation (input) Op6 :: byte where "Op6 \<equiv> 0x56"
abbreviation (input) Op7 :: byte where "Op7 \<equiv> 0x57"
abbreviation (input) Op8 :: byte where "Op8 \<equiv> 0x58"
abbreviation (input) Op9 :: byte where "Op9 \<equiv> 0x59"
abbreviation (input) Op10 :: byte where "Op10 \<equiv> 0x5a"
abbreviation (input) Op11 :: byte where "Op11 \<equiv> 0x5b"
abbreviation (input) Op12 :: byte where "Op12 \<equiv> 0x5c"
abbreviation (input) Op13 :: byte where "Op13 \<equiv> 0x5d"
abbreviation (input) Op14 :: byte where "Op14 \<equiv> 0x5e"
abbreviation (input) Op15 :: byte where "Op15 \<equiv> 0x5f"
abbreviation (input) Op16 :: byte where "Op16 \<equiv> 0x60"
abbreviation (input) OpNop :: byte where "OpNop \<equiv> 0x61"
abbreviation (input) OpVer :: byte where "OpVer \<equiv> 0x62"
abbreviation (input) OpIf :: byte where "OpIf \<equiv> 0x63"
abbreviation (input) OpNotIf :: byte where "OpNotIf \<equiv> 0x64"
abbreviation (input) OpVerIf :: byte where "OpVerIf \<equiv> 0x65"
abbreviation (input) OpVerNotIf :: byte where "OpVerNotIf \<equiv> 0x66"
abbreviation (input) OpElse :: byte where "OpElse \<equiv> 0x67"
abbreviation (input) OpEndIf :: byte where "OpEndIf \<equiv> 0x68"
abbreviation (input) OpVerify :: byte where "OpVerify \<equiv> 0x69"
abbreviation (input) OpReturn :: byte where "OpReturn \<equiv> 0x6a"
abbreviation (input) OpToAltStack :: byte where "OpToAltStack \<equiv> 0x6b"
abbreviation (input) OpFromAltStack :: byte where "OpFromAltStack \<equiv> 0x6c"
abbreviation (input) Op2Drop :: byte where "Op2Drop \<equiv> 0x6d"
abbreviation (input) Op2Dup :: byte where "Op2Dup \<equiv> 0x6e"
abbreviation (input) Op3Dup :: byte where "Op3Dup \<equiv> 0x6f"
abbreviation (input) Op2Over :: byte where "Op2Over \<equiv> 0x70"
abbreviation (input) Op2Rot :: byte where "Op2Rot \<equiv> 0x71"
abbreviation (input) Op2Swap :: byte where "Op2Swap \<equiv> 0x72"
abbreviation (input) OpIfDup :: byte where "OpIfDup \<equiv> 0x73"
abbreviation (input) OpDepth :: byte where "OpDepth \<equiv> 0x74"
abbreviation (input) OpDrop :: byte where "OpDrop \<equiv> 0x75"
abbreviation (input) OpDup :: byte where "OpDup \<equiv> 0x76"
abbreviation (input) OpNip :: byte where "OpNip \<equiv> 0x77"
abbreviation (input) OpOver :: byte where "OpOver \<equiv> 0x78"
abbreviation (input) OpPick :: byte where "OpPick \<equiv> 0x79"
abbreviation (input) OpRoll :: byte where "OpRoll \<equiv> 0x7a"
abbreviation (input) OpRot :: byte where "OpRot \<equiv> 0x7b"
abbreviation (input) OpSwap :: byte where "OpSwap \<equiv> 0x7c"
abbreviation (input) OpTuck :: byte where "OpTuck \<equiv> 0x7d"
abbreviation (input) OpCat :: byte where "OpCat \<equiv> 0x7e"
abbreviation (input) OpSubStr :: byte where "OpSubStr \<equiv> 0x7f"
abbreviation (input) OpLeft :: byte where "OpLeft \<equiv> 0x80"
abbreviation (input) OpRight :: byte where "OpRight \<equiv> 0x81"
abbreviation (input) OpSize :: byte where "OpSize \<equiv> 0x82"
abbreviation (input) OpInvert :: byte where "OpInvert \<equiv> 0x83"
abbreviation (input) OpAnd :: byte where "OpAnd \<equiv> 0x84"
abbreviation (input) OpOr :: byte where "OpOr \<equiv> 0x85"
abbreviation (input) OpXor :: byte where "OpXor \<equiv> 0x86"
abbreviation (input) OpEqual :: byte where "OpEqual \<equiv> 0x87"
abbreviation (input) OpEqualVerify :: byte where "OpEqualVerify \<equiv> 0x88"
abbreviation (input) OpReserved1 :: byte where "OpReserved1 \<equiv> 0x89"
abbreviation (input) OpReserved2 :: byte where "OpReserved2 \<equiv> 0x8a"
abbreviation (input) Op1Add :: byte where "Op1Add \<equiv> 0x8b"
abbreviation (input) Op1Sub :: byte where "Op1Sub \<equiv> 0x8c"
abbreviation (input) Op2Mul :: byte where "Op2Mul \<equiv> 0x8d"
abbreviation (input) Op2Div :: byte where "Op2Div \<equiv> 0x8e"
abbreviation (input) OpNegate :: byte where "OpNegate \<equiv> 0x8f"
abbreviation (input) OpAbs :: byte where "OpAbs \<equiv> 0x90"
abbreviation (input) OpNot :: byte where "OpNot \<equiv> 0x91"
abbreviation (input) Op0NotEqual :: byte where "Op0NotEqual \<equiv> 0x92"
abbreviation (input) OpAdd :: byte where "OpAdd \<equiv> 0x93"
abbreviation (input) OpSub :: byte where "OpSub \<equiv> 0x94"
abbreviation (input) OpMul :: byte where "OpMul \<equiv> 0x95"
abbreviation (input) OpDiv :: byte where "OpDiv \<equiv> 0x96"
abbreviation (input) OpMod :: byte where "OpMod \<equiv> 0x97"
abbreviation (input) OpLShift :: byte where "OpLShift \<equiv> 0x98"
abbreviation (input) OpRShift :: byte where "OpRShift \<equiv> 0x99"
abbreviation (input) OpBoolAnd :: byte where "OpBoolAnd \<equiv> 0x9a"
abbreviation (input) OpBoolOr :: byte where "OpBoolOr \<equiv> 0x9b"
abbreviation (input) OpNumEqual :: byte where "OpNumEqual \<equiv> 0x9c"
abbreviation (input) OpNumEqualVerify :: byte where "OpNumEqualVerify \<equiv> 0x9d"
abbreviation (input) OpNumNotEqual :: byte where "OpNumNotEqual \<equiv> 0x9e"
abbreviation (input) OpLessThan :: byte where "OpLessThan \<equiv> 0x9f"
abbreviation (input) OpGreaterThan :: byte where "OpGreaterThan \<equiv> 0xa0"
abbreviation (input) OpLessThanOrEqual :: byte where "OpLessThanOrEqual \<equiv> 0xa1"
abbreviation (input) OpGreaterThanOrEqual :: byte where "OpGreaterThanOrEqual \<equiv> 0xa2"
abbreviation (input) OpMin :: byte where "OpMin \<equiv> 0xa3"
abbreviation (input) OpMax :: byte where "OpMax \<equiv> 0xa4"
abbreviation (input) OpWithin :: byte where "OpWithin \<equiv> 0xa5"
abbreviation (input) OpUnknown166 :: byte where "OpUnknown166 \<equiv> 0xa6"
abbreviation (input) OpUnknown167 :: byte where "OpUnknown167 \<equiv> 0xa7"
abbreviation (input) OpSHA256 :: byte where "OpSHA256 \<equiv> 0xa8"
abbreviation (input) OpCheckMultiSigECDSA :: byte where "OpCheckMultiSigECDSA \<equiv> 0xa9"
abbreviation (input) OpBlake2b :: byte where "OpBlake2b \<equiv> 0xaa"
abbreviation (input) OpCheckSigECDSA :: byte where "OpCheckSigECDSA \<equiv> 0xab"
abbreviation (input) OpCheckSig :: byte where "OpCheckSig \<equiv> 0xac"
abbreviation (input) OpCheckSigVerify :: byte where "OpCheckSigVerify \<equiv> 0xad"
abbreviation (input) OpCheckMultiSig :: byte where "OpCheckMultiSig \<equiv> 0xae"
abbreviation (input) OpCheckMultiSigVerify :: byte where "OpCheckMultiSigVerify \<equiv> 0xaf"
abbreviation (input) OpCheckLockTimeVerify :: byte where "OpCheckLockTimeVerify \<equiv> 0xb0"
abbreviation (input) OpCheckSequenceVerify :: byte where "OpCheckSequenceVerify \<equiv> 0xb1"
abbreviation (input) OpUnknown178 :: byte where "OpUnknown178 \<equiv> 0xb2"
abbreviation (input) OpUnknown179 :: byte where "OpUnknown179 \<equiv> 0xb3"
abbreviation (input) OpUnknown180 :: byte where "OpUnknown180 \<equiv> 0xb4"
abbreviation (input) OpUnknown181 :: byte where "OpUnknown181 \<equiv> 0xb5"
abbreviation (input) OpUnknown182 :: byte where "OpUnknown182 \<equiv> 0xb6"
abbreviation (input) OpUnknown183 :: byte where "OpUnknown183 \<equiv> 0xb7"
abbreviation (input) OpUnknown184 :: byte where "OpUnknown184 \<equiv> 0xb8"
abbreviation (input) OpUnknown185 :: byte where "OpUnknown185 \<equiv> 0xb9"
abbreviation (input) OpUnknown186 :: byte where "OpUnknown186 \<equiv> 0xba"
abbreviation (input) OpUnknown187 :: byte where "OpUnknown187 \<equiv> 0xbb"
abbreviation (input) OpUnknown188 :: byte where "OpUnknown188 \<equiv> 0xbc"
abbreviation (input) OpUnknown189 :: byte where "OpUnknown189 \<equiv> 0xbd"
abbreviation (input) OpUnknown190 :: byte where "OpUnknown190 \<equiv> 0xbe"
abbreviation (input) OpUnknown191 :: byte where "OpUnknown191 \<equiv> 0xbf"
abbreviation (input) OpUnknown192 :: byte where "OpUnknown192 \<equiv> 0xc0"
abbreviation (input) OpUnknown193 :: byte where "OpUnknown193 \<equiv> 0xc1"
abbreviation (input) OpUnknown194 :: byte where "OpUnknown194 \<equiv> 0xc2"
abbreviation (input) OpUnknown195 :: byte where "OpUnknown195 \<equiv> 0xc3"
abbreviation (input) OpUnknown196 :: byte where "OpUnknown196 \<equiv> 0xc4"
abbreviation (input) OpUnknown197 :: byte where "OpUnknown197 \<equiv> 0xc5"
abbreviation (input) OpUnknown198 :: byte where "OpUnknown198 \<equiv> 0xc6"
abbreviation (input) OpUnknown199 :: byte where "OpUnknown199 \<equiv> 0xc7"
abbreviation (input) OpUnknown200 :: byte where "OpUnknown200 \<equiv> 0xc8"
abbreviation (input) OpUnknown201 :: byte where "OpUnknown201 \<equiv> 0xc9"
abbreviation (input) OpUnknown202 :: byte where "OpUnknown202 \<equiv> 0xca"
abbreviation (input) OpUnknown203 :: byte where "OpUnknown203 \<equiv> 0xcb"
abbreviation (input) OpUnknown204 :: byte where "OpUnknown204 \<equiv> 0xcc"
abbreviation (input) OpUnknown205 :: byte where "OpUnknown205 \<equiv> 0xcd"
abbreviation (input) OpUnknown206 :: byte where "OpUnknown206 \<equiv> 0xce"
abbreviation (input) OpUnknown207 :: byte where "OpUnknown207 \<equiv> 0xcf"
abbreviation (input) OpUnknown208 :: byte where "OpUnknown208 \<equiv> 0xd0"
abbreviation (input) OpUnknown209 :: byte where "OpUnknown209 \<equiv> 0xd1"
abbreviation (input) OpUnknown210 :: byte where "OpUnknown210 \<equiv> 0xd2"
abbreviation (input) OpUnknown211 :: byte where "OpUnknown211 \<equiv> 0xd3"
abbreviation (input) OpUnknown212 :: byte where "OpUnknown212 \<equiv> 0xd4"
abbreviation (input) OpUnknown213 :: byte where "OpUnknown213 \<equiv> 0xd5"
abbreviation (input) OpUnknown214 :: byte where "OpUnknown214 \<equiv> 0xd6"
abbreviation (input) OpUnknown215 :: byte where "OpUnknown215 \<equiv> 0xd7"
abbreviation (input) OpUnknown216 :: byte where "OpUnknown216 \<equiv> 0xd8"
abbreviation (input) OpUnknown217 :: byte where "OpUnknown217 \<equiv> 0xd9"
abbreviation (input) OpUnknown218 :: byte where "OpUnknown218 \<equiv> 0xda"
abbreviation (input) OpUnknown219 :: byte where "OpUnknown219 \<equiv> 0xdb"
abbreviation (input) OpUnknown220 :: byte where "OpUnknown220 \<equiv> 0xdc"
abbreviation (input) OpUnknown221 :: byte where "OpUnknown221 \<equiv> 0xdd"
abbreviation (input) OpUnknown222 :: byte where "OpUnknown222 \<equiv> 0xde"
abbreviation (input) OpUnknown223 :: byte where "OpUnknown223 \<equiv> 0xdf"
abbreviation (input) OpUnknown224 :: byte where "OpUnknown224 \<equiv> 0xe0"
abbreviation (input) OpUnknown225 :: byte where "OpUnknown225 \<equiv> 0xe1"
abbreviation (input) OpUnknown226 :: byte where "OpUnknown226 \<equiv> 0xe2"
abbreviation (input) OpUnknown227 :: byte where "OpUnknown227 \<equiv> 0xe3"
abbreviation (input) OpUnknown228 :: byte where "OpUnknown228 \<equiv> 0xe4"
abbreviation (input) OpUnknown229 :: byte where "OpUnknown229 \<equiv> 0xe5"
abbreviation (input) OpUnknown230 :: byte where "OpUnknown230 \<equiv> 0xe6"
abbreviation (input) OpUnknown231 :: byte where "OpUnknown231 \<equiv> 0xe7"
abbreviation (input) OpUnknown232 :: byte where "OpUnknown232 \<equiv> 0xe8"
abbreviation (input) OpUnknown233 :: byte where "OpUnknown233 \<equiv> 0xe9"
abbreviation (input) OpUnknown234 :: byte where "OpUnknown234 \<equiv> 0xea"
abbreviation (input) OpUnknown235 :: byte where "OpUnknown235 \<equiv> 0xeb"
abbreviation (input) OpUnknown236 :: byte where "OpUnknown236 \<equiv> 0xec"
abbreviation (input) OpUnknown237 :: byte where "OpUnknown237 \<equiv> 0xed"
abbreviation (input) OpUnknown238 :: byte where "OpUnknown238 \<equiv> 0xee"
abbreviation (input) OpUnknown239 :: byte where "OpUnknown239 \<equiv> 0xef"
abbreviation (input) OpUnknown240 :: byte where "OpUnknown240 \<equiv> 0xf0"
abbreviation (input) OpUnknown241 :: byte where "OpUnknown241 \<equiv> 0xf1"
abbreviation (input) OpUnknown242 :: byte where "OpUnknown242 \<equiv> 0xf2"
abbreviation (input) OpUnknown243 :: byte where "OpUnknown243 \<equiv> 0xf3"
abbreviation (input) OpUnknown244 :: byte where "OpUnknown244 \<equiv> 0xf4"
abbreviation (input) OpUnknown245 :: byte where "OpUnknown245 \<equiv> 0xf5"
abbreviation (input) OpUnknown246 :: byte where "OpUnknown246 \<equiv> 0xf6"
abbreviation (input) OpUnknown247 :: byte where "OpUnknown247 \<equiv> 0xf7"
abbreviation (input) OpUnknown248 :: byte where "OpUnknown248 \<equiv> 0xf8"
abbreviation (input) OpUnknown249 :: byte where "OpUnknown249 \<equiv> 0xf9"
abbreviation (input) OpSmallInteger :: byte where "OpSmallInteger \<equiv> 0xfa"
abbreviation (input) OpPubKeys :: byte where "OpPubKeys \<equiv> 0xfb"
abbreviation (input) OpUnknown252 :: byte where "OpUnknown252 \<equiv> 0xfc"
abbreviation (input) OpPubKeyHash :: byte where "OpPubKeyHash \<equiv> 0xfd"
abbreviation (input) OpPubKey :: byte where "OpPubKey \<equiv> 0xfe"
abbreviation (input) OpInvalidOpCode :: byte where "OpInvalidOpCode \<equiv> 0xff"

section \<open>The table\<close>

datatype (plugins only: code size) opfunc =
    F_opcodeFalse
  | F_opcodePushData
  | F_opcode1Negate
  | F_opcodeReserved
  | F_opcodeN
  | F_opcodeNop
  | F_opcodeIf
  | F_opcodeNotIf
  | F_opcodeElse
  | F_opcodeEndif
  | F_opcodeVerify
  | F_opcodeReturn
  | F_opcodeCheckLockTimeVerify
  | F_opcodeCheckSequenceVerify
  | F_opcodeToAltStack
  | F_opcodeFromAltStack
  | F_opcode2Drop
  | F_opcode2Dup
  | F_opcode3Dup
  | F_opcode2Over
  | F_opcode2Rot
  | F_opcode2Swap
  | F_opcodeIfDup
  | F_opcodeDepth
  | F_opcodeDrop
  | F_opcodeDup
  | F_opcodeNip
  | F_opcodeOver
  | F_opcodePick
  | F_opcodeRoll
  | F_opcodeRot
  | F_opcodeSwap
  | F_opcodeTuck
  | F_opcodeDisabled
  | F_opcodeSize
  | F_opcodeEqual
  | F_opcodeEqualVerify
  | F_opcode1Add
  | F_opcode1Sub
  | F_opcodeNegate
  | F_opcodeAbs
  | F_opcodeNot
  | F_opcode0NotEqual
  | F_opcodeAdd
  | F_opcodeSub
  | F_opcodeBoolAnd
  | F_opcodeBoolOr
  | F_opcodeNumEqual
  | F_opcodeNumEqualVerify
  | F_opcodeNumNotEqual
  | F_opcodeLessThan
  | F_opcodeGreaterThan
  | F_opcodeLessThanOrEqual
  | F_opcodeGreaterThanOrEqual
  | F_opcodeMin
  | F_opcodeMax
  | F_opcodeWithin
  | F_opcodeCheckMultiSigECDSA
  | F_opcodeSha256
  | F_opcodeBlake2b
  | F_opcodeCheckSigECDSA
  | F_opcodeCheckSig
  | F_opcodeCheckSigVerify
  | F_opcodeCheckMultiSig
  | F_opcodeCheckMultiSigVerify
  | F_opcodeInvalid

record opcode =
  op_value :: byte
  op_name :: string
  op_length :: int
  op_func :: opfunc

definition mkOpcode :: "byte \<Rightarrow> string \<Rightarrow> int \<Rightarrow> opfunc \<Rightarrow> opcode" where
  "mkOpcode v n l f = \<lparr>op_value = v, op_name = n, op_length = l, op_func = f\<rparr>"

definition dataPushOpcodes :: "(byte \<times> opcode) list" where
  "dataPushOpcodes = [
    (OpFalse, mkOpcode OpFalse ''OP_0'' 1 F_opcodeFalse),
    (OpData1, mkOpcode OpData1 ''OP_DATA_1'' 2 F_opcodePushData),
    (OpData2, mkOpcode OpData2 ''OP_DATA_2'' 3 F_opcodePushData),
    (OpData3, mkOpcode OpData3 ''OP_DATA_3'' 4 F_opcodePushData),
    (OpData4, mkOpcode OpData4 ''OP_DATA_4'' 5 F_opcodePushData),
    (OpData5, mkOpcode OpData5 ''OP_DATA_5'' 6 F_opcodePushData),
    (OpData6, mkOpcode OpData6 ''OP_DATA_6'' 7 F_opcodePushData),
    (OpData7, mkOpcode OpData7 ''OP_DATA_7'' 8 F_opcodePushData),
    (OpData8, mkOpcode OpData8 ''OP_DATA_8'' 9 F_opcodePushData),
    (OpData9, mkOpcode OpData9 ''OP_DATA_9'' 10 F_opcodePushData),
    (OpData10, mkOpcode OpData10 ''OP_DATA_10'' 11 F_opcodePushData),
    (OpData11, mkOpcode OpData11 ''OP_DATA_11'' 12 F_opcodePushData),
    (OpData12, mkOpcode OpData12 ''OP_DATA_12'' 13 F_opcodePushData),
    (OpData13, mkOpcode OpData13 ''OP_DATA_13'' 14 F_opcodePushData),
    (OpData14, mkOpcode OpData14 ''OP_DATA_14'' 15 F_opcodePushData),
    (OpData15, mkOpcode OpData15 ''OP_DATA_15'' 16 F_opcodePushData),
    (OpData16, mkOpcode OpData16 ''OP_DATA_16'' 17 F_opcodePushData),
    (OpData17, mkOpcode OpData17 ''OP_DATA_17'' 18 F_opcodePushData),
    (OpData18, mkOpcode OpData18 ''OP_DATA_18'' 19 F_opcodePushData),
    (OpData19, mkOpcode OpData19 ''OP_DATA_19'' 20 F_opcodePushData),
    (OpData20, mkOpcode OpData20 ''OP_DATA_20'' 21 F_opcodePushData),
    (OpData21, mkOpcode OpData21 ''OP_DATA_21'' 22 F_opcodePushData),
    (OpData22, mkOpcode OpData22 ''OP_DATA_22'' 23 F_opcodePushData),
    (OpData23, mkOpcode OpData23 ''OP_DATA_23'' 24 F_opcodePushData),
    (OpData24, mkOpcode OpData24 ''OP_DATA_24'' 25 F_opcodePushData),
    (OpData25, mkOpcode OpData25 ''OP_DATA_25'' 26 F_opcodePushData),
    (OpData26, mkOpcode OpData26 ''OP_DATA_26'' 27 F_opcodePushData),
    (OpData27, mkOpcode OpData27 ''OP_DATA_27'' 28 F_opcodePushData),
    (OpData28, mkOpcode OpData28 ''OP_DATA_28'' 29 F_opcodePushData),
    (OpData29, mkOpcode OpData29 ''OP_DATA_29'' 30 F_opcodePushData),
    (OpData30, mkOpcode OpData30 ''OP_DATA_30'' 31 F_opcodePushData),
    (OpData31, mkOpcode OpData31 ''OP_DATA_31'' 32 F_opcodePushData),
    (OpData32, mkOpcode OpData32 ''OP_DATA_32'' 33 F_opcodePushData),
    (OpData33, mkOpcode OpData33 ''OP_DATA_33'' 34 F_opcodePushData),
    (OpData34, mkOpcode OpData34 ''OP_DATA_34'' 35 F_opcodePushData),
    (OpData35, mkOpcode OpData35 ''OP_DATA_35'' 36 F_opcodePushData),
    (OpData36, mkOpcode OpData36 ''OP_DATA_36'' 37 F_opcodePushData),
    (OpData37, mkOpcode OpData37 ''OP_DATA_37'' 38 F_opcodePushData),
    (OpData38, mkOpcode OpData38 ''OP_DATA_38'' 39 F_opcodePushData),
    (OpData39, mkOpcode OpData39 ''OP_DATA_39'' 40 F_opcodePushData),
    (OpData40, mkOpcode OpData40 ''OP_DATA_40'' 41 F_opcodePushData),
    (OpData41, mkOpcode OpData41 ''OP_DATA_41'' 42 F_opcodePushData),
    (OpData42, mkOpcode OpData42 ''OP_DATA_42'' 43 F_opcodePushData),
    (OpData43, mkOpcode OpData43 ''OP_DATA_43'' 44 F_opcodePushData),
    (OpData44, mkOpcode OpData44 ''OP_DATA_44'' 45 F_opcodePushData),
    (OpData45, mkOpcode OpData45 ''OP_DATA_45'' 46 F_opcodePushData),
    (OpData46, mkOpcode OpData46 ''OP_DATA_46'' 47 F_opcodePushData),
    (OpData47, mkOpcode OpData47 ''OP_DATA_47'' 48 F_opcodePushData),
    (OpData48, mkOpcode OpData48 ''OP_DATA_48'' 49 F_opcodePushData),
    (OpData49, mkOpcode OpData49 ''OP_DATA_49'' 50 F_opcodePushData),
    (OpData50, mkOpcode OpData50 ''OP_DATA_50'' 51 F_opcodePushData),
    (OpData51, mkOpcode OpData51 ''OP_DATA_51'' 52 F_opcodePushData),
    (OpData52, mkOpcode OpData52 ''OP_DATA_52'' 53 F_opcodePushData),
    (OpData53, mkOpcode OpData53 ''OP_DATA_53'' 54 F_opcodePushData),
    (OpData54, mkOpcode OpData54 ''OP_DATA_54'' 55 F_opcodePushData),
    (OpData55, mkOpcode OpData55 ''OP_DATA_55'' 56 F_opcodePushData),
    (OpData56, mkOpcode OpData56 ''OP_DATA_56'' 57 F_opcodePushData),
    (OpData57, mkOpcode OpData57 ''OP_DATA_57'' 58 F_opcodePushData),
    (OpData58, mkOpcode OpData58 ''OP_DATA_58'' 59 F_opcodePushData),
    (OpData59, mkOpcode OpData59 ''OP_DATA_59'' 60 F_opcodePushData),
    (OpData60, mkOpcode OpData60 ''OP_DATA_60'' 61 F_opcodePushData),
    (OpData61, mkOpcode OpData61 ''OP_DATA_61'' 62 F_opcodePushData),
    (OpData62, mkOpcode OpData62 ''OP_DATA_62'' 63 F_opcodePushData),
    (OpData63, mkOpcode OpData63 ''OP_DATA_63'' 64 F_opcodePushData),
    (OpData64, mkOpcode OpData64 ''OP_DATA_64'' 65 F_opcodePushData),
    (OpData65, mkOpcode OpData65 ''OP_DATA_65'' 66 F_opcodePushData),
    (OpData66, mkOpcode OpData66 ''OP_DATA_66'' 67 F_opcodePushData),
    (OpData67, mkOpcode OpData67 ''OP_DATA_67'' 68 F_opcodePushData),
    (OpData68, mkOpcode OpData68 ''OP_DATA_68'' 69 F_opcodePushData),
    (OpData69, mkOpcode OpData69 ''OP_DATA_69'' 70 F_opcodePushData),
    (OpData70, mkOpcode OpData70 ''OP_DATA_70'' 71 F_opcodePushData),
    (OpData71, mkOpcode OpData71 ''OP_DATA_71'' 72 F_opcodePushData),
    (OpData72, mkOpcode OpData72 ''OP_DATA_72'' 73 F_opcodePushData),
    (OpData73, mkOpcode OpData73 ''OP_DATA_73'' 74 F_opcodePushData),
    (OpData74, mkOpcode OpData74 ''OP_DATA_74'' 75 F_opcodePushData),
    (OpData75, mkOpcode OpData75 ''OP_DATA_75'' 76 F_opcodePushData),
    (OpPushData1, mkOpcode OpPushData1 ''OP_PUSHDATA1'' (-1) F_opcodePushData),
    (OpPushData2, mkOpcode OpPushData2 ''OP_PUSHDATA2'' (-2) F_opcodePushData),
    (OpPushData4, mkOpcode OpPushData4 ''OP_PUSHDATA4'' (-4) F_opcodePushData),
    (Op1Negate, mkOpcode Op1Negate ''OP_1NEGATE'' 1 F_opcode1Negate),
    (OpReserved, mkOpcode OpReserved ''OP_RESERVED'' 1 F_opcodeReserved),
    (OpTrue, mkOpcode OpTrue ''OP_1'' 1 F_opcodeN),
    (Op2, mkOpcode Op2 ''OP_2'' 1 F_opcodeN),
    (Op3, mkOpcode Op3 ''OP_3'' 1 F_opcodeN),
    (Op4, mkOpcode Op4 ''OP_4'' 1 F_opcodeN),
    (Op5, mkOpcode Op5 ''OP_5'' 1 F_opcodeN),
    (Op6, mkOpcode Op6 ''OP_6'' 1 F_opcodeN),
    (Op7, mkOpcode Op7 ''OP_7'' 1 F_opcodeN),
    (Op8, mkOpcode Op8 ''OP_8'' 1 F_opcodeN),
    (Op9, mkOpcode Op9 ''OP_9'' 1 F_opcodeN),
    (Op10, mkOpcode Op10 ''OP_10'' 1 F_opcodeN),
    (Op11, mkOpcode Op11 ''OP_11'' 1 F_opcodeN),
    (Op12, mkOpcode Op12 ''OP_12'' 1 F_opcodeN),
    (Op13, mkOpcode Op13 ''OP_13'' 1 F_opcodeN),
    (Op14, mkOpcode Op14 ''OP_14'' 1 F_opcodeN),
    (Op15, mkOpcode Op15 ''OP_15'' 1 F_opcodeN),
    (Op16, mkOpcode Op16 ''OP_16'' 1 F_opcodeN)]"

definition controlOpcodes :: "(byte \<times> opcode) list" where
  "controlOpcodes = [
    (OpNop, mkOpcode OpNop ''OP_NOP'' 1 F_opcodeNop),
    (OpVer, mkOpcode OpVer ''OP_VER'' 1 F_opcodeReserved),
    (OpIf, mkOpcode OpIf ''OP_IF'' 1 F_opcodeIf),
    (OpNotIf, mkOpcode OpNotIf ''OP_NOTIF'' 1 F_opcodeNotIf),
    (OpVerIf, mkOpcode OpVerIf ''OP_VERIF'' 1 F_opcodeReserved),
    (OpVerNotIf, mkOpcode OpVerNotIf ''OP_VERNOTIF'' 1 F_opcodeReserved),
    (OpElse, mkOpcode OpElse ''OP_ELSE'' 1 F_opcodeElse),
    (OpEndIf, mkOpcode OpEndIf ''OP_ENDIF'' 1 F_opcodeEndif),
    (OpVerify, mkOpcode OpVerify ''OP_VERIFY'' 1 F_opcodeVerify),
    (OpReturn, mkOpcode OpReturn ''OP_RETURN'' 1 F_opcodeReturn),
    (OpCheckLockTimeVerify, mkOpcode OpCheckLockTimeVerify ''OP_CHECKLOCKTIMEVERIFY'' 1 F_opcodeCheckLockTimeVerify),
    (OpCheckSequenceVerify, mkOpcode OpCheckSequenceVerify ''OP_CHECKSEQUENCEVERIFY'' 1 F_opcodeCheckSequenceVerify)]"

definition stackOpcodes :: "(byte \<times> opcode) list" where
  "stackOpcodes = [
    (OpToAltStack, mkOpcode OpToAltStack ''OP_TOALTSTACK'' 1 F_opcodeToAltStack),
    (OpFromAltStack, mkOpcode OpFromAltStack ''OP_FROMALTSTACK'' 1 F_opcodeFromAltStack),
    (Op2Drop, mkOpcode Op2Drop ''OP_2DROP'' 1 F_opcode2Drop),
    (Op2Dup, mkOpcode Op2Dup ''OP_2DUP'' 1 F_opcode2Dup),
    (Op3Dup, mkOpcode Op3Dup ''OP_3DUP'' 1 F_opcode3Dup),
    (Op2Over, mkOpcode Op2Over ''OP_2OVER'' 1 F_opcode2Over),
    (Op2Rot, mkOpcode Op2Rot ''OP_2ROT'' 1 F_opcode2Rot),
    (Op2Swap, mkOpcode Op2Swap ''OP_2SWAP'' 1 F_opcode2Swap),
    (OpIfDup, mkOpcode OpIfDup ''OP_IFDUP'' 1 F_opcodeIfDup),
    (OpDepth, mkOpcode OpDepth ''OP_DEPTH'' 1 F_opcodeDepth),
    (OpDrop, mkOpcode OpDrop ''OP_DROP'' 1 F_opcodeDrop),
    (OpDup, mkOpcode OpDup ''OP_DUP'' 1 F_opcodeDup),
    (OpNip, mkOpcode OpNip ''OP_NIP'' 1 F_opcodeNip),
    (OpOver, mkOpcode OpOver ''OP_OVER'' 1 F_opcodeOver),
    (OpPick, mkOpcode OpPick ''OP_PICK'' 1 F_opcodePick),
    (OpRoll, mkOpcode OpRoll ''OP_ROLL'' 1 F_opcodeRoll),
    (OpRot, mkOpcode OpRot ''OP_ROT'' 1 F_opcodeRot),
    (OpSwap, mkOpcode OpSwap ''OP_SWAP'' 1 F_opcodeSwap),
    (OpTuck, mkOpcode OpTuck ''OP_TUCK'' 1 F_opcodeTuck)]"

definition spliceOpcodes :: "(byte \<times> opcode) list" where
  "spliceOpcodes = [
    (OpCat, mkOpcode OpCat ''OP_CAT'' 1 F_opcodeDisabled),
    (OpSubStr, mkOpcode OpSubStr ''OP_SUBSTR'' 1 F_opcodeDisabled),
    (OpLeft, mkOpcode OpLeft ''OP_LEFT'' 1 F_opcodeDisabled),
    (OpRight, mkOpcode OpRight ''OP_RIGHT'' 1 F_opcodeDisabled),
    (OpSize, mkOpcode OpSize ''OP_SIZE'' 1 F_opcodeSize)]"

definition bitwiseOpcodes :: "(byte \<times> opcode) list" where
  "bitwiseOpcodes = [
    (OpInvert, mkOpcode OpInvert ''OP_INVERT'' 1 F_opcodeDisabled),
    (OpAnd, mkOpcode OpAnd ''OP_AND'' 1 F_opcodeDisabled),
    (OpOr, mkOpcode OpOr ''OP_OR'' 1 F_opcodeDisabled),
    (OpXor, mkOpcode OpXor ''OP_XOR'' 1 F_opcodeDisabled),
    (OpEqual, mkOpcode OpEqual ''OP_EQUAL'' 1 F_opcodeEqual),
    (OpEqualVerify, mkOpcode OpEqualVerify ''OP_EQUALVERIFY'' 1 F_opcodeEqualVerify),
    (OpReserved1, mkOpcode OpReserved1 ''OP_RESERVED1'' 1 F_opcodeReserved),
    (OpReserved2, mkOpcode OpReserved2 ''OP_RESERVED2'' 1 F_opcodeReserved)]"

definition numericOpcodes :: "(byte \<times> opcode) list" where
  "numericOpcodes = [
    (Op1Add, mkOpcode Op1Add ''OP_1ADD'' 1 F_opcode1Add),
    (Op1Sub, mkOpcode Op1Sub ''OP_1SUB'' 1 F_opcode1Sub),
    (Op2Mul, mkOpcode Op2Mul ''OP_2MUL'' 1 F_opcodeDisabled),
    (Op2Div, mkOpcode Op2Div ''OP_2DIV'' 1 F_opcodeDisabled),
    (OpNegate, mkOpcode OpNegate ''OP_NEGATE'' 1 F_opcodeNegate),
    (OpAbs, mkOpcode OpAbs ''OP_ABS'' 1 F_opcodeAbs),
    (OpNot, mkOpcode OpNot ''OP_NOT'' 1 F_opcodeNot),
    (Op0NotEqual, mkOpcode Op0NotEqual ''OP_0NOTEQUAL'' 1 F_opcode0NotEqual),
    (OpAdd, mkOpcode OpAdd ''OP_ADD'' 1 F_opcodeAdd),
    (OpSub, mkOpcode OpSub ''OP_SUB'' 1 F_opcodeSub),
    (OpMul, mkOpcode OpMul ''OP_MUL'' 1 F_opcodeDisabled),
    (OpDiv, mkOpcode OpDiv ''OP_DIV'' 1 F_opcodeDisabled),
    (OpMod, mkOpcode OpMod ''OP_MOD'' 1 F_opcodeDisabled),
    (OpLShift, mkOpcode OpLShift ''OP_LSHIFT'' 1 F_opcodeDisabled),
    (OpRShift, mkOpcode OpRShift ''OP_RSHIFT'' 1 F_opcodeDisabled),
    (OpBoolAnd, mkOpcode OpBoolAnd ''OP_BOOLAND'' 1 F_opcodeBoolAnd),
    (OpBoolOr, mkOpcode OpBoolOr ''OP_BOOLOR'' 1 F_opcodeBoolOr),
    (OpNumEqual, mkOpcode OpNumEqual ''OP_NUMEQUAL'' 1 F_opcodeNumEqual),
    (OpNumEqualVerify, mkOpcode OpNumEqualVerify ''OP_NUMEQUALVERIFY'' 1 F_opcodeNumEqualVerify),
    (OpNumNotEqual, mkOpcode OpNumNotEqual ''OP_NUMNOTEQUAL'' 1 F_opcodeNumNotEqual),
    (OpLessThan, mkOpcode OpLessThan ''OP_LESSTHAN'' 1 F_opcodeLessThan),
    (OpGreaterThan, mkOpcode OpGreaterThan ''OP_GREATERTHAN'' 1 F_opcodeGreaterThan),
    (OpLessThanOrEqual, mkOpcode OpLessThanOrEqual ''OP_LESSTHANOREQUAL'' 1 F_opcodeLessThanOrEqual),
    (OpGreaterThanOrEqual, mkOpcode OpGreaterThanOrEqual ''OP_GREATERTHANOREQUAL'' 1 F_opcodeGreaterThanOrEqual),
    (OpMin, mkOpcode OpMin ''OP_MIN'' 1 F_opcodeMin),
    (OpMax, mkOpcode OpMax ''OP_MAX'' 1 F_opcodeMax),
    (OpWithin, mkOpcode OpWithin ''OP_WITHIN'' 1 F_opcodeWithin)]"

definition cryptoOpcodes :: "(byte \<times> opcode) list" where
  "cryptoOpcodes = [
    (OpCheckMultiSigECDSA, mkOpcode OpCheckMultiSigECDSA ''OP_CHECKMULTISIGECDSA'' 1 F_opcodeCheckMultiSigECDSA),
    (OpSHA256, mkOpcode OpSHA256 ''OP_SHA256'' 1 F_opcodeSha256),
    (OpBlake2b, mkOpcode OpBlake2b ''OP_BLAKE2B'' 1 F_opcodeBlake2b),
    (OpCheckSigECDSA, mkOpcode OpCheckSigECDSA ''OP_CHECKSIGECDSA'' 1 F_opcodeCheckSigECDSA),
    (OpCheckSig, mkOpcode OpCheckSig ''OP_CHECKSIG'' 1 F_opcodeCheckSig),
    (OpCheckSigVerify, mkOpcode OpCheckSigVerify ''OP_CHECKSIGVERIFY'' 1 F_opcodeCheckSigVerify),
    (OpCheckMultiSig, mkOpcode OpCheckMultiSig ''OP_CHECKMULTISIG'' 1 F_opcodeCheckMultiSig),
    (OpCheckMultiSigVerify, mkOpcode OpCheckMultiSigVerify ''OP_CHECKMULTISIGVERIFY'' 1 F_opcodeCheckMultiSigVerify)]"

definition undefinedOpcodes :: "(byte \<times> opcode) list" where
  "undefinedOpcodes = [
    (OpUnknown166, mkOpcode OpUnknown166 ''OP_UNKNOWN166'' 1 F_opcodeInvalid),
    (OpUnknown167, mkOpcode OpUnknown167 ''OP_UNKNOWN167'' 1 F_opcodeInvalid),
    (OpUnknown178, mkOpcode OpUnknown188 ''OP_UNKNOWN178'' 1 F_opcodeInvalid),
    (OpUnknown179, mkOpcode OpUnknown189 ''OP_UNKNOWN179'' 1 F_opcodeInvalid),
    (OpUnknown180, mkOpcode OpUnknown190 ''OP_UNKNOWN180'' 1 F_opcodeInvalid),
    (OpUnknown181, mkOpcode OpUnknown191 ''OP_UNKNOWN181'' 1 F_opcodeInvalid),
    (OpUnknown182, mkOpcode OpUnknown192 ''OP_UNKNOWN182'' 1 F_opcodeInvalid),
    (OpUnknown183, mkOpcode OpUnknown193 ''OP_UNKNOWN183'' 1 F_opcodeInvalid),
    (OpUnknown184, mkOpcode OpUnknown194 ''OP_UNKNOWN184'' 1 F_opcodeInvalid),
    (OpUnknown185, mkOpcode OpUnknown195 ''OP_UNKNOWN185'' 1 F_opcodeInvalid),
    (OpUnknown186, mkOpcode OpUnknown196 ''OP_UNKNOWN186'' 1 F_opcodeInvalid),
    (OpUnknown187, mkOpcode OpUnknown197 ''OP_UNKNOWN187'' 1 F_opcodeInvalid),
    (OpUnknown188, mkOpcode OpUnknown188 ''OP_UNKNOWN188'' 1 F_opcodeInvalid),
    (OpUnknown189, mkOpcode OpUnknown189 ''OP_UNKNOWN189'' 1 F_opcodeInvalid),
    (OpUnknown190, mkOpcode OpUnknown190 ''OP_UNKNOWN190'' 1 F_opcodeInvalid),
    (OpUnknown191, mkOpcode OpUnknown191 ''OP_UNKNOWN191'' 1 F_opcodeInvalid),
    (OpUnknown192, mkOpcode OpUnknown192 ''OP_UNKNOWN192'' 1 F_opcodeInvalid),
    (OpUnknown193, mkOpcode OpUnknown193 ''OP_UNKNOWN193'' 1 F_opcodeInvalid),
    (OpUnknown194, mkOpcode OpUnknown194 ''OP_UNKNOWN194'' 1 F_opcodeInvalid),
    (OpUnknown195, mkOpcode OpUnknown195 ''OP_UNKNOWN195'' 1 F_opcodeInvalid),
    (OpUnknown196, mkOpcode OpUnknown196 ''OP_UNKNOWN196'' 1 F_opcodeInvalid),
    (OpUnknown197, mkOpcode OpUnknown197 ''OP_UNKNOWN197'' 1 F_opcodeInvalid),
    (OpUnknown198, mkOpcode OpUnknown198 ''OP_UNKNOWN198'' 1 F_opcodeInvalid),
    (OpUnknown199, mkOpcode OpUnknown199 ''OP_UNKNOWN199'' 1 F_opcodeInvalid),
    (OpUnknown200, mkOpcode OpUnknown200 ''OP_UNKNOWN200'' 1 F_opcodeInvalid),
    (OpUnknown201, mkOpcode OpUnknown201 ''OP_UNKNOWN201'' 1 F_opcodeInvalid),
    (OpUnknown202, mkOpcode OpUnknown202 ''OP_UNKNOWN202'' 1 F_opcodeInvalid),
    (OpUnknown203, mkOpcode OpUnknown203 ''OP_UNKNOWN203'' 1 F_opcodeInvalid),
    (OpUnknown204, mkOpcode OpUnknown204 ''OP_UNKNOWN204'' 1 F_opcodeInvalid),
    (OpUnknown205, mkOpcode OpUnknown205 ''OP_UNKNOWN205'' 1 F_opcodeInvalid),
    (OpUnknown206, mkOpcode OpUnknown206 ''OP_UNKNOWN206'' 1 F_opcodeInvalid),
    (OpUnknown207, mkOpcode OpUnknown207 ''OP_UNKNOWN207'' 1 F_opcodeInvalid),
    (OpUnknown208, mkOpcode OpUnknown208 ''OP_UNKNOWN208'' 1 F_opcodeInvalid),
    (OpUnknown209, mkOpcode OpUnknown209 ''OP_UNKNOWN209'' 1 F_opcodeInvalid),
    (OpUnknown210, mkOpcode OpUnknown210 ''OP_UNKNOWN210'' 1 F_opcodeInvalid),
    (OpUnknown211, mkOpcode OpUnknown211 ''OP_UNKNOWN211'' 1 F_opcodeInvalid),
    (OpUnknown212, mkOpcode OpUnknown212 ''OP_UNKNOWN212'' 1 F_opcodeInvalid),
    (OpUnknown213, mkOpcode OpUnknown213 ''OP_UNKNOWN213'' 1 F_opcodeInvalid),
    (OpUnknown214, mkOpcode OpUnknown214 ''OP_UNKNOWN214'' 1 F_opcodeInvalid),
    (OpUnknown215, mkOpcode OpUnknown215 ''OP_UNKNOWN215'' 1 F_opcodeInvalid),
    (OpUnknown216, mkOpcode OpUnknown216 ''OP_UNKNOWN216'' 1 F_opcodeInvalid),
    (OpUnknown217, mkOpcode OpUnknown217 ''OP_UNKNOWN217'' 1 F_opcodeInvalid),
    (OpUnknown218, mkOpcode OpUnknown218 ''OP_UNKNOWN218'' 1 F_opcodeInvalid),
    (OpUnknown219, mkOpcode OpUnknown219 ''OP_UNKNOWN219'' 1 F_opcodeInvalid),
    (OpUnknown220, mkOpcode OpUnknown220 ''OP_UNKNOWN220'' 1 F_opcodeInvalid),
    (OpUnknown221, mkOpcode OpUnknown221 ''OP_UNKNOWN221'' 1 F_opcodeInvalid),
    (OpUnknown222, mkOpcode OpUnknown222 ''OP_UNKNOWN222'' 1 F_opcodeInvalid),
    (OpUnknown223, mkOpcode OpUnknown223 ''OP_UNKNOWN223'' 1 F_opcodeInvalid),
    (OpUnknown224, mkOpcode OpUnknown224 ''OP_UNKNOWN224'' 1 F_opcodeInvalid),
    (OpUnknown225, mkOpcode OpUnknown225 ''OP_UNKNOWN225'' 1 F_opcodeInvalid),
    (OpUnknown226, mkOpcode OpUnknown226 ''OP_UNKNOWN226'' 1 F_opcodeInvalid),
    (OpUnknown227, mkOpcode OpUnknown227 ''OP_UNKNOWN227'' 1 F_opcodeInvalid),
    (OpUnknown228, mkOpcode OpUnknown228 ''OP_UNKNOWN228'' 1 F_opcodeInvalid),
    (OpUnknown229, mkOpcode OpUnknown229 ''OP_UNKNOWN229'' 1 F_opcodeInvalid),
    (OpUnknown230, mkOpcode OpUnknown230 ''OP_UNKNOWN230'' 1 F_opcodeInvalid),
    (OpUnknown231, mkOpcode OpUnknown231 ''OP_UNKNOWN231'' 1 F_opcodeInvalid),
    (OpUnknown232, mkOpcode OpUnknown232 ''OP_UNKNOWN232'' 1 F_opcodeInvalid),
    (OpUnknown233, mkOpcode OpUnknown233 ''OP_UNKNOWN233'' 1 F_opcodeInvalid),
    (OpUnknown234, mkOpcode OpUnknown234 ''OP_UNKNOWN234'' 1 F_opcodeInvalid),
    (OpUnknown235, mkOpcode OpUnknown235 ''OP_UNKNOWN235'' 1 F_opcodeInvalid),
    (OpUnknown236, mkOpcode OpUnknown236 ''OP_UNKNOWN236'' 1 F_opcodeInvalid),
    (OpUnknown237, mkOpcode OpUnknown237 ''OP_UNKNOWN237'' 1 F_opcodeInvalid),
    (OpUnknown238, mkOpcode OpUnknown238 ''OP_UNKNOWN238'' 1 F_opcodeInvalid),
    (OpUnknown239, mkOpcode OpUnknown239 ''OP_UNKNOWN239'' 1 F_opcodeInvalid),
    (OpUnknown240, mkOpcode OpUnknown240 ''OP_UNKNOWN240'' 1 F_opcodeInvalid),
    (OpUnknown241, mkOpcode OpUnknown241 ''OP_UNKNOWN241'' 1 F_opcodeInvalid),
    (OpUnknown242, mkOpcode OpUnknown242 ''OP_UNKNOWN242'' 1 F_opcodeInvalid),
    (OpUnknown243, mkOpcode OpUnknown243 ''OP_UNKNOWN243'' 1 F_opcodeInvalid),
    (OpUnknown244, mkOpcode OpUnknown244 ''OP_UNKNOWN244'' 1 F_opcodeInvalid),
    (OpUnknown245, mkOpcode OpUnknown245 ''OP_UNKNOWN245'' 1 F_opcodeInvalid),
    (OpUnknown246, mkOpcode OpUnknown246 ''OP_UNKNOWN246'' 1 F_opcodeInvalid),
    (OpUnknown247, mkOpcode OpUnknown247 ''OP_UNKNOWN247'' 1 F_opcodeInvalid),
    (OpUnknown248, mkOpcode OpUnknown248 ''OP_UNKNOWN248'' 1 F_opcodeInvalid),
    (OpUnknown249, mkOpcode OpUnknown249 ''OP_UNKNOWN249'' 1 F_opcodeInvalid),
    (OpSmallInteger, mkOpcode OpSmallInteger ''OP_SMALLINTEGER'' 1 F_opcodeInvalid),
    (OpPubKeys, mkOpcode OpPubKeys ''OP_PUBKEYS'' 1 F_opcodeInvalid),
    (OpUnknown252, mkOpcode OpUnknown252 ''OP_UNKNOWN252'' 1 F_opcodeInvalid),
    (OpPubKeyHash, mkOpcode OpPubKeyHash ''OP_PUBKEYHASH'' 1 F_opcodeInvalid),
    (OpPubKey, mkOpcode OpPubKey ''OP_PUBKEY'' 1 F_opcodeInvalid),
    (OpInvalidOpCode, mkOpcode OpInvalidOpCode ''OP_INVALIDOPCODE'' 1 F_opcodeInvalid)]"

definition opcodeTable :: "(byte \<times> opcode) list" where
  "opcodeTable = dataPushOpcodes @ controlOpcodes @ stackOpcodes @ spliceOpcodes @ bitwiseOpcodes @
     numericOpcodes @ cryptoOpcodes @ undefinedOpcodes"

text \<open>
  \<^verbatim>\<open>opcodeArray\<close> is an array literal with explicit indices; an index without an entry would hold
  the zero value, with length 0.
\<close>

definition opcodeArray :: "byte \<Rightarrow> opcode" where
  "opcodeArray b = (case map_of opcodeTable b of Some op \<Rightarrow> op
     | None \<Rightarrow> mkOpcode 0 [] 0 F_opcodeInvalid)"

section \<open>Facts read off the table\<close>

lemma opcodeTable_keys: "sort (map (unat \<circ> fst) opcodeTable) = [0..<256]"
  by code_simp

lemma opcodeTable_total: "b \<in> fst ` set opcodeTable"
proof -
  have "unat ` fst ` set opcodeTable = set (sort (map (unat \<circ> fst) opcodeTable))"
    by (simp add: image_comp)
  also have "\<dots> = {0..<256}" unfolding opcodeTable_keys by simp
  finally have "unat b \<in> unat ` fst ` set opcodeTable" by simp
  then show ?thesis by (auto simp: word_unat_eq_iff [symmetric] image_iff)
qed

lemma opcodeArray_in_table: "(b, opcodeArray b) \<in> set opcodeTable"
proof -
  obtain op where "map_of opcodeTable b = Some op"
    using opcodeTable_total [of b] by (metis map_of_eq_None_iff not_Some_eq)
  then show ?thesis by (simp add: opcodeArray_def map_of_SomeD)
qed

lemma opcodeArray_all: "list_all (\<lambda>(b, op). P b op) opcodeTable \<Longrightarrow> P b (opcodeArray b)"
  using opcodeArray_in_table [of b] by (auto simp: list_all_iff)

text \<open>
  The entries 178 to 187 carry the values of 188 to 197; every other entry carries its own
  index.
\<close>

definition misnumbered :: "byte \<Rightarrow> bool" where
  "misnumbered b \<longleftrightarrow> 178 \<le> b \<and> b \<le> 187"

lemma opcodeArray_value: "op_value (opcodeArray b) = (if misnumbered b then b + 10 else b)"
  by (rule opcodeArray_all [where P = "\<lambda>b op. op_value op = (if misnumbered b then b + 10 else b)"])
    code_simp

definition data_length :: "byte \<Rightarrow> int" where
  "data_length b =
     (if b = 0 then 1 else if b \<le> 75 then uint b + 1
      else if b = OpPushData1 then -1 else if b = OpPushData2 then -2
      else if b = OpPushData4 then -4 else 1)"

lemma opcodeArray_length: "op_length (opcodeArray b) = data_length b"
  by (rule opcodeArray_all [where P = "\<lambda>b op. op_length op = data_length b"]) code_simp

lemma op_length_nonzero: "op_length (opcodeArray b) \<noteq> 0"
proof -
  have "0 \<le> uint b" by simp
  then have "uint b + 1 \<noteq> 0" by linarith
  then show ?thesis by (simp add: opcodeArray_length data_length_def)
qed

lemma unknown_names_distinct:
  "distinct (map (op_name \<circ> snd) (filter (\<lambda>(b, op). 178 \<le> b \<and> b \<le> 197) opcodeTable))"
  by code_simp

lemma misnumbered_entry:
  assumes "misnumbered b"
  shows "opcodeArray b \<noteq> opcodeArray (op_value (opcodeArray b))"
proof
  let ?R = "filter (\<lambda>(b, op). 178 \<le> b \<and> b \<le> 197) opcodeTable"
  assume eq: "opcodeArray b = opcodeArray (op_value (opcodeArray b))"
  have b: "178 \<le> b" "b \<le> 187" using assms by (simp_all add: misnumbered_def)
  then have "178 \<le> b + 10 \<and> b + 10 \<le> 197" "b + 10 \<noteq> b" "b \<le> 197" by (simp_all add: word_le_nat_alt unat_word_ariths)
  moreover have "op_value (opcodeArray b) = b + 10" using assms by (simp add: opcodeArray_value)
  ultimately have "(b, opcodeArray b) \<in> set ?R" "(b + 10, opcodeArray b) \<in> set ?R"
    using b opcodeArray_in_table [of b] opcodeArray_in_table [of "b + 10"] eq by simp_all
  then have "b = b + 10"
    using unknown_names_distinct unfolding distinct_map inj_on_def by fastforce
  with \<open>b + 10 \<noteq> b\<close> show False by simp
qed

end
