(* ===== verification/ScriptParse.thy ===== *)
theory ScriptParse
  imports Opcode
begin

text \<open>
  Parsing and unparsing of scripts (\<^verbatim>\<open>txscript/script.go\<close> and the methods of \<^verbatim>\<open>parsedOpcode\<close> in
  \<^verbatim>\<open>txscript/opcode.go\<close>), the script predicates and the signature-operation counts.
\<close>

section \<open>Parsed opcodes\<close>

text \<open>The data of a parsed opcode is a Go slice: \<open>None\<close> is the nil slice.\<close>

record parsedOpcode =
  pop_opcode :: opcode
  pop_data :: "bytes option"

definition dataOf :: "parsedOpcode \<Rightarrow> bytes" where
  "dataOf pop = (case pop_data pop of None \<Rightarrow> [] | Some d \<Rightarrow> d)"

abbreviation pop_value :: "parsedOpcode \<Rightarrow> byte" where
  "pop_value pop \<equiv> op_value (pop_opcode pop)"

definition isDisabled :: "parsedOpcode \<Rightarrow> bool" where
  "isDisabled pop \<longleftrightarrow> pop_value pop \<in> {OpCat, OpSubStr, OpLeft, OpRight, OpInvert, OpAnd, OpOr, OpXor,
     Op2Mul, Op2Div, OpMul, OpDiv, OpMod, OpLShift, OpRShift}"

definition alwaysIllegal :: "parsedOpcode \<Rightarrow> bool" where
  "alwaysIllegal pop \<longleftrightarrow> pop_value pop \<in> {OpVerIf, OpVerNotIf}"

definition isConditional :: "parsedOpcode \<Rightarrow> bool" where
  "isConditional pop \<longleftrightarrow> pop_value pop \<in> {OpIf, OpNotIf, OpElse, OpEndIf}"

definition checkMinimalDataPush :: "parsedOpcode \<Rightarrow> unit outcome" where
  "checkMinimalDataPush pop =
     (let data = dataOf pop; dataLen = length data; opcode = pop_value pop
      in if dataLen = 0 \<and> opcode \<noteq> Op0 then scriptError ErrMinimalData
         else if dataLen = 1 \<and> data ! 0 \<ge> 1 \<and> data ! 0 \<le> 16
         then (if opcode \<noteq> Op1 + data ! 0 - 1 then scriptError ErrMinimalData else Inr ())
         else if dataLen = 1 \<and> data ! 0 = 0x81
         then (if opcode \<noteq> Op1Negate then scriptError ErrMinimalData else Inr ())
         else if dataLen \<le> 75
         then (if unat opcode \<noteq> dataLen then scriptError ErrMinimalData else Inr ())
         else if dataLen \<le> 255
         then (if opcode \<noteq> OpPushData1 then scriptError ErrMinimalData else Inr ())
         else if dataLen \<le> 65535
         then (if opcode \<noteq> OpPushData2 then scriptError ErrMinimalData else Inr ())
         else Inr ())"

text \<open>
  \<open>pop_bytes\<close> is \<^verbatim>\<open>parsedOpcode.bytes\<close>: the opcode byte, the length field and the data, with the
  consistency check on the total.
\<close>

definition pop_bytes :: "parsedOpcode \<Rightarrow> bytes outcome" where
  "pop_bytes pop =
     (let len = op_length (pop_opcode pop); v = pop_value pop; data = dataOf pop; l = length data
      in if len = 1
         then (if l \<noteq> 0 then scriptError ErrInternal else Inr [v])
         else let (hdr, nbytes) =
                (if len = -1
                 then ([v, word_of_nat l], int (unat (word_of_nat l :: byte)) + 2)
                 else if len = -2
                 then (let f = [word_of_nat l, word_of_nat (drop_bit 8 l)] in (v # f, int (getLE f) + 3))
                 else if len = -4
                 then (let f = [word_of_nat l, word_of_nat (drop_bit 8 l), word_of_nat (drop_bit 16 l),
                                word_of_nat (drop_bit 24 l)] in (v # f, int (getLE f) + 5))
                 else ([v], len))
              in if int (length (hdr @ data)) \<noteq> nbytes then scriptError ErrInternal
                 else Inr (hdr @ data))"

section \<open>Parsing\<close>

text \<open>
  One iteration of the loop of \<^verbatim>\<open>parseScriptTemplate\<close> on the table \<^verbatim>\<open>opcodeArray\<close>: \<open>instr\<close> is the
  byte at the current index, \<open>rest\<close> what follows it. The result is the parsed opcode and the
  unread rest. With length 0 no case of the switch applies and the index stays where it is.
\<close>

definition pushLength :: "int \<Rightarrow> bytes \<Rightarrow> uint64 outcome" where
  "pushLength len rest =
     (if len = -1 then Inr (ucast (rest ! 0))
      else if len = -2 then Inr (push_bit 8 (ucast (rest ! 1)) OR ucast (rest ! 0))
      else if len = -4
      then Inr (push_bit 24 (ucast (rest ! 3)) OR push_bit 16 (ucast (rest ! 2))
                OR push_bit 8 (ucast (rest ! 1)) OR ucast (rest ! 0))
      else scriptError ErrMalformedPush)"

definition parseOne :: "byte \<Rightarrow> bytes \<Rightarrow> (parsedOpcode \<times> bytes) outcome" where
  "parseOne instr rest =
     (let op = opcodeArray instr; len = op_length op
      in if len = 1 then Inr (\<lparr>pop_opcode = op, pop_data = None\<rparr>, rest)
         else if len > 1
         then (if int (length (instr # rest)) < len then scriptError ErrMalformedPush
               else Inr (\<lparr>pop_opcode = op, pop_data = Some (take (nat len - 1) rest)\<rparr>,
                         drop (nat len - 1) rest))
         else if len < 0
         then (if int (length rest) < - len then scriptError ErrMalformedPush
               else bindR (pushLength len rest) (\<lambda>l.
                 let tail = drop (nat (- len)) rest
                 in if sint l > int (length tail) \<or> sint l < 0 then scriptError ErrMalformedPush
                    else Inr (\<lparr>pop_opcode = op, pop_data = Some (take (nat (sint l)) tail)\<rparr>,
                              drop (nat (sint l)) tail)))
         else Inr (\<lparr>pop_opcode = op, pop_data = None\<rparr>, instr # rest))"

lemma parseOne_shrinks:
  "parseOne instr rest = Inr (pop, rest') \<Longrightarrow> length rest' \<le> length rest"
  using op_length_nonzero [of instr]
  by (auto simp: parseOne_def Let_def bindR_Inr_iff split: if_splits)

text \<open>
  The loop returns the opcodes parsed so far together with the error, if any, as the code does.
\<close>

function parseLoop :: "bytes \<Rightarrow> parsedOpcode list \<times> failure option" where
  "parseLoop [] = ([], None)"
| "parseLoop (instr # rest) =
     (case parseOne instr rest of
        Inl e \<Rightarrow> ([], Some e)
      | Inr (pop, rest') \<Rightarrow> (case parseLoop rest' of (pops, e) \<Rightarrow> (pop # pops, e)))"
  by pat_completeness auto
termination
  by (relation "measure length") (auto dest: parseOne_shrinks simp: less_Suc_eq_le)

definition parseScript :: "bytes \<Rightarrow> parsedOpcode list \<times> failure option" where
  "parseScript script = parseLoop script"

text \<open>The result of \<^verbatim>\<open>parseScript\<close> where the caller gives up on an error.\<close>

definition parseScript_or_fail :: "bytes \<Rightarrow> parsedOpcode list outcome" where
  "parseScript_or_fail script =
     (case parseScript script of (pops, None) \<Rightarrow> Inr pops | (_, Some e) \<Rightarrow> Inl e)"

primrec unparseScript :: "parsedOpcode list \<Rightarrow> bytes outcome" where
  "unparseScript [] = Inr []"
| "unparseScript (pop # pops) =
     bindR (pop_bytes pop) (\<lambda>b. bindR (unparseScript pops) (\<lambda>s. Inr (b @ s)))"

section \<open>Predicates and counts\<close>

definition MaxOpsPerScript :: int where "MaxOpsPerScript = 201"
definition MaxPubKeysPerMultiSig :: int where "MaxPubKeysPerMultiSig = 20"
definition MaxScriptElementSize :: nat where "MaxScriptElementSize = 520"

definition isSmallInt :: "opcode \<Rightarrow> bool" where
  "isSmallInt op \<longleftrightarrow> op_value op = Op0 \<or> (op_value op \<ge> Op1 \<and> op_value op \<le> Op16)"

definition isScriptHash :: "parsedOpcode list \<Rightarrow> bool" where
  "isScriptHash pops \<longleftrightarrow> length pops = 3 \<and> pop_value (pops ! 0) = OpBlake2b \<and>
     pop_value (pops ! 1) = OpData32 \<and> pop_value (pops ! 2) = OpEqual"

definition IsPayToScriptHash :: "bytes \<Rightarrow> bool" where
  "IsPayToScriptHash script =
     (case parseScript script of (pops, None) \<Rightarrow> isScriptHash pops | (_, Some _) \<Rightarrow> False)"

definition isPushOnly :: "parsedOpcode list \<Rightarrow> bool" where
  "isPushOnly pops \<longleftrightarrow> list_all (\<lambda>pop. \<not> pop_value pop > Op16) pops"

definition canonicalPush :: "parsedOpcode \<Rightarrow> bool" where
  "canonicalPush pop =
     (let opcode = pop_value pop; data = dataOf pop; dataLen = length data
      in if opcode > Op16 then True
         else if opcode < OpPushData1 \<and> opcode > Op0 \<and> (dataLen = 1 \<and> data ! 0 \<le> 16) then False
         else if opcode = OpPushData1 \<and> dataLen < 0x4c then False
         else if opcode = OpPushData2 \<and> dataLen \<le> 0xff then False
         else if opcode = OpPushData4 \<and> dataLen \<le> 0xffff then False
         else True)"

definition asSmallInt :: "opcode \<Rightarrow> int" where
  "asSmallInt op = (if op_value op = Op0 then 0 else uint (op_value op - (Op1 - 1)))"

text \<open>
  The loop of \<^verbatim>\<open>getSigOpCount\<close>; \<open>prev\<close> is the opcode before the current one, if there is one.
\<close>

fun sigOps_loop :: "bool \<Rightarrow> parsedOpcode option \<Rightarrow> parsedOpcode list \<Rightarrow> int \<Rightarrow> int" where
  "sigOps_loop precise prev [] nSigs = nSigs"
| "sigOps_loop precise prev (pop # pops) nSigs =
     (let v = pop_value pop
      in sigOps_loop precise (Some pop) pops
        (if v \<in> {OpCheckSig, OpCheckSigVerify, OpCheckSigECDSA} then nSigs + 1
         else if v \<in> {OpCheckMultiSig, OpCheckMultiSigVerify, OpCheckMultiSigECDSA}
         then (case prev of
                 Some p \<Rightarrow> if precise \<and> pop_value p \<ge> Op1 \<and> pop_value p \<le> Op16
                           then nSigs + asSmallInt (pop_opcode p)
                           else nSigs + MaxPubKeysPerMultiSig
               | None \<Rightarrow> nSigs + MaxPubKeysPerMultiSig)
         else nSigs))"

definition getSigOpCount :: "parsedOpcode list \<Rightarrow> bool \<Rightarrow> int" where
  "getSigOpCount pops precise = sigOps_loop precise None pops 0"

definition GetSigOpCount :: "bytes \<Rightarrow> int" where
  "GetSigOpCount script = getSigOpCount (fst (parseScript script)) False"

definition GetPreciseSigOpCount :: "bytes \<Rightarrow> bytes \<Rightarrow> bool \<Rightarrow> int" where
  "GetPreciseSigOpCount scriptSig scriptPubKey isP2SH =
     (let pops = fst (parseScript scriptPubKey)
      in if \<not> (isP2SH \<and> isScriptHash pops) then getSigOpCount pops True
         else case parseScript scriptSig of
                (_, Some _) \<Rightarrow> 0
              | (sigPops, None) \<Rightarrow>
                  if \<not> isPushOnly sigPops \<or> length sigPops = 0 then 0
                  else let shScript = dataOf (sigPops ! (length sigPops - 1))
                       in if length shScript = 0 then 0
                          else getSigOpCount (fst (parseScript shScript)) True)"

definition IsUnspendable :: "bytes \<Rightarrow> bool" where
  "IsUnspendable scriptPubKey =
     (case parseScript scriptPubKey of
        (_, Some _) \<Rightarrow> True
      | (pops, None) \<Rightarrow> length pops > 0 \<and> pop_value (pops ! 0) = OpReturn)"

section \<open>The length field\<close>

lemma uint_push_ucast:
  "n \<le> 24 \<Longrightarrow> uint (push_bit n (ucast (b :: byte) :: uint64)) = push_bit n (uint b)"
proof -
  assume n: "n \<le> 24"
  have "uint b < 2 ^ 8" using uint_bounded [of b] by simp
  then have "uint b * 2 ^ n < 2 ^ 8 * 2 ^ n" by simp
  also have "\<dots> \<le> 2 ^ 8 * 2 ^ 24" using n by (intro mult_left_mono power_increasing) auto
  finally have small: "push_bit n (uint b) < 2 ^ 64" by (simp add: push_bit_eq_mult)
  have "uint (ucast b :: uint64) = uint b"
    using \<open>uint b < 2 ^ 8\<close> by (simp only: unsigned_ucast_eq) (simp add: take_bit_int_eq_self)
  then have "uint (push_bit n (ucast b :: uint64)) = take_bit 64 (push_bit n (uint b))"
    by (simp only: unsigned_push_bit_eq) simp
  with small show ?thesis by (simp only: take_bit_int_eq_self push_bit_nonnegative_int_iff uint_ge_0)
qed

lemma uint_ucast_byte: "uint (ucast (b :: byte) :: uint64) = uint b"
  using uint_push_ucast [of 0 b] by simp

lemma uint_byte_less: "uint (b :: byte) < 256"
  using uint_bounded [of b] by simp

lemma or_shift_byte:
  assumes "k = 8 * i" "0 \<le> x" "x < 2 ^ k"
  shows "push_bit k (uint (b :: byte)) OR x = x + 2 ^ k * uint b \<and> x + 2 ^ k * uint b < 2 ^ (k + 8)"
proof -
  have "x + 2 ^ k * uint b < 2 ^ k * (uint b + 1)" using assms(3) by (simp add: algebra_simps)
  also have "\<dots> \<le> 2 ^ k * 256" using uint_byte_less [of b] by (intro mult_left_mono) auto
  finally show ?thesis
    using or_push_bit_eq_add [OF assms(2,3), of "uint b"]
    by (simp add: or.commute push_bit_eq_mult power_add mult.commute)
qed

lemma uint_pushLength_2:
  "uint (push_bit 8 (ucast b1) OR ucast b0 :: uint64) = uint (b0 :: byte) + 256 * uint (b1 :: byte)"
  using or_shift_byte [of 8 1 "uint b0" b1] uint_byte_less [of b0]
  by (simp add: unsigned_or_eq uint_push_ucast uint_ucast_byte)

lemma uint_pushLength_4:
  "uint (push_bit 24 (ucast b3) OR push_bit 16 (ucast b2) OR push_bit 8 (ucast b1) OR ucast b0 :: uint64)
     = uint (b0 :: byte) + 2 ^ 8 * uint (b1 :: byte) + 2 ^ 16 * uint (b2 :: byte) + 2 ^ 24 * uint (b3 :: byte)"
proof -
  let ?x1 = "uint b0 + 2 ^ 8 * uint b1" and ?x2 = "uint b0 + 2 ^ 8 * uint b1 + 2 ^ 16 * uint b2"
  have "uint (push_bit 24 (ucast b3) OR push_bit 16 (ucast b2) OR push_bit 8 (ucast b1) OR ucast b0 :: uint64)
      = push_bit 24 (uint b3) OR (push_bit 16 (uint b2) OR (push_bit 8 (uint b1) OR uint b0))"
    by (simp add: unsigned_or_eq uint_push_ucast uint_ucast_byte or.assoc)
  moreover have e1: "push_bit 8 (uint b1) OR uint b0 = ?x1" and l1: "?x1 < 2 ^ 16"
    using or_shift_byte [of 8 1 "uint b0" b1] uint_byte_less [of b0] by simp_all
  moreover have e2: "push_bit 16 (uint b2) OR ?x1 = ?x2" and l2: "?x2 < 2 ^ 24"
    using or_shift_byte [of 16 2 ?x1 b2] l1 by simp_all
  moreover have e3: "push_bit 24 (uint b3) OR ?x2 = ?x2 + 2 ^ 24 * uint b3"
    using or_shift_byte [of 24 3 ?x2 b3] l2 by simp
  ultimately show ?thesis by (simp only: e1 e2 e3)
qed

lemma sint_small: "uint (l :: uint64) < 2 ^ 63 \<Longrightarrow> sint l = uint l"
proof -
  assume "uint l < 2 ^ 63"
  moreover have "- (2 ^ 63) \<le> uint l" by (rule order_trans [of _ 0]) simp_all
  ultimately show ?thesis by (subst sint_uint) (simp add: signed_take_bit_int_eq_self)
qed

lemma pushLength_getLE:
  assumes "len \<in> {-1, -2, -4}" "nat (- len) \<le> length rest"
  shows "\<exists>l. pushLength len rest = Inr l \<and> sint l = int (getLE (take (nat (- len)) rest))"
proof -
  have L: "\<exists>l. pushLength len rest = Inr l \<and> uint l = int (getLE (take (nat (- len)) rest))"
  proof -
    consider "len = -1" | "len = -2" | "len = -4" using assms(1) by blast
    then show ?thesis
    proof cases
      case 1
      with assms(2) obtain b0 r where "rest = b0 # r" by (cases rest) auto
      with 1 show ?thesis by (simp add: pushLength_def uint_ucast_byte)
    next
      case 2
      then have "2 \<le> length rest" using assms(2) by simp
      then obtain b0 b1 r where "rest = b0 # b1 # r"
        by (auto simp: Suc_le_length_iff numeral_2_eq_2)
      with 2 show ?thesis by (simp add: pushLength_def uint_pushLength_2 numeral_2_eq_2)
    next
      case 3
      then have "4 \<le> length rest" using assms(2) by simp
      then obtain b0 b1 b2 b3 r where "rest = b0 # b1 # b2 # b3 # r"
        by (auto simp: Suc_le_length_iff eval_nat_numeral)
      with 3 show ?thesis by (simp add: pushLength_def uint_pushLength_4)
    qed
  qed
  have "getLE (take (nat (- len)) rest) < 256 ^ nat (- len)"
    using getLE_bound [of "take (nat (- len)) rest"] assms(2) by simp
  also have "\<dots> \<le> 256 ^ 4" using assms(1) by (intro power_increasing) auto
  finally have "int (getLE (take (nat (- len)) rest)) < 2 ^ 63" by simp
  with L show ?thesis by (metis sint_small)
qed

section \<open>Shapes of parsed opcodes\<close>

text \<open>
  The data a parsed opcode may carry: none for a one-byte opcode, the fixed number of bytes for
  \<^verbatim>\<open>OP_DATA_n\<close>, as many as the length field can express for \<^verbatim>\<open>OP_PUSHDATA\<close>.
\<close>

definition shape_pop :: "parsedOpcode \<Rightarrow> bool" where
  "shape_pop pop \<longleftrightarrow>
     (let len = op_length (pop_opcode pop)
      in if len = 1 then pop_data pop = None
         else pop_data pop \<noteq> None \<and>
           (if len > 1 then int (length (dataOf pop)) = len - 1
            else len \<in> {-1, -2, -4} \<and> length (dataOf pop) < 256 ^ nat (- len)))"

text \<open>An opcode that carries its own index as value, as all but ten of the table do.\<close>

definition well_numbered :: "parsedOpcode \<Rightarrow> bool" where
  "well_numbered pop \<longleftrightarrow> pop_opcode pop = opcodeArray (pop_value pop)"

definition wf_pop :: "parsedOpcode \<Rightarrow> bool" where
  "wf_pop pop \<longleftrightarrow> well_numbered pop \<and> shape_pop pop"

text \<open>The bytes of the length field.\<close>

definition lenField :: "parsedOpcode \<Rightarrow> bytes" where
  "lenField pop = putLE (nat (- op_length (pop_opcode pop))) (length (dataOf pop))"

lemma op_length_cases:
  obtains "op_length (opcodeArray b) = 1"
    | "1 < op_length (opcodeArray b)" "op_length (opcodeArray b) \<le> 76"
    | "op_length (opcodeArray b) \<in> {-1, -2, -4}"
proof -
  have "uint b + 1 \<le> 76" if "b \<le> 75" using that by (simp add: word_le_def)
  moreover have "1 < uint b + 1" if "b \<noteq> 0" using that by (simp add: word_neq_0_conv word_less_def)
  ultimately show ?thesis using that unfolding opcodeArray_length data_length_def
    by (cases "b = 0"; cases "b \<le> 75"; cases "b = 76"; cases "b = 77"; cases "b = 78") auto
qed

lemma word_of_nat_mod_byte: "(word_of_nat (x mod 256) :: byte) = word_of_nat x"
  by (simp add: word_unat_eq_iff unat_of_nat)

lemma putLE_unfold:
  "putLE 1 l = [word_of_nat l]"
  "putLE 2 l = [word_of_nat l, word_of_nat (l div 256)]"
  "putLE 4 l = [word_of_nat l, word_of_nat (l div 256), word_of_nat (l div 65536),
     word_of_nat (l div 16777216)]"
proof -
  have n: "2 = Suc (Suc 0)" "4 = Suc (Suc (Suc (Suc 0)))" by simp_all
  show "putLE 1 l = [word_of_nat l]" by (simp add: word_of_nat_mod_byte)
  show "putLE 2 l = [word_of_nat l, word_of_nat (l div 256)]"
    by (simp only: n(1) putLE.simps word_of_nat_mod_byte)
  show "putLE 4 l = [word_of_nat l, word_of_nat (l div 256), word_of_nat (l div 65536),
      word_of_nat (l div 16777216)]"
    by (simp only: n(2) putLE.simps word_of_nat_mod_byte) (simp add: div_mult2_eq [symmetric])
qed

lemma pop_bytes_shape:
  assumes "shape_pop pop"
  shows "pop_bytes pop = Inr (pop_value pop # lenField pop @ dataOf pop)"
proof -
  let ?len = "op_length (pop_opcode pop)" and ?l = "length (dataOf pop)"
  have field: "getLE (putLE k ?l) = ?l" if "?l < 256 ^ k" for k
    using that by (simp add: getLE_putLE)
  consider "?len = 1" "pop_data pop = None" | "?len > 1" "int ?l = ?len - 1"
    | "?len = -1" "?l < 256 ^ 1" | "?len = -2" "?l < 256 ^ 2" | "?len = -4" "?l < 256 ^ 4"
    using assms by (auto simp: shape_pop_def Let_def split: if_splits)
  then show ?thesis
  proof cases
    case 1
    then show ?thesis by (simp add: pop_bytes_def lenField_def dataOf_def)
  next
    case 2
    then show ?thesis by (auto simp: pop_bytes_def lenField_def Let_def)
  next
    case 3
    then have "uint (word_of_nat ?l :: byte) = int ?l" by (simp add: unsigned_of_nat take_bit_eq_mod)
    with 3 show ?thesis by (simp add: pop_bytes_def lenField_def putLE_unfold Let_def)
  next
    case 4
    have "[word_of_nat ?l, word_of_nat (drop_bit 8 ?l)] = putLE 2 ?l"
      by (simp add: putLE_unfold drop_bit_eq_div)
    then show ?thesis
      using 4 field [of 2] by (simp add: pop_bytes_def lenField_def Let_def del: getLE.simps)
  next
    case 5
    have "[word_of_nat ?l, word_of_nat (drop_bit 8 ?l), word_of_nat (drop_bit 16 ?l),
        word_of_nat (drop_bit 24 ?l)] = putLE 4 ?l"
      by (simp add: putLE_unfold drop_bit_eq_div)
    then show ?thesis
      using 5 field [of 4] by (simp add: pop_bytes_def lenField_def Let_def del: getLE.simps)
  qed
qed

lemma parseOne_shape:
  assumes "parseOne b rest = Inr (pop, rest')"
  shows "pop_opcode pop = opcodeArray b \<and> shape_pop pop \<and> rest = lenField pop @ dataOf pop @ rest'"
proof (cases b rule: op_length_cases)
  case 1
  with assms show ?thesis by (auto simp: parseOne_def shape_pop_def lenField_def dataOf_def)
next
  case 2
  with assms show ?thesis
    by (auto simp: parseOne_def shape_pop_def lenField_def dataOf_def Let_def nat_diff_distrib split: if_splits)
next
  case 3
  let ?len = "op_length (opcodeArray b)"
  from 3 have len: "?len < 0" "?len \<noteq> 1" "\<not> ?len > 1" by auto
  with assms have room: "nat (- ?len) \<le> length rest"
    by (auto simp: parseOne_def Let_def split: if_splits)
  from pushLength_getLE [OF 3 this] obtain l where
    l: "pushLength ?len rest = Inr l" "sint l = int (getLE (take (nat (- ?len)) rest))" by blast
  define n where "n = getLE (take (nat (- ?len)) rest)"
  from assms len l have n: "n \<le> length (drop (nat (- ?len)) rest)"
    "pop = \<lparr>pop_opcode = opcodeArray b, pop_data = Some (take n (drop (nat (- ?len)) rest))\<rparr>"
    "rest' = drop n (drop (nat (- ?len)) rest)"
    by (auto simp: parseOne_def Let_def n_def split: if_splits)
  have dl: "length (dataOf pop) = n" using n by (simp add: dataOf_def)
  have "n < 256 ^ nat (- ?len)"
    using getLE_bound [of "take (nat (- ?len)) rest"] room by (simp add: n_def)
  moreover have "putLE (nat (- ?len)) n = take (nat (- ?len)) rest"
    unfolding n_def by (rule putLE_getLE) (use room in simp)
  moreover have "rest = take (nat (- ?len)) rest @ dataOf pop @ rest'"
    unfolding n(3) using n(2) by (simp only: dataOf_def parsedOpcode.simps option.simps append_take_drop_id)
  ultimately show ?thesis
    using 3 n(2) dl len by (simp add: shape_pop_def lenField_def Let_def)
qed

lemma parseOne_intro:
  assumes "pop_opcode pop = opcodeArray b" "shape_pop pop"
  shows "parseOne b (lenField pop @ dataOf pop @ r) = Inr (pop, r)"
proof (cases b rule: op_length_cases)
  case 1
  with assms show ?thesis
    by (cases pop) (auto simp: parseOne_def shape_pop_def lenField_def dataOf_def)
next
  case 2
  with assms show ?thesis
    by (cases pop) (auto simp: parseOne_def shape_pop_def lenField_def dataOf_def Let_def nat_diff_distrib)
next
  case 3
  let ?len = "op_length (opcodeArray b)" and ?d = "dataOf pop"
  from 3 have len: "?len < 0" "?len \<noteq> 1" "\<not> ?len > 1" by auto
  have d: "pop_data pop = Some ?d" "length ?d < 256 ^ nat (- ?len)"
    using assms 3 len by (auto simp: shape_pop_def Let_def dataOf_def split: option.splits)
  have f: "length (lenField pop) = nat (- ?len)" by (simp add: lenField_def assms(1))
  have "getLE (take (nat (- ?len)) (lenField pop @ ?d @ r)) = length ?d"
    using d(2) f by (simp add: lenField_def assms(1) getLE_putLE)
  with pushLength_getLE [OF 3, of "lenField pop @ ?d @ r"] f obtain l where
    l: "pushLength ?len (lenField pop @ ?d @ r) = Inr l" "sint l = int (length ?d)" by auto
  have pop: "\<lparr>pop_opcode = opcodeArray b, pop_data = Some ?d\<rparr> = pop" using assms(1) d(1) by (cases pop) simp
  have "parseOne b (lenField pop @ ?d @ r) = Inr (\<lparr>pop_opcode = opcodeArray b, pop_data = Some ?d\<rparr>, r)"
    using len l f by (simp add: parseOne_def Let_def)
  then show ?thesis unfolding pop .
qed

section \<open>Round trips\<close>

interpretation script: stream_codec parseOne pop_bytes wf_pop parseLoop unparseScript
proof
  show "length r \<le> length s" if "parseOne b s = Inr (x, r)" for b s x r
    using that by (rule parseOne_shrinks)
next
  fix b s x r
  assume *: "parseOne b s = Inr (x, r)" "wf_pop x"
  from parseOne_shape [OF *(1)] have "pop_opcode x = opcodeArray b" "shape_pop x"
    "s = lenField x @ dataOf x @ r" by blast+
  moreover have "pop_value x = b"
  proof -
    have "\<not> misnumbered b"
      using *(2) calculation(1) misnumbered_entry [of b] by (auto simp: wf_pop_def well_numbered_def)
    then show ?thesis using calculation(1) by (simp add: opcodeArray_value)
  qed
  ultimately show "\<exists>e. pop_bytes x = Inr e \<and> b # s = e @ r" by (simp add: pop_bytes_shape)
next
  fix x assume "wf_pop x"
  then show "\<exists>b s. pop_bytes x = Inr (b # s) \<and> (\<forall>r. parseOne b (s @ r) = Inr (x, r))"
    using parseOne_intro [of x "pop_value x"] pop_bytes_shape [of x]
    by (auto simp: wf_pop_def well_numbered_def)
qed (simp_all split: prod.splits sum.splits)

lemma parse_unparse_iff:
  "parseLoop s = (pops, None) \<Longrightarrow>
     \<exists>u. unparseScript pops = Inr u \<and> length u = length s \<and> (u = s \<longleftrightarrow> list_all well_numbered pops)"
proof (induction s arbitrary: pops rule: parseLoop.induct)
  case (2 b rest)
  then obtain pop rest' ps where p: "parseOne b rest = Inr (pop, rest')"
    and ps: "parseLoop rest' = (ps, None)" and pops: "pops = pop # ps"
    by (auto split: sum.splits prod.splits)
  from parseOne_shape [OF p] have shape: "pop_opcode pop = opcodeArray b" "shape_pop pop"
    "rest = lenField pop @ dataOf pop @ rest'" by blast+
  obtain u where u: "unparseScript ps = Inr u" "length u = length rest'"
    "u = rest' \<longleftrightarrow> list_all well_numbered ps"
    using 2 p ps by blast
  have "b = pop_value pop \<longleftrightarrow> well_numbered pop"
    using shape(1) misnumbered_entry [of b] by (auto simp: well_numbered_def opcodeArray_value)
  then show ?case by (auto simp: pops pop_bytes_shape [OF shape(2)] shape(3) u)
qed simp

section \<open>Properties\<close>

text \<open>
  C29: A script that parses is unparsed without an error into a script of the same length, and
  into the very same bytes exactly when every opcode of it carries its own index in the opcode
  table.
\<close>

theorem parse_unparse:
  assumes "parseScript s = (pops, None)"
  shows "\<exists>u. unparseScript pops = Inr u \<and> length u = length s \<and> (u = s \<longleftrightarrow> list_all well_numbered pops)"
  using parse_unparse_iff assms by (simp add: parseScript_def)

theorem parse_unparse_witness: "parseScript [0x02, 7, 8] = ([\<lparr>pop_opcode = opcodeArray 2, pop_data = Some [7, 8]\<rparr>], None) \<and>
  unparseScript [\<lparr>pop_opcode = opcodeArray 2, pop_data = Some [7, 8]\<rparr>] = Inr [0x02, 7, 8]"
proof -
  have p: "parseScript [0x02, 7, 8] = ([\<lparr>pop_opcode = opcodeArray 2, pop_data = Some [7, 8]\<rparr>], None)"
    by (simp add: parseScript_def parseOne_def Let_def opcodeArray_length data_length_def)
  have "well_numbered \<lparr>pop_opcode = opcodeArray 2, pop_data = Some [7, 8]\<rparr>"
    by (simp add: well_numbered_def opcodeArray_value misnumbered_def)
  then show ?thesis using parse_unparse [OF p] p by auto
qed

text \<open>
  C30: A sequence of well-formed parsed opcodes is unparsed without an error, and parsing the
  result gives the sequence back.
\<close>

theorem unparse_parse:
  assumes "list_all wf_pop pops"
  shows "\<exists>s. unparseScript pops = Inr s \<and> parseScript s = (pops, None)"
  using script.decodes_encodes [OF assms] by (simp add: parseScript_def)

theorem unparse_parse_witness:
  "parseScript [0x4c, 1, 9] = ([\<lparr>pop_opcode = opcodeArray 0x4c, pop_data = Some [9]\<rparr>], None)"
proof -
  let ?p = "\<lparr>pop_opcode = opcodeArray 0x4c, pop_data = Some [9]\<rparr>"
  have "list_all wf_pop [?p]"
    by (simp add: wf_pop_def well_numbered_def shape_pop_def dataOf_def opcodeArray_value
        opcodeArray_length data_length_def misnumbered_def)
  moreover have "unparseScript [?p] = Inr [0x4c, 1, 9]"
    by (simp add: pop_bytes_def dataOf_def opcodeArray_value opcodeArray_length data_length_def misnumbered_def)
  ultimately show ?thesis using unparse_parse [of "[?p]"] by auto
qed

text \<open>
  C40: The ten opcodes 178 to 187 do not survive the round trip: the one-byte script made of such
  an opcode parses, and unparsing gives the byte of the opcode ten places further on.
\<close>

theorem misnumbered_round_trip:
  assumes "178 \<le> b" "b \<le> 187"
  shows "unparseScript (fst (parseScript [b])) = Inr [b + 10] \<and> snd (parseScript [b]) = None"
proof -
  have m: "misnumbered b" using assms by (simp add: misnumbered_def)
  have "b \<notin> {0, 76, 77, 78}" "\<not> b \<le> 75" using assms by (auto simp: word_le_nat_alt)
  then have len: "op_length (opcodeArray b) = 1" by (simp add: opcodeArray_length data_length_def)
  then show ?thesis
    by (simp add: parseScript_def parseOne_def pop_bytes_def dataOf_def m opcodeArray_value)
qed

theorem misnumbered_round_trip_witness: "unparseScript (fst (parseScript [0xb2])) = Inr [0xbc]"
  using misnumbered_round_trip [of "0xb2"] by simp

end
