(* ===== verification/SigHash.thy ===== *)
theory SigHash
  imports Transaction
begin

text \<open>
  The hash a transaction signature signs (\<^verbatim>\<open>consensushashing/calculate_signature_hash.go\<close>). The
  values shared by all inputs are cached in \<^verbatim>\<open>SighashReusedValues\<close>, whose fields are filled in by
  the calls; each function returns the updated cache with its result.
\<close>

section \<open>Hash types\<close>

definition SigHashAll :: byte where "SigHashAll = 0b00000001"
definition SigHashNone :: byte where "SigHashNone = 0b00000010"
definition SigHashSingle :: byte where "SigHashSingle = 0b00000100"
definition SigHashAnyOneCanPay :: byte where "SigHashAnyOneCanPay = 0b10000000"
definition SigHashMask :: byte where "SigHashMask = 0b00000111"

definition IsStandardSigHashType :: "byte \<Rightarrow> bool" where
  "IsStandardSigHashType sht \<longleftrightarrow>
     sht \<in> {SigHashAll, SigHashNone, SigHashSingle, SigHashAll OR SigHashAnyOneCanPay,
            SigHashNone OR SigHashAnyOneCanPay, SigHashSingle OR SigHashAnyOneCanPay}"

definition isSigHashAll :: "byte \<Rightarrow> bool" where
  "isSigHashAll sht \<longleftrightarrow> sht AND SigHashMask = SigHashAll"

definition isSigHashNone :: "byte \<Rightarrow> bool" where
  "isSigHashNone sht \<longleftrightarrow> sht AND SigHashMask = SigHashNone"

definition isSigHashSingle :: "byte \<Rightarrow> bool" where
  "isSigHashSingle sht \<longleftrightarrow> sht AND SigHashMask = SigHashSingle"

definition isSigHashAnyOneCanPay :: "byte \<Rightarrow> bool" where
  "isSigHashAnyOneCanPay sht \<longleftrightarrow> sht AND SigHashAnyOneCanPay = SigHashAnyOneCanPay"

section \<open>The hashes of the parts\<close>

record SighashReusedValues =
  rv_previousOutputsHash :: "bytes option"
  rv_sequencesHash :: "bytes option"
  rv_sigOpCountsHash :: "bytes option"
  rv_outputsHash :: "bytes option"
  rv_payloadHash :: "bytes option"

definition noReusedValues :: SighashReusedValues where
  "noReusedValues = \<lparr>rv_previousOutputsHash = None, rv_sequencesHash = None, rv_sigOpCountsHash = None,
     rv_outputsHash = None, rv_payloadHash = None\<rparr>"

definition zeroHash :: bytes where
  "zeroHash = replicate DomainHashSize 0"

definition hashOutpoint :: "DomainOutpoint \<Rightarrow> bytes" where
  "hashOutpoint outpoint = WriteElement (EDomainTransactionID (outpoint_TransactionID outpoint)) @
     WriteElement (EUint32 (outpoint_Index outpoint))"

definition hashTxOut :: "DomainTransactionOutput \<Rightarrow> bytes" where
  "hashTxOut txOut = WriteElement (EUint64 (out_Value txOut)) @
     WriteElement (EUint16 (spk_Version (out_ScriptPublicKey txOut))) @
     WriteElement (EBytes (spk_Script (out_ScriptPublicKey txOut)))"

definition getPreviousOutputsHash ::
  "hashLib \<Rightarrow> DomainTransaction \<Rightarrow> byte \<Rightarrow> SighashReusedValues \<Rightarrow> bytes \<times> SighashReusedValues" where
  "getPreviousOutputsHash lib tx hashType reused =
     (if isSigHashAnyOneCanPay hashType then (zeroHash, reused)
      else case rv_previousOutputsHash reused of
             Some h \<Rightarrow> (h, reused)
           | None \<Rightarrow>
               let h = transactionSigningHashWriter lib
                         (concat (map (\<lambda>txIn. hashOutpoint (in_PreviousOutpoint txIn)) (tx_Inputs tx)))
               in (h, reused\<lparr>rv_previousOutputsHash := Some h\<rparr>))"

definition getSequencesHash ::
  "hashLib \<Rightarrow> DomainTransaction \<Rightarrow> byte \<Rightarrow> SighashReusedValues \<Rightarrow> bytes \<times> SighashReusedValues" where
  "getSequencesHash lib tx hashType reused =
     (if isSigHashSingle hashType \<or> isSigHashAnyOneCanPay hashType \<or> isSigHashNone hashType
      then (zeroHash, reused)
      else case rv_sequencesHash reused of
             Some h \<Rightarrow> (h, reused)
           | None \<Rightarrow>
               let h = transactionSigningHashWriter lib
                         (concat (map (\<lambda>txIn. WriteElement (EUint64 (in_Sequence txIn))) (tx_Inputs tx)))
               in (h, reused\<lparr>rv_sequencesHash := Some h\<rparr>))"

definition getSigOpCountsHash ::
  "hashLib \<Rightarrow> DomainTransaction \<Rightarrow> byte \<Rightarrow> SighashReusedValues \<Rightarrow> bytes \<times> SighashReusedValues" where
  "getSigOpCountsHash lib tx hashType reused =
     (if isSigHashAnyOneCanPay hashType then (zeroHash, reused)
      else case rv_sigOpCountsHash reused of
             Some h \<Rightarrow> (h, reused)
           | None \<Rightarrow>
               let h = transactionSigningHashWriter lib
                         (concat (map (\<lambda>txIn. WriteElement (EUint8 (in_SigOpCount txIn))) (tx_Inputs tx)))
               in (h, reused\<lparr>rv_sigOpCountsHash := Some h\<rparr>))"

definition getOutputsHash ::
  "hashLib \<Rightarrow> DomainTransaction \<Rightarrow> nat \<Rightarrow> byte \<Rightarrow> SighashReusedValues \<Rightarrow> bytes \<times> SighashReusedValues" where
  "getOutputsHash lib tx inputIndex hashType reused =
     (if isSigHashNone hashType then (zeroHash, reused)
      else if isSigHashSingle hashType
      then (if inputIndex \<ge> length (tx_Outputs tx) then (zeroHash, reused)
            else (transactionSigningHashWriter lib (hashTxOut (tx_Outputs tx ! inputIndex)), reused))
      else case rv_outputsHash reused of
             Some h \<Rightarrow> (h, reused)
           | None \<Rightarrow>
               let h = transactionSigningHashWriter lib (concat (map hashTxOut (tx_Outputs tx)))
               in (h, reused\<lparr>rv_outputsHash := Some h\<rparr>))"

definition getPayloadHash ::
  "hashLib \<Rightarrow> DomainTransaction \<Rightarrow> SighashReusedValues \<Rightarrow> bytes \<times> SighashReusedValues" where
  "getPayloadHash lib tx reused =
     (if tx_SubnetworkID tx = SubnetworkIDNative then (zeroHash, reused)
      else case rv_payloadHash reused of
             Some h \<Rightarrow> (h, reused)
           | None \<Rightarrow>
               let h = transactionSigningHashWriter lib (WriteElement (EBytes (tx_Payload tx)))
               in (h, reused\<lparr>rv_payloadHash := Some h\<rparr>))"

section \<open>The signature hash\<close>

definition calculateSignatureHash ::
  "hashLib \<Rightarrow> DomainTransaction \<Rightarrow> nat \<Rightarrow> DomainTransactionInput \<Rightarrow> UTXOEntry \<Rightarrow> ScriptPublicKey \<Rightarrow> byte \<Rightarrow>
     SighashReusedValues \<Rightarrow> bytes \<times> SighashReusedValues" where
  "calculateSignatureHash lib tx inputIndex txIn utxo prevScriptPublicKey hashType reused0 =
     (let (previousOutputsHash, reused1) = getPreviousOutputsHash lib tx hashType reused0;
          (sequencesHash, reused2) = getSequencesHash lib tx hashType reused1;
          (sigOpCountsHash, reused3) = getSigOpCountsHash lib tx hashType reused2;
          (outputsHash, reused4) = getOutputsHash lib tx inputIndex hashType reused3;
          (payloadHash, reused5) = getPayloadHash lib tx reused4
      in (transactionSigningHashWriter lib
            (WriteElement (EUint16 (tx_Version tx)) @
             WriteElement (EDomainHash previousOutputsHash) @
             WriteElement (EDomainHash sequencesHash) @
             WriteElement (EDomainHash sigOpCountsHash) @
             hashOutpoint (in_PreviousOutpoint txIn) @
             WriteElement (EUint16 (spk_Version prevScriptPublicKey)) @
             WriteElement (EBytes (spk_Script prevScriptPublicKey)) @
             WriteElement (EUint64 (utxo_Amount utxo)) @
             WriteElement (EUint64 (in_Sequence txIn)) @
             WriteElement (EUint8 (in_SigOpCount txIn)) @
             WriteElement (EDomainHash outputsHash) @
             WriteElement (EUint64 (tx_LockTime tx)) @
             WriteElement (EDomainSubnetworkID (tx_SubnetworkID tx)) @
             WriteElement (EUint64 (tx_Gas tx)) @
             WriteElement (EDomainHash payloadHash) @
             WriteElement (EUint8 hashType)), reused5))"

text \<open>
  An index that is out of range and an input without a UTXO entry end in a run-time panic.
\<close>

definition CalculateSignatureHashSchnorr ::
  "hashLib \<Rightarrow> DomainTransaction \<Rightarrow> nat \<Rightarrow> byte \<Rightarrow> SighashReusedValues \<Rightarrow> (bytes \<times> SighashReusedValues) outcome" where
  "CalculateSignatureHashSchnorr lib tx inputIndex hashType reused =
     (if \<not> IsStandardSigHashType hashType then Inl OtherErr
      else if inputIndex \<ge> length (tx_Inputs tx) then Inl GoPanic
      else let txIn = tx_Inputs tx ! inputIndex
           in case in_UTXOEntry txIn of
                None \<Rightarrow> Inl GoPanic
              | Some utxo \<Rightarrow>
                  Inr (calculateSignatureHash lib tx inputIndex txIn utxo (utxo_ScriptPublicKey utxo) hashType reused))"

definition CalculateSignatureHashECDSA ::
  "hashLib \<Rightarrow> DomainTransaction \<Rightarrow> nat \<Rightarrow> byte \<Rightarrow> SighashReusedValues \<Rightarrow> (bytes \<times> SighashReusedValues) outcome" where
  "CalculateSignatureHashECDSA lib tx inputIndex hashType reused =
     bindR (CalculateSignatureHashSchnorr lib tx inputIndex hashType reused) (\<lambda>(hash, reused).
       Inr (transactionSigningHashECDSAWriter lib hash, reused))"

section \<open>Reuse is transparent\<close>

text \<open>A cache that holds, where it holds anything, the hashes of \<open>tx\<close>.\<close>

definition reuse_ok :: "hashLib \<Rightarrow> DomainTransaction \<Rightarrow> SighashReusedValues \<Rightarrow> bool" where
  "reuse_ok lib tx rv \<longleftrightarrow>
     rv_previousOutputsHash rv \<in> {None, rv_previousOutputsHash (snd (getPreviousOutputsHash lib tx SigHashAll noReusedValues))} \<and>
     rv_sequencesHash rv \<in> {None, rv_sequencesHash (snd (getSequencesHash lib tx SigHashAll noReusedValues))} \<and>
     rv_sigOpCountsHash rv \<in> {None, rv_sigOpCountsHash (snd (getSigOpCountsHash lib tx SigHashAll noReusedValues))} \<and>
     rv_outputsHash rv \<in> {None, rv_outputsHash (snd (getOutputsHash lib tx 0 SigHashAll noReusedValues))} \<and>
     rv_payloadHash rv \<in> {None, Some (transactionSigningHashWriter lib (WriteElement (EBytes (tx_Payload tx))))}"

lemma SigHashAll_flags:
  "\<not> isSigHashAnyOneCanPay SigHashAll" "\<not> isSigHashSingle SigHashAll" "\<not> isSigHashNone SigHashAll"
  by (simp_all add: isSigHashAnyOneCanPay_def isSigHashSingle_def isSigHashNone_def SigHashAll_def
      SigHashAnyOneCanPay_def SigHashSingle_def SigHashNone_def SigHashMask_def)

lemma reuse_ok_iff:
  "reuse_ok lib tx rv \<longleftrightarrow>
     rv_previousOutputsHash rv \<in> {None, Some (transactionSigningHashWriter lib
       (concat (map (\<lambda>txIn. hashOutpoint (in_PreviousOutpoint txIn)) (tx_Inputs tx))))} \<and>
     rv_sequencesHash rv \<in> {None, Some (transactionSigningHashWriter lib
       (concat (map (\<lambda>txIn. WriteElement (EUint64 (in_Sequence txIn))) (tx_Inputs tx))))} \<and>
     rv_sigOpCountsHash rv \<in> {None, Some (transactionSigningHashWriter lib
       (concat (map (\<lambda>txIn. WriteElement (EUint8 (in_SigOpCount txIn))) (tx_Inputs tx))))} \<and>
     rv_outputsHash rv \<in> {None, Some (transactionSigningHashWriter lib (concat (map hashTxOut (tx_Outputs tx))))} \<and>
     rv_payloadHash rv \<in> {None, Some (transactionSigningHashWriter lib (WriteElement (EBytes (tx_Payload tx))))}"
  unfolding reuse_ok_def
  by (simp add: getPreviousOutputsHash_def getSequencesHash_def getSigOpCountsHash_def getOutputsHash_def
      SigHashAll_flags noReusedValues_def Let_def del: WriteElement.simps)

lemma reuse_ok_none [simp]: "reuse_ok lib tx noReusedValues"
  by (simp add: reuse_ok_iff noReusedValues_def)

text \<open>Each part returns what it returns without a cache and keeps the cache right.\<close>

lemma reuse_parts:
  assumes "reuse_ok lib tx rv"
  shows "fst (getPreviousOutputsHash lib tx ht rv) = fst (getPreviousOutputsHash lib tx ht noReusedValues) \<and>
      reuse_ok lib tx (snd (getPreviousOutputsHash lib tx ht rv))"
    and "fst (getSequencesHash lib tx ht rv) = fst (getSequencesHash lib tx ht noReusedValues) \<and>
      reuse_ok lib tx (snd (getSequencesHash lib tx ht rv))"
    and "fst (getSigOpCountsHash lib tx ht rv) = fst (getSigOpCountsHash lib tx ht noReusedValues) \<and>
      reuse_ok lib tx (snd (getSigOpCountsHash lib tx ht rv))"
    and "fst (getOutputsHash lib tx i ht rv) = fst (getOutputsHash lib tx i ht noReusedValues) \<and>
      reuse_ok lib tx (snd (getOutputsHash lib tx i ht rv))"
    and "fst (getPayloadHash lib tx rv) = fst (getPayloadHash lib tx noReusedValues) \<and>
      reuse_ok lib tx (snd (getPayloadHash lib tx rv))"
proof -
  note rv = assms [unfolded reuse_ok_iff]
  show "fst (getPreviousOutputsHash lib tx ht rv) = fst (getPreviousOutputsHash lib tx ht noReusedValues) \<and>
      reuse_ok lib tx (snd (getPreviousOutputsHash lib tx ht rv))"
    by (cases "rv_previousOutputsHash rv") (use rv in \<open>simp_all add: getPreviousOutputsHash_def reuse_ok_iff noReusedValues_def Let_def del: WriteElement.simps\<close>)
  show "fst (getSequencesHash lib tx ht rv) = fst (getSequencesHash lib tx ht noReusedValues) \<and>
      reuse_ok lib tx (snd (getSequencesHash lib tx ht rv))"
    by (cases "rv_sequencesHash rv") (use rv in \<open>simp_all add: getSequencesHash_def reuse_ok_iff noReusedValues_def Let_def del: WriteElement.simps\<close>)
  show "fst (getSigOpCountsHash lib tx ht rv) = fst (getSigOpCountsHash lib tx ht noReusedValues) \<and>
      reuse_ok lib tx (snd (getSigOpCountsHash lib tx ht rv))"
    by (cases "rv_sigOpCountsHash rv") (use rv in \<open>simp_all add: getSigOpCountsHash_def reuse_ok_iff noReusedValues_def Let_def del: WriteElement.simps\<close>)
  show "fst (getOutputsHash lib tx i ht rv) = fst (getOutputsHash lib tx i ht noReusedValues) \<and>
      reuse_ok lib tx (snd (getOutputsHash lib tx i ht rv))"
    by (cases "rv_outputsHash rv") (use rv in \<open>simp_all add: getOutputsHash_def reuse_ok_iff noReusedValues_def Let_def del: WriteElement.simps\<close>)
  show "fst (getPayloadHash lib tx rv) = fst (getPayloadHash lib tx noReusedValues) \<and>
      reuse_ok lib tx (snd (getPayloadHash lib tx rv))"
    by (cases "rv_payloadHash rv") (use rv in \<open>simp_all add: getPayloadHash_def reuse_ok_iff noReusedValues_def Let_def del: WriteElement.simps\<close>)
qed

text \<open>The signature hash without any reuse: every part is computed from an empty cache.\<close>

definition sighash_fresh :: "hashLib \<Rightarrow> DomainTransaction \<Rightarrow> nat \<Rightarrow> DomainTransactionInput \<Rightarrow> UTXOEntry \<Rightarrow> byte \<Rightarrow> bytes" where
  "sighash_fresh lib tx i txIn utxo ht =
     transactionSigningHashWriter lib
       (WriteElement (EUint16 (tx_Version tx)) @
        WriteElement (EDomainHash (fst (getPreviousOutputsHash lib tx ht noReusedValues))) @
        WriteElement (EDomainHash (fst (getSequencesHash lib tx ht noReusedValues))) @
        WriteElement (EDomainHash (fst (getSigOpCountsHash lib tx ht noReusedValues))) @
        hashOutpoint (in_PreviousOutpoint txIn) @
        WriteElement (EUint16 (spk_Version (utxo_ScriptPublicKey utxo))) @
        WriteElement (EBytes (spk_Script (utxo_ScriptPublicKey utxo))) @
        WriteElement (EUint64 (utxo_Amount utxo)) @
        WriteElement (EUint64 (in_Sequence txIn)) @
        WriteElement (EUint8 (in_SigOpCount txIn)) @
        WriteElement (EDomainHash (fst (getOutputsHash lib tx i ht noReusedValues))) @
        WriteElement (EUint64 (tx_LockTime tx)) @
        WriteElement (EDomainSubnetworkID (tx_SubnetworkID tx)) @
        WriteElement (EUint64 (tx_Gas tx)) @
        WriteElement (EDomainHash (fst (getPayloadHash lib tx noReusedValues))) @
        WriteElement (EUint8 ht))"

lemma calculateSignatureHash_fresh:
  assumes "reuse_ok lib tx rv"
  shows "\<exists>rv'. calculateSignatureHash lib tx i txIn utxo (utxo_ScriptPublicKey utxo) ht rv
      = (sighash_fresh lib tx i txIn utxo ht, rv') \<and> reuse_ok lib tx rv'"
proof -
  obtain a r1 where 1: "getPreviousOutputsHash lib tx ht rv = (a, r1)" by fastforce
  obtain b r2 where 2: "getSequencesHash lib tx ht r1 = (b, r2)" by fastforce
  obtain c r3 where 3: "getSigOpCountsHash lib tx ht r2 = (c, r3)" by fastforce
  obtain d r4 where 4: "getOutputsHash lib tx i ht r3 = (d, r4)" by fastforce
  obtain e r5 where 5: "getPayloadHash lib tx r4 = (e, r5)" by fastforce
  from reuse_parts(1) [OF assms, of ht] 1 have a: "a = fst (getPreviousOutputsHash lib tx ht noReusedValues)" "reuse_ok lib tx r1"
    by simp_all
  from reuse_parts(2) [OF a(2), of ht] 2 have b: "b = fst (getSequencesHash lib tx ht noReusedValues)" "reuse_ok lib tx r2"
    by simp_all
  from reuse_parts(3) [OF b(2), of ht] 3 have c: "c = fst (getSigOpCountsHash lib tx ht noReusedValues)" "reuse_ok lib tx r3"
    by simp_all
  from reuse_parts(4) [OF c(2), of i ht] 4 have d: "d = fst (getOutputsHash lib tx i ht noReusedValues)" "reuse_ok lib tx r4"
    by simp_all
  from reuse_parts(5) [OF d(2)] 5 have e: "e = fst (getPayloadHash lib tx noReusedValues)" "reuse_ok lib tx r5"
    by simp_all
  show ?thesis
    unfolding calculateSignatureHash_def sighash_fresh_def a(1) [symmetric] b(1) [symmetric] c(1) [symmetric]
      d(1) [symmetric] e(1) [symmetric]
    using e(2) by (simp add: 1 2 3 4 5 del: WriteElement.simps)
qed

section \<open>What a signature commits to\<close>

text \<open>
  The part of a transaction that a signature for input \<open>i\<close> with hash type \<open>ht\<close> covers;
  \<open>None\<close> marks what the hash type leaves open.
\<close>

record signedView =
  sv_Version :: uint16
  sv_Outpoints :: "DomainOutpoint list option"
  sv_Sequences :: "uint64 list option"
  sv_SigOpCounts :: "byte list option"
  sv_Outpoint :: DomainOutpoint
  sv_ScriptPublicKey :: ScriptPublicKey
  sv_Amount :: uint64
  sv_Sequence :: uint64
  sv_SigOpCount :: byte
  sv_Outputs :: "DomainTransactionOutput list option"
  sv_LockTime :: uint64
  sv_SubnetworkID :: bytes
  sv_Gas :: uint64
  sv_Payload :: "bytes option"
  sv_HashType :: byte

definition signed_view :: "DomainTransaction \<Rightarrow> nat \<Rightarrow> DomainTransactionInput \<Rightarrow> UTXOEntry \<Rightarrow> byte \<Rightarrow> signedView" where
  "signed_view tx i txIn utxo ht = \<lparr>
     sv_Version = tx_Version tx,
     sv_Outpoints = (if isSigHashAnyOneCanPay ht then None else Some (map in_PreviousOutpoint (tx_Inputs tx))),
     sv_Sequences = (if isSigHashSingle ht \<or> isSigHashAnyOneCanPay ht \<or> isSigHashNone ht then None
                     else Some (map in_Sequence (tx_Inputs tx))),
     sv_SigOpCounts = (if isSigHashAnyOneCanPay ht then None else Some (map in_SigOpCount (tx_Inputs tx))),
     sv_Outpoint = in_PreviousOutpoint txIn,
     sv_ScriptPublicKey = utxo_ScriptPublicKey utxo,
     sv_Amount = utxo_Amount utxo,
     sv_Sequence = in_Sequence txIn,
     sv_SigOpCount = in_SigOpCount txIn,
     sv_Outputs = (if isSigHashNone ht then None
                   else if isSigHashSingle ht
                   then (if i \<ge> length (tx_Outputs tx) then None else Some [tx_Outputs tx ! i])
                   else Some (tx_Outputs tx)),
     sv_LockTime = tx_LockTime tx,
     sv_SubnetworkID = tx_SubnetworkID tx,
     sv_Gas = tx_Gas tx,
     sv_Payload = (if tx_SubnetworkID tx = SubnetworkIDNative then None else Some (tx_Payload tx)),
     sv_HashType = ht\<rparr>"

definition optHash :: "hashLib \<Rightarrow> bytes option \<Rightarrow> bytes" where
  "optHash lib m = (case m of None \<Rightarrow> zeroHash | Some d \<Rightarrow> transactionSigningHashWriter lib d)"

text \<open>The encoding of a view that is hashed.\<close>

definition view_bytes :: "hashLib \<Rightarrow> signedView \<Rightarrow> bytes" where
  "view_bytes lib v =
     PutUint16 (sv_Version v) @
     optHash lib (map_option (\<lambda>ops. concat (map hashOutpoint ops)) (sv_Outpoints v)) @
     optHash lib (map_option (\<lambda>ss. concat (map PutUint64 ss)) (sv_Sequences v)) @
     optHash lib (sv_SigOpCounts v) @
     hashOutpoint (sv_Outpoint v) @
     PutUint16 (spk_Version (sv_ScriptPublicKey v)) @
     writeVarBytes (spk_Script (sv_ScriptPublicKey v)) @
     PutUint64 (sv_Amount v) @
     PutUint64 (sv_Sequence v) @
     [sv_SigOpCount v] @
     optHash lib (map_option (\<lambda>outs. concat (map hashTxOut outs)) (sv_Outputs v)) @
     PutUint64 (sv_LockTime v) @
     sv_SubnetworkID v @
     PutUint64 (sv_Gas v) @
     optHash lib (map_option writeVarBytes (sv_Payload v)) @
     [sv_HashType v]"

lemma concat_singletons: "concat (map (\<lambda>x. [f x]) xs) = map f xs"
  by (induction xs) auto

lemma sighash_fresh_view:
  "sighash_fresh lib tx i txIn utxo ht
     = transactionSigningHashWriter lib (view_bytes lib (signed_view tx i txIn utxo ht))"
  by (simp add: sighash_fresh_def view_bytes_def signed_view_def optHash_def noReusedValues_def Let_def
      getPreviousOutputsHash_def getSequencesHash_def getSigOpCountsHash_def getOutputsHash_def
      getPayloadHash_def writeVarBytes_def PutUint8_def o_def concat_singletons)

text \<open>The byte strings that the calculation hashes for a view: the encoding and its optional parts.\<close>

definition hashed :: "hashLib \<Rightarrow> signedView \<Rightarrow> bytes set" where
  "hashed lib v = insert (view_bytes lib v)
     (set_option (map_option (\<lambda>ops. concat (map hashOutpoint ops)) (sv_Outpoints v)) \<union>
      set_option (map_option (\<lambda>ss. concat (map PutUint64 ss)) (sv_Sequences v)) \<union> set_option (sv_SigOpCounts v) \<union>
      set_option (map_option (\<lambda>outs. concat (map hashTxOut outs)) (sv_Outputs v)) \<union>
      set_option (map_option writeVarBytes (sv_Payload v)))"

text \<open>
  A failure of the hash function on what two calculations hash: two byte strings with the same
  hash, or one that hashes to the all-zero string that stands for an open part.
\<close>

definition hash_broken :: "hashLib \<Rightarrow> bytes set \<Rightarrow> bytes set \<Rightarrow> bool" where
  "hash_broken lib M N \<longleftrightarrow>
     (\<exists>x \<in> M. \<exists>y \<in> N. x \<noteq> y \<and> transactionSigningHashWriter lib x = transactionSigningHashWriter lib y) \<or>
     (\<exists>x \<in> M \<union> N. transactionSigningHashWriter lib x = zeroHash)"

definition hash_size_ok :: "hashLib \<Rightarrow> bool" where
  "hash_size_ok lib \<longleftrightarrow> (\<forall>k m. length (blake2b_New256 lib k m) = DomainHashSize)"

lemma optHash_eq:
  "\<lbrakk> optHash lib a = optHash lib b; \<not> hash_broken lib M N; set_option a \<subseteq> M; set_option b \<subseteq> N \<rbrakk> \<Longrightarrow> a = b"
  by (auto simp: optHash_def hash_broken_def split: option.splits dest: sym)

lemma length_optHash: "hash_size_ok lib \<Longrightarrow> length (optHash lib a) = DomainHashSize"
  by (simp add: optHash_def hash_size_ok_def transactionSigningHashWriter_def zeroHash_def split: option.splits)

lemma optHash_append:
  "hash_size_ok lib \<Longrightarrow> optHash lib a @ r = optHash lib b @ s \<longleftrightarrow> optHash lib a = optHash lib b \<and> r = s"
  by (simp add: append_eq_append_conv length_optHash)

lemma hashOutpoint_writeOutpoint: "hashOutpoint = writeOutpoint"
  by (rule ext) (simp add: hashOutpoint_def writeOutpoint_def)

lemma hashTxOut_writeTxOut: "hashTxOut = writeTxOut"
  by (rule ext) (simp add: hashTxOut_def writeTxOut_def writeVarBytes_def)

text \<open>A sequence of self-delimiting code words is read off its concatenation.\<close>

lemma delimits_concat_inj:
  assumes "delimits f P key" "\<And>x. f x \<noteq> []"
  shows "\<lbrakk> list_all P xs; list_all P ys; concat (map f xs) = concat (map f ys) \<rbrakk> \<Longrightarrow> map key xs = map key ys"
proof (induction xs arbitrary: ys)
  case Nil
  then show ?case using assms(2) by (cases ys) auto
next
  case (Cons x xs)
  then obtain y ys' where ys: "ys = y # ys'" using assms(2) by (cases ys) auto
  from Cons.prems ys have "f x @ concat (map f xs) = f y @ concat (map f ys')" by simp
  from delimitsD [OF assms(1) _ _ this] Cons.prems ys
  have k: "key x = key y" and r: "concat (map f xs) = concat (map f ys')" by simp_all
  have "map key xs = map key ys'" by (rule Cons.IH [OF _ _ r]) (use Cons.prems ys in simp_all)
  with k ys show ?case by simp
qed

definition wf_view :: "signedView \<Rightarrow> bool" where
  "wf_view v \<longleftrightarrow> (\<forall>ops. sv_Outpoints v = Some ops \<longrightarrow> list_all wf_outpoint ops) \<and> wf_outpoint (sv_Outpoint v) \<and>
     fits (spk_Script (sv_ScriptPublicKey v)) \<and> (\<forall>outs. sv_Outputs v = Some outs \<longrightarrow> list_all wf_output outs) \<and>
     length (sv_SubnetworkID v) = DomainSubnetworkIDSize \<and> (\<forall>p. sv_Payload v = Some p \<longrightarrow> fits p)"

lemma view_parts_inj:
  "\<lbrakk> list_all wf_outpoint a; list_all wf_outpoint b; concat (map hashOutpoint a) = concat (map hashOutpoint b) \<rbrakk> \<Longrightarrow> a = b"
  "concat (map PutUint64 c) = concat (map PutUint64 d) \<Longrightarrow> c = d"
  "\<lbrakk> list_all wf_output e; list_all wf_output f; concat (map hashTxOut e) = concat (map hashTxOut f) \<rbrakk> \<Longrightarrow> e = f"
proof -
  have n: "writeOutpoint x \<noteq> []" "PutUint64 y \<noteq> []" "writeTxOut z \<noteq> []" for x y z
    using length_put(3) [of "outpoint_Index x"] length_put(4) [of y] length_put(4) [of "out_Value z"]
    by (auto simp: writeOutpoint_def writeTxOut_def simp del: length_put)
  have d: "delimits PutUint64 (\<lambda>_. True) (\<lambda>x. x)" by (rule delimitsI) simp
  show "a = b" if "list_all wf_outpoint a" "list_all wf_outpoint b"
      "concat (map hashOutpoint a) = concat (map hashOutpoint b)"
    using delimits_concat_inj [OF delimits_writeOutpoint n(1)] that by (simp add: hashOutpoint_writeOutpoint)
  show "c = d" if "concat (map PutUint64 c) = concat (map PutUint64 d)"
    using delimits_concat_inj [OF d n(2), of c d] that by (simp add: list_all_iff)
  show "e = f" if "list_all wf_output e" "list_all wf_output f" "concat (map hashTxOut e) = concat (map hashTxOut f)"
    using delimits_concat_inj [OF delimits_writeTxOut n(3)] that by (simp add: hashTxOut_writeTxOut)
qed

lemma view_bytes_split:
  assumes "hash_size_ok lib" "wf_view v" "wf_view w" "view_bytes lib v = view_bytes lib w"
  shows "sv_Version v = sv_Version w \<and> sv_Outpoint v = sv_Outpoint w \<and> sv_ScriptPublicKey v = sv_ScriptPublicKey w \<and>
    sv_Amount v = sv_Amount w \<and> sv_Sequence v = sv_Sequence w \<and> sv_SigOpCount v = sv_SigOpCount w \<and>
    sv_LockTime v = sv_LockTime w \<and> sv_SubnetworkID v = sv_SubnetworkID w \<and> sv_Gas v = sv_Gas w \<and>
    sv_HashType v = sv_HashType w \<and>
    optHash lib (map_option (\<lambda>ops. concat (map hashOutpoint ops)) (sv_Outpoints v))
      = optHash lib (map_option (\<lambda>ops. concat (map hashOutpoint ops)) (sv_Outpoints w)) \<and>
    optHash lib (map_option (\<lambda>ss. concat (map PutUint64 ss)) (sv_Sequences v))
      = optHash lib (map_option (\<lambda>ss. concat (map PutUint64 ss)) (sv_Sequences w)) \<and>
    optHash lib (sv_SigOpCounts v) = optHash lib (sv_SigOpCounts w) \<and>
    optHash lib (map_option (\<lambda>outs. concat (map hashTxOut outs)) (sv_Outputs v))
      = optHash lib (map_option (\<lambda>outs. concat (map hashTxOut outs)) (sv_Outputs w)) \<and>
    optHash lib (map_option writeVarBytes (sv_Payload v)) = optHash lib (map_option writeVarBytes (sv_Payload w))"
proof -
  have wf: "wf_outpoint (sv_Outpoint v)" "wf_outpoint (sv_Outpoint w)"
    "fits (spk_Script (sv_ScriptPublicKey v))" "fits (spk_Script (sv_ScriptPublicKey w))"
    "length (sv_SubnetworkID v) = length (sv_SubnetworkID w)"
    using assms(2,3) by (simp_all add: wf_view_def)
  have sub: "sv_SubnetworkID v @ r = sv_SubnetworkID w @ s \<longleftrightarrow> sv_SubnetworkID v = sv_SubnetworkID w \<and> r = s" for r s
    using wf(5) by (simp add: append_eq_append_conv)
  have cons: "[a] @ r = [b] @ s \<longleftrightarrow> a = b \<and> r = s" for a b :: byte and r s by simp
  have spk: "sv_ScriptPublicKey v = sv_ScriptPublicKey w \<longleftrightarrow>
      spk_Version (sv_ScriptPublicKey v) = spk_Version (sv_ScriptPublicKey w) \<and>
      spk_Script (sv_ScriptPublicKey v) = spk_Script (sv_ScriptPublicKey w)"
    by (auto intro: ScriptPublicKey.equality)
  from assms(4) show ?thesis
    unfolding view_bytes_def hashOutpoint_writeOutpoint PutUint_append optHash_append [OF assms(1)]
      writeOutpoint_append [OF wf(1,2)] writeVarBytes_append [OF wf(3,4)] sub cons list.inject spk
    by (elim conjE) (intro conjI)
qed

lemma view_bytes_inj:
  assumes "hash_size_ok lib" "\<not> hash_broken lib (hashed lib v) (hashed lib w)" "wf_view v" "wf_view w" "view_bytes lib v = view_bytes lib w"
  shows "v = w"
proof -
  note s = view_bytes_split [OF assms(1,3-5)]
  have "map_option (\<lambda>ops. concat (map hashOutpoint ops)) (sv_Outpoints v)
      = map_option (\<lambda>ops. concat (map hashOutpoint ops)) (sv_Outpoints w)"
    using s by (intro optHash_eq [OF _ assms(2)]) (auto simp: hashed_def)
  then have 1: "sv_Outpoints v = sv_Outpoints w"
    using assms(3,4) by (auto simp: wf_view_def map_option_case split: option.splits intro: view_parts_inj(1))
  have "map_option (\<lambda>ss. concat (map PutUint64 ss)) (sv_Sequences v)
      = map_option (\<lambda>ss. concat (map PutUint64 ss)) (sv_Sequences w)"
    using s by (intro optHash_eq [OF _ assms(2)]) (auto simp: hashed_def)
  then have 2: "sv_Sequences v = sv_Sequences w"
    by (auto simp: map_option_case split: option.splits intro: view_parts_inj(2))
  have 3: "sv_SigOpCounts v = sv_SigOpCounts w" using s by (intro optHash_eq [OF _ assms(2)]) (auto simp: hashed_def)
  have "map_option (\<lambda>outs. concat (map hashTxOut outs)) (sv_Outputs v)
      = map_option (\<lambda>outs. concat (map hashTxOut outs)) (sv_Outputs w)"
    using s by (intro optHash_eq [OF _ assms(2)]) (auto simp: hashed_def)
  then have 4: "sv_Outputs v = sv_Outputs w"
    using assms(3,4) by (auto simp: wf_view_def map_option_case split: option.splits intro: view_parts_inj(3))
  have "map_option writeVarBytes (sv_Payload v) = map_option writeVarBytes (sv_Payload w)"
    using s by (intro optHash_eq [OF _ assms(2)]) (auto simp: hashed_def)
  then have 5: "sv_Payload v = sv_Payload w"
    using assms(3,4) writeVarBytes_append [of _ _ "[]" "[]"]
    by (auto simp: wf_view_def map_option_case split: option.splits)
  from s 1 2 3 4 5 show ?thesis by (simp add: signedView.equality)
qed

text \<open>The view of input \<open>i\<close>, where there is such an input and its UTXO entry is known.\<close>

definition view_at :: "DomainTransaction \<Rightarrow> nat \<Rightarrow> byte \<Rightarrow> signedView option" where
  "view_at tx i ht =
     (if i < length (tx_Inputs tx)
      then map_option (\<lambda>utxo. signed_view tx i (tx_Inputs tx ! i) utxo ht) (in_UTXOEntry (tx_Inputs tx ! i))
      else None)"

text \<open>The scripts of the spent outputs have lengths that fit 64 bits.\<close>

definition wf_spent :: "DomainTransaction \<Rightarrow> bool" where
  "wf_spent tx \<longleftrightarrow> list_all (\<lambda>i. case in_UTXOEntry i of None \<Rightarrow> True
     | Some utxo \<Rightarrow> fits (spk_Script (utxo_ScriptPublicKey utxo))) (tx_Inputs tx)"

lemma wf_view_at:
  assumes "wf_tx tx" "wf_spent tx" "view_at tx i ht = Some v"
  shows "wf_view v"
proof -
  from assms(3) obtain utxo where i: "i < length (tx_Inputs tx)" and u: "in_UTXOEntry (tx_Inputs tx ! i) = Some utxo"
    and v: "v = signed_view tx i (tx_Inputs tx ! i) utxo ht"
    by (auto simp: view_at_def split: if_splits)
  have "\<forall>x \<in> set (tx_Inputs tx). wf_outpoint (in_PreviousOutpoint x)"
    using assms(1) by (simp add: wf_tx_def wf_input_def list_all_iff)
  moreover have "fits (spk_Script (utxo_ScriptPublicKey utxo))"
    using assms(2) i u by (simp add: wf_spent_def list_all_length) (metis option.simps(5))
  moreover have "\<forall>x \<in> set (tx_Outputs tx). wf_output x" "length (tx_SubnetworkID tx) = DomainSubnetworkIDSize"
    "fits (tx_Payload tx)"
    using assms(1) by (simp_all add: wf_tx_def list_all_iff)
  ultimately show ?thesis
    using i by (simp add: v wf_view_def signed_view_def list_all_iff)
qed

lemma sighash_view:
  assumes "reuse_ok lib tx rv" "CalculateSignatureHashSchnorr lib tx i ht rv = Inr (h, rv')"
  shows "\<exists>v. view_at tx i ht = Some v \<and> h = transactionSigningHashWriter lib (view_bytes lib v) \<and> reuse_ok lib tx rv'"
proof -
  from assms(2) obtain utxo where i: "i < length (tx_Inputs tx)" and u: "in_UTXOEntry (tx_Inputs tx ! i) = Some utxo"
    and c: "calculateSignatureHash lib tx i (tx_Inputs tx ! i) utxo (utxo_ScriptPublicKey utxo) ht rv = (h, rv')"
    by (auto simp: CalculateSignatureHashSchnorr_def Let_def split: if_splits option.splits)
  from calculateSignatureHash_fresh [OF assms(1), of i "tx_Inputs tx ! i" utxo ht] c
  have "h = sighash_fresh lib tx i (tx_Inputs tx ! i) utxo ht" "reuse_ok lib tx rv'" by auto
  with i u show ?thesis by (simp add: view_at_def sighash_fresh_view)
qed

lemma CalculateSignatureHashSchnorr_Inl:
  "CalculateSignatureHashSchnorr lib tx i ht rv = Inl e \<Longrightarrow> CalculateSignatureHashSchnorr lib tx i ht rv' = Inl e"
  by (auto simp: CalculateSignatureHashSchnorr_def Let_def split: if_splits option.splits)

text \<open>The hash alone, without the updated cache.\<close>

abbreviation hash_of :: "(bytes \<times> SighashReusedValues) outcome \<Rightarrow> bytes outcome" where
  "hash_of r \<equiv> bindR r (\<lambda>(h, _). Inr h)"

lemma schnorr_reuse:
  assumes "reuse_ok lib tx rv"
  shows "hash_of (CalculateSignatureHashSchnorr lib tx i ht rv)
       = hash_of (CalculateSignatureHashSchnorr lib tx i ht noReusedValues)"
proof (cases "CalculateSignatureHashSchnorr lib tx i ht rv")
  case (Inl e)
  from CalculateSignatureHashSchnorr_Inl [OF Inl] Inl show ?thesis by simp
next
  case (Inr p)
  obtain h rv' where p: "p = (h, rv')" by fastforce
  obtain h' rv'' where n: "CalculateSignatureHashSchnorr lib tx i ht noReusedValues = Inr (h', rv'')"
    using CalculateSignatureHashSchnorr_Inl [of lib tx i ht noReusedValues _ rv] Inr
    by (cases "CalculateSignatureHashSchnorr lib tx i ht noReusedValues") auto
  from sighash_view [OF assms Inr [unfolded p]] sighash_view [OF reuse_ok_none n] Inr p n
  show ?thesis by auto
qed

section \<open>Properties\<close>

text \<open>
  C25: Reusing hashes across the inputs of a transaction is transparent: with a cache that holds
  only hashes of this transaction (such as the empty one) the Schnorr and the ECDSA signature
  hash, and the errors, are those computed from scratch, and the cache stays that way.
\<close>

theorem sighash_reuse_transparent:
  assumes "reuse_ok lib tx rv"
  shows "hash_of (CalculateSignatureHashSchnorr lib tx i ht rv)
       = hash_of (CalculateSignatureHashSchnorr lib tx i ht noReusedValues) \<and>
    hash_of (CalculateSignatureHashECDSA lib tx i ht rv)
       = hash_of (CalculateSignatureHashECDSA lib tx i ht noReusedValues) \<and>
    (\<forall>h rv'. CalculateSignatureHashSchnorr lib tx i ht rv = Inr (h, rv') \<longrightarrow> reuse_ok lib tx rv')"
proof -
  have e: "hash_of (CalculateSignatureHashECDSA lib tx i ht r)
      = bindR (hash_of (CalculateSignatureHashSchnorr lib tx i ht r)) (\<lambda>h. Inr (transactionSigningHashECDSAWriter lib h))" for r
    by (cases "CalculateSignatureHashSchnorr lib tx i ht r") (auto simp: CalculateSignatureHashECDSA_def)
  show ?thesis
    unfolding e schnorr_reuse [OF assms] using sighash_view [OF assms] by blast
qed

text \<open>
  C5: A signature hash commits to exactly the part of the transaction its hash type selects: the
  same selected part gives the same hash, and two calls with the same hash have the same
  selected part (hash type included), unless what the two calls hash exhibits a collision of the
  hash function or a preimage of the all-zero hash. The size of the digests is the documented one.
\<close>

theorem sighash_commitment:
  assumes "hash_size_ok lib" "wf_tx tx" "wf_spent tx" "wf_tx tx'" "wf_spent tx'"
    and "reuse_ok lib tx rv" "reuse_ok lib tx' rv'"
    and "CalculateSignatureHashSchnorr lib tx i ht rv = Inr (h, r)"
    and "CalculateSignatureHashSchnorr lib tx' i' ht' rv' = Inr (h', r')"
  shows "(view_at tx i ht = view_at tx' i' ht' \<longrightarrow> h = h') \<and>
    (h = h' \<longrightarrow> view_at tx i ht = view_at tx' i' ht' \<or>
       (\<exists>v w. view_at tx i ht = Some v \<and> view_at tx' i' ht' = Some w \<and> hash_broken lib (hashed lib v) (hashed lib w)))"
proof -
  obtain v where v: "view_at tx i ht = Some v" "h = transactionSigningHashWriter lib (view_bytes lib v)"
    using sighash_view [OF assms(6,8)] by blast
  obtain w where w: "view_at tx' i' ht' = Some w" "h' = transactionSigningHashWriter lib (view_bytes lib w)"
    using sighash_view [OF assms(7,9)] by blast
  have "v = w" if "h = h'" "\<not> hash_broken lib (hashed lib v) (hashed lib w)"
  proof (rule view_bytes_inj [OF assms(1) that(2) wf_view_at [OF assms(2,3) v(1)] wf_view_at [OF assms(4,5) w(1)]])
    show "view_bytes lib v = view_bytes lib w"
      using that v(2) w(2) by (auto simp: hash_broken_def hashed_def)
  qed
  with v w show ?thesis by auto
qed

definition sample_lib :: hashLib where
  "sample_lib = \<lparr>blake2b_New256 = (\<lambda>k m. take 32 (m @ replicate 32 0)),
     blake2b_Sum256 = (\<lambda>m. take 32 (m @ replicate 32 0)), sha256_Sum256 = (\<lambda>m. take 32 (m @ replicate 32 0))\<rparr>"

definition sample_spend :: "bytes \<Rightarrow> DomainTransaction" where
  "sample_spend script = (sample_tx [])\<lparr>
     tx_Inputs := [\<lparr>in_PreviousOutpoint = \<lparr>outpoint_TransactionID = replicate 32 7, outpoint_Index = 1\<rparr>,
       in_SignatureScript = [1, 2], in_Sequence = 5, in_SigOpCount = 1,
       in_UTXOEntry = Some \<lparr>utxo_Amount = 3, utxo_ScriptPublicKey = \<lparr>spk_Script = [0x51], spk_Version = 0\<rparr>,
         utxo_BlockDAAScore = 0, utxo_IsCoinbase = False\<rparr>\<rparr>],
     tx_Outputs := [\<lparr>out_Value = 9, out_ScriptPublicKey = \<lparr>spk_Script = script, spk_Version = 0\<rparr>\<rparr>]\<rparr>"

lemma sample_spend_ok:
  "hash_size_ok sample_lib" "fits script \<Longrightarrow> wf_tx (sample_spend script)" "wf_spent (sample_spend script)"
  by (auto simp: hash_size_ok_def sample_lib_def DomainHashSize_def sample_spend_def sample_tx_def wf_tx_def
      wf_input_def wf_outpoint_def wf_output_def wf_spent_def fits_def DomainSubnetworkIDSize_def SubnetworkIDNative_def)

lemma sample_spend_hash:
  "\<exists>h r. CalculateSignatureHashSchnorr sample_lib (sample_spend script) 0 SigHashNone noReusedValues = Inr (h, r)"
proof -
  have "length (tx_Inputs (sample_spend script)) = 1" "in_UTXOEntry (tx_Inputs (sample_spend script) ! 0) \<noteq> None"
    by (simp_all add: sample_spend_def)
  then show ?thesis
    by (auto simp: CalculateSignatureHashSchnorr_def IsStandardSigHashType_def Let_def)
qed

theorem sighash_reuse_transparent_witness:
  "\<exists>h r h' r'. CalculateSignatureHashSchnorr sample_lib (sample_spend [1]) 0 SigHashNone noReusedValues = Inr (h, r) \<and>
     CalculateSignatureHashSchnorr sample_lib (sample_spend [1]) 0 SigHashNone r = Inr (h', r') \<and> h = h' \<and>
     r \<noteq> noReusedValues"
proof -
  obtain h r where h: "CalculateSignatureHashSchnorr sample_lib (sample_spend [1]) 0 SigHashNone noReusedValues = Inr (h, r)"
    using sample_spend_hash by blast
  have ok: "reuse_ok sample_lib (sample_spend [1]) r"
    using sighash_reuse_transparent [OF reuse_ok_none, of sample_lib "sample_spend [1]" 0 SigHashNone] h by blast
  from sighash_reuse_transparent [OF ok, of 0 SigHashNone] h
  have "\<exists>r'. CalculateSignatureHashSchnorr sample_lib (sample_spend [1]) 0 SigHashNone r = Inr (h, r')"
    by (auto simp: bindR_Inr_iff)
  moreover have "rv_previousOutputsHash r \<noteq> None"
    using h by (auto simp: CalculateSignatureHashSchnorr_def sample_spend_def calculateSignatureHash_def
        getPreviousOutputsHash_def getSequencesHash_def getSigOpCountsHash_def getOutputsHash_def getPayloadHash_def
        noReusedValues_def isSigHashAnyOneCanPay_def isSigHashNone_def isSigHashSingle_def SigHashNone_def
        SigHashAnyOneCanPay_def SigHashMask_def SigHashSingle_def Let_def sample_tx_def split: if_splits prod.splits)
  ultimately show ?thesis using h by (auto simp: noReusedValues_def)
qed

theorem sighash_commitment_witness:
  "\<exists>h r r'. CalculateSignatureHashSchnorr sample_lib (sample_spend [1]) 0 SigHashNone noReusedValues = Inr (h, r) \<and>
     CalculateSignatureHashSchnorr sample_lib (sample_spend [2]) 0 SigHashNone noReusedValues = Inr (h, r')"
proof -
  obtain h r where h: "CalculateSignatureHashSchnorr sample_lib (sample_spend [1]) 0 SigHashNone noReusedValues = Inr (h, r)"
    using sample_spend_hash by blast
  obtain h' r' where h': "CalculateSignatureHashSchnorr sample_lib (sample_spend [2]) 0 SigHashNone noReusedValues = Inr (h', r')"
    using sample_spend_hash by blast
  have "view_at (sample_spend [1]) 0 SigHashNone = view_at (sample_spend [2]) 0 SigHashNone"
    by (simp add: view_at_def sample_spend_def signed_view_def isSigHashNone_def SigHashNone_def SigHashMask_def sample_tx_def)
  then have "h = h'"
    using sighash_commitment [OF sample_spend_ok(1) sample_spend_ok(2) sample_spend_ok(3) sample_spend_ok(2)
        sample_spend_ok(3) reuse_ok_none reuse_ok_none h h'] by (simp add: fits_def)
  with h h' show ?thesis by blast
qed

end
