(* ===== verification/SigCache.thy ===== *)
theory SigCache
  imports ScriptError "HOL-Library.AList"
begin

text \<open>
  The caches of verified signatures (\<^verbatim>\<open>txscript/sigcache.go\<close>, \<^verbatim>\<open>txscript/sigcache_ecdsa.go\<close>) and
  verification through a cache as the signature opcodes do it. The Go map is an association
  list with distinct keys. Its iteration order is unspecified: the argument \<open>start\<close> gives,
  for the list of keys, the position of the entry an iteration visits first, and may be any
  function.
\<close>

section \<open>Memoized predicates\<close>

text \<open>
  The contract between a cache of positive answers and its client: a hit is a query that holds,
  and a query that holds may be added. The client asks the cache first and the predicate only
  on a miss.
\<close>

locale memo_cache =
  fixes holds :: "'q \<Rightarrow> bool"
    and hit :: "'c \<Rightarrow> 'q \<Rightarrow> bool"
    and add :: "'c \<Rightarrow> 'q \<Rightarrow> 'c"
    and invar :: "'c \<Rightarrow> bool"
  assumes hit_holds: "\<lbrakk> invar c; hit c q \<rbrakk> \<Longrightarrow> holds q"
    and invar_add: "\<lbrakk> invar c; holds q \<rbrakk> \<Longrightarrow> invar (add c q)"
begin

definition ask :: "'c option \<Rightarrow> 'q \<Rightarrow> bool \<times> 'c option" where
  "ask cache q =
     (case cache of
        None \<Rightarrow> (holds q, None)
      | Some c \<Rightarrow> if hit c q then (True, Some c)
                  else if holds q then (True, Some (add c q)) else (False, Some c))"

lemma ask_holds: "pred_option invar cache \<Longrightarrow> fst (ask cache q) = holds q"
  by (auto simp: ask_def hit_holds split: option.split)

lemma ask_invar: "pred_option invar cache \<Longrightarrow> pred_option invar (snd (ask cache q))"
  by (auto simp: ask_def invar_add split: option.split)

lemma ask_None: "snd (ask cache q) = None \<longleftrightarrow> cache = None"
  by (auto simp: ask_def split: option.split)

text \<open>A client that asks many queries gets the answers of the predicate.\<close>

primrec asks :: "'c option \<Rightarrow> 'q list \<Rightarrow> bool list" where
  "asks cache [] = []"
| "asks cache (q # qs) = fst (ask cache q) # asks (snd (ask cache q)) qs"

lemma asks_holds: "pred_option invar cache \<Longrightarrow> asks cache qs = map holds qs"
  by (induction qs arbitrary: cache) (simp_all add: ask_holds ask_invar)

end

section \<open>The cache\<close>

record ('k, 's) sigCacheEntry =
  entry_sig :: 's
  entry_pubKey :: 'k

record ('k, 's) SigCache =
  validSigs :: "(bytes \<times> ('k, 's) sigCacheEntry) list"
  maxEntries :: nat

definition NewSigCache :: "nat \<Rightarrow> ('k, 's) SigCache" where
  "NewSigCache n = \<lparr>validSigs = [], maxEntries = n\<rparr>"

definition SigCache_Exists :: "('k, 's) SigCache \<Rightarrow> bytes \<Rightarrow> 's \<Rightarrow> 'k \<Rightarrow> bool" where
  "SigCache_Exists s sigHash sig pubKey =
     (case map_of (validSigs s) sigHash of
        None \<Rightarrow> False
      | Some entry \<Rightarrow> entry_pubKey entry = pubKey \<and> entry_sig entry = sig)"

text \<open>The key that an iteration over a non-empty map visits first.\<close>

definition firstKey :: "(bytes list \<Rightarrow> nat) \<Rightarrow> (bytes \<times> 'v) list \<Rightarrow> bytes" where
  "firstKey start m = map fst m ! (start (map fst m) mod length m)"

definition SigCache_Add ::
  "(bytes list \<Rightarrow> nat) \<Rightarrow> ('k, 's) SigCache \<Rightarrow> bytes \<Rightarrow> 's \<Rightarrow> 'k \<Rightarrow> ('k, 's) SigCache" where
  "SigCache_Add start s sigHash sig pubKey =
     (if maxEntries s = 0 then s
      else let m = (if length (validSigs s) + 1 > maxEntries s
                    then (if validSigs s = [] then validSigs s
                          else AList.delete (firstKey start (validSigs s)) (validSigs s))
                    else validSigs s)
           in s\<lparr>validSigs := AList.update sigHash \<lparr>entry_sig = sig, entry_pubKey = pubKey\<rparr> m\<rparr>)"

text \<open>The code of \<^verbatim>\<open>SigCacheECDSA\<close> is that of \<^verbatim>\<open>SigCache\<close> at the ECDSA types of keys and signatures.\<close>

type_synonym ('k, 's) SigCacheECDSA = "('k, 's) SigCache"

definition NewSigCacheECDSA :: "nat \<Rightarrow> ('k, 's) SigCacheECDSA" where
  "NewSigCacheECDSA n = \<lparr>validSigs = [], maxEntries = n\<rparr>"

text \<open>
  Verification through an optional cache, as the four signature opcodes have it: \<open>None\<close> is the
  nil cache.
\<close>

definition cachedVerify ::
  "('k \<Rightarrow> bytes \<Rightarrow> 's \<Rightarrow> bool) \<Rightarrow> (bytes list \<Rightarrow> nat) \<Rightarrow> ('k, 's) SigCache option \<Rightarrow> bytes \<Rightarrow> 's \<Rightarrow> 'k \<Rightarrow>
     bool \<times> ('k, 's) SigCache option" where
  "cachedVerify verify start cache secpHash signature pubKey =
     (case cache of
        Some c \<Rightarrow>
          (if SigCache_Exists c secpHash signature pubKey then (True, Some c)
           else if verify pubKey secpHash signature
           then (True, Some (SigCache_Add start c secpHash signature pubKey))
           else (False, Some c))
      | None \<Rightarrow> (verify pubKey secpHash signature, None))"

section \<open>Only valid signatures are cached\<close>

definition sigCache_ok :: "('k \<Rightarrow> bytes \<Rightarrow> 's \<Rightarrow> bool) \<Rightarrow> ('k, 's) SigCache \<Rightarrow> bool" where
  "sigCache_ok verify c \<longleftrightarrow>
     distinct (map fst (validSigs c)) \<and> length (validSigs c) \<le> maxEntries c \<and>
     (\<forall>(h, e) \<in> set (validSigs c). verify (entry_pubKey e) h (entry_sig e))"

lemma sigCache_ok_new [simp]: "sigCache_ok verify (NewSigCache n)" "sigCache_ok verify (NewSigCacheECDSA n)"
  by (simp_all add: sigCache_ok_def NewSigCache_def NewSigCacheECDSA_def)

lemma set_update_subset: "set (AList.update k v m) \<subseteq> insert (k, v) (set m)"
  by (induction m) auto

lemma set_delete_subset: "set (AList.delete k m) \<subseteq> set m"
  by (auto simp: AList.delete_eq)

lemma length_update_le: "length (AList.update k v m) \<le> Suc (length m)"
  by (induction m) auto

lemma firstKey_in: "m \<noteq> [] \<Longrightarrow> firstKey start m \<in> fst ` set m"
proof -
  assume "m \<noteq> []"
  then have "start (map fst m) mod length m < length (map fst m)" by simp
  then show ?thesis unfolding firstKey_def list.set_map [symmetric] by (rule nth_mem)
qed

lemma length_delete_less: "k \<in> fst ` set m \<Longrightarrow> length (AList.delete k m) < length m"
  unfolding AList.delete_eq by (erule imageE) (rule length_filter_less, auto)

lemma SigCache_Add_ok:
  assumes "sigCache_ok verify c" "verify pk h s"
  shows "sigCache_ok verify (SigCache_Add start c h s pk)"
proof (cases "maxEntries c = 0")
  case False
  define m where "m = (if length (validSigs c) + 1 > maxEntries c
    then (if validSigs c = [] then validSigs c else AList.delete (firstKey start (validSigs c)) (validSigs c))
    else validSigs c)"
  have eq: "SigCache_Add start c h s pk = c\<lparr>validSigs := AList.update h \<lparr>entry_sig = s, entry_pubKey = pk\<rparr> m\<rparr>"
    using False by (simp add: SigCache_Add_def m_def Let_def)
  have sub: "set m \<subseteq> set (validSigs c)" using set_delete_subset [of "firstKey start (validSigs c)" "validSigs c"] by (simp add: m_def)
  have "distinct (map fst m)" using assms(1) by (simp add: m_def sigCache_ok_def distinct_delete)
  moreover have "Suc (length m) \<le> maxEntries c"
  proof (cases "length (validSigs c) + 1 > maxEntries c \<and> validSigs c \<noteq> []")
    case True
    then have "length m < length (validSigs c)" using length_delete_less [OF firstKey_in, of "validSigs c" start] by (simp add: m_def)
    with assms(1) show ?thesis by (simp add: sigCache_ok_def)
  next
    case no: False
    with False assms(1) show ?thesis by (auto simp: m_def sigCache_ok_def)
  qed
  moreover have "length (AList.update h \<lparr>entry_sig = s, entry_pubKey = pk\<rparr> m) \<le> Suc (length m)"
    by (rule length_update_le)
  moreover have "\<forall>(h, e) \<in> set (AList.update h \<lparr>entry_sig = s, entry_pubKey = pk\<rparr> m). verify (entry_pubKey e) h (entry_sig e)"
  proof (rule ballI)
    fix x assume "x \<in> set (AList.update h \<lparr>entry_sig = s, entry_pubKey = pk\<rparr> m)"
    then have "x = (h, \<lparr>entry_sig = s, entry_pubKey = pk\<rparr>) \<or> x \<in> set (validSigs c)"
      using set_update_subset [of h "\<lparr>entry_sig = s, entry_pubKey = pk\<rparr>" m] sub by blast
    then show "case x of (h, e) \<Rightarrow> verify (entry_pubKey e) h (entry_sig e)"
      using assms by (auto simp: sigCache_ok_def)
  qed
  ultimately show ?thesis
    unfolding eq sigCache_ok_def by (simp add: distinct_update)
qed (use assms in \<open>simp add: SigCache_Add_def\<close>)

lemma SigCache_Exists_valid:
  "\<lbrakk> sigCache_ok verify c; SigCache_Exists c h s pk \<rbrakk> \<Longrightarrow> verify pk h s"
  by (auto simp: SigCache_Exists_def sigCache_ok_def split: option.splits dest!: map_of_SomeD)

interpretation sig_cache: memo_cache "\<lambda>(pk, h, s). verify pk h s"
  "\<lambda>c (pk, h, s). SigCache_Exists c h s pk" "\<lambda>c (pk, h, s). SigCache_Add start c h s pk" "sigCache_ok verify"
  for verify :: "'k \<Rightarrow> bytes \<Rightarrow> 's \<Rightarrow> bool" and start
  by unfold_locales (auto intro: SigCache_Exists_valid SigCache_Add_ok)

lemma cachedVerify_ask:
  "cachedVerify verify start cache h s pk = sig_cache.ask verify start cache (pk, h, s)"
  by (simp add: cachedVerify_def sig_cache.ask_def split: option.split)

lemma cachedVerify_valid:
  "pred_option (sigCache_ok verify) cache \<Longrightarrow>
     \<exists>cache'. cachedVerify verify start cache h s pk = (verify pk h s, cache') \<and> pred_option (sigCache_ok verify) cache'"
  using sig_cache.ask_holds [of verify cache start "(pk, h, s)"] sig_cache.ask_invar [of verify cache start "(pk, h, s)"]
  by (simp add: cachedVerify_ask prod_eq_iff)

section \<open>Properties\<close>

text \<open>
  C7: The signature cache is transparent and bounded: starting from a cache that holds only
  verified signatures (such as a new one), or from none, verification through the cache
  answers as the verification itself whatever entry is evicted, and the cache keeps holding
  only verified signatures, one per hash, and no more of them than its maximum.
\<close>

theorem signature_cache_transparent:
  assumes "pred_option (sigCache_ok verify) cache"
  shows "fst (cachedVerify verify start cache h s pk) = verify pk h s \<and>
    pred_option (sigCache_ok verify) (snd (cachedVerify verify start cache h s pk)) \<and>
    pred_option (\<lambda>c. length (validSigs c) \<le> maxEntries c) (snd (cachedVerify verify start cache h s pk))"
proof -
  obtain cache' where c: "cachedVerify verify start cache h s pk = (verify pk h s, cache')"
    "pred_option (sigCache_ok verify) cache'"
    using cachedVerify_valid [OF assms] by blast
  moreover have "pred_option (\<lambda>c. length (validSigs c) \<le> maxEntries c) cache'"
    using c(2) by (cases cache') (simp_all add: sigCache_ok_def)
  ultimately show ?thesis by simp
qed

theorem signature_cache_transparent_witness:
  "\<exists>c. cachedVerify (\<lambda>k h s. k = s) (\<lambda>_. 5) (Some (NewSigCache 1)) [7] (3 :: nat) 3 = (True, Some c) \<and>
     cachedVerify (\<lambda>k h s. k = s) (\<lambda>_. 5) (Some c) [7] 3 4 = (False, Some c)"
proof -
  let ?v = "\<lambda>(k :: nat) (h :: bytes) s. k = s"
  let ?c = "\<lparr>validSigs = [([7], \<lparr>entry_sig = 3, entry_pubKey = 3\<rparr>)], maxEntries = 1\<rparr>"
  have 1: "cachedVerify ?v (\<lambda>_. 5) (Some (NewSigCache 1)) [7] 3 3 = (True, Some ?c)"
    by (simp add: cachedVerify_def SigCache_Exists_def SigCache_Add_def NewSigCache_def)
  have "pred_option (sigCache_ok ?v) (Some ?c)"
    using signature_cache_transparent [of ?v "Some (NewSigCache 1)" "\<lambda>_. 5" "[7]" 3 3] 1 by simp
  from signature_cache_transparent [OF this, of "\<lambda>_. 5" "[7]" 3 4]
  have "cachedVerify ?v (\<lambda>_. 5) (Some ?c) [7] 3 4 = (False, Some ?c)"
    by (auto simp: cachedVerify_def split: if_splits)
  with 1 show ?thesis by blast
qed

end
