(* ===== verification/ScriptOps.thy ===== *)
theory ScriptOps
  imports ScriptParse SigHash SigCache
begin

text \<open>
  The state of the script engine (\<^verbatim>\<open>Engine\<close> in \<^verbatim>\<open>txscript/engine.go\<close>) and the handlers of
  \<^verbatim>\<open>txscript/opcode.go\<close> that do not check signatures, one definition per handler. A handler
  returns the updated engine or the failure; after an error the engine is not used any more.
\<close>

section \<open>The engine\<close>

text \<open>
  \<^verbatim>\<open>scriptIdx\<close>, \<^verbatim>\<open>scriptOff\<close> and \<^verbatim>\<open>txIdx\<close> are never negative; the pointer to the reused signature
  hashes is not nil. The types \<open>'k\<close> and \<open>'s\<close> are those of public keys and signatures.
\<close>

record ('k, 's) Engine =
  scriptVersion :: uint16
  scripts :: "parsedOpcode list list"
  scriptIdx :: nat
  scriptOff :: nat
  dstack :: stack
  astack :: stack
  vm_tx :: DomainTransaction
  txIdx :: nat
  condStack :: "int list"
  numOps :: int
  flags :: uint32
  sigCache :: "('k, 's) SigCache option"
  sigCacheECDSA :: "('k, 's) SigCacheECDSA option"
  sigHashReusedValues :: SighashReusedValues
  isP2SH :: bool
  savedFirstStack :: stack

text \<open>
  The libraries the engine calls: the hash functions, the parsing of keys and signatures
  (\<open>None\<close> is the error), the verification of the two signature schemes, and the start of the
  iteration over a map.
\<close>

record ('k, 's) sigLib =
  lib_hashes :: hashLib
  DeserializeSchnorrPubKey :: "bytes \<Rightarrow> 'k option"
  DeserializeSchnorrSignatureFromSlice :: "bytes \<Rightarrow> 's option"
  SchnorrVerify :: "'k \<Rightarrow> bytes \<Rightarrow> 's \<Rightarrow> bool"
  DeserializeECDSAPubKey :: "bytes \<Rightarrow> 'k option"
  DeserializeECDSASignatureFromSlice :: "bytes \<Rightarrow> 's option"
  ECDSAVerify :: "'k \<Rightarrow> bytes \<Rightarrow> 's \<Rightarrow> bool"
  mapStart :: "bytes list \<Rightarrow> nat"

type_synonym ('k, 's) handler = "parsedOpcode \<Rightarrow> ('k, 's) Engine \<Rightarrow> ('k, 's) Engine outcome"

text \<open>A call that changes the data stack of the engine.\<close>

definition onDstack :: "(stack \<Rightarrow> stack outcome) \<Rightarrow> ('k, 's) Engine \<Rightarrow> ('k, 's) Engine outcome" where
  "onDstack f vm = bindR (f (dstack vm)) (\<lambda>s. Inr (vm\<lparr>dstack := s\<rparr>))"

definition OpCondFalse :: int where "OpCondFalse = 0"
definition OpCondTrue :: int where "OpCondTrue = 1"
definition OpCondSkip :: int where "OpCondSkip = 2"

definition isBranchExecuting :: "('k, 's) Engine \<Rightarrow> bool" where
  "isBranchExecuting vm =
     (if length (condStack vm) = 0 then True
      else condStack vm ! (length (condStack vm) - 1) = OpCondTrue)"

section \<open>Reserved opcodes and constants\<close>

definition opcodeDisabled :: "('k, 's) handler" where
  "opcodeDisabled pop vm = scriptError ErrDisabledOpcode"

definition opcodeReserved :: "('k, 's) handler" where
  "opcodeReserved pop vm = scriptError ErrReservedOpcode"

definition opcodeInvalid :: "('k, 's) handler" where
  "opcodeInvalid pop vm = scriptError ErrReservedOpcode"

definition opcodeFalse :: "('k, 's) handler" where
  "opcodeFalse pop = onDstack (\<lambda>s. Inr (PushByteArray s []))"

definition opcodePushData :: "('k, 's) handler" where
  "opcodePushData pop = onDstack (\<lambda>s. Inr (PushByteArray s (dataOf pop)))"

definition opcode1Negate :: "('k, 's) handler" where
  "opcode1Negate pop = onDstack (\<lambda>s. PushInt s (-1))"

definition opcodeN :: "('k, 's) handler" where
  "opcodeN pop = onDstack (\<lambda>s. PushInt s (uint (pop_value pop - (Op1 - 1))))"

definition opcodeNop :: "('k, 's) handler" where
  "opcodeNop pop vm = Inr vm"

section \<open>Control flow\<close>

definition popIfBool :: "('k, 's) Engine \<Rightarrow> (bool \<times> ('k, 's) Engine) outcome" where
  "popIfBool vm = bindR (PopByteArray (dstack vm)) (\<lambda>(so, s).
     if length so = 1 \<and> so ! 0 = 0x01 then Inr (True, vm\<lparr>dstack := s\<rparr>)
     else if length so = 0 then Inr (False, vm\<lparr>dstack := s\<rparr>)
     else scriptError ErrMinimalIf)"

definition opcodeIf :: "('k, 's) handler" where
  "opcodeIf pop vm =
     bindR (if isBranchExecuting vm
            then bindR (popIfBool vm) (\<lambda>(ok, vm). Inr (if ok then OpCondTrue else OpCondFalse, vm))
            else Inr (OpCondSkip, vm))
       (\<lambda>(condVal, vm). Inr (vm\<lparr>condStack := condStack vm @ [condVal]\<rparr>))"

definition opcodeNotIf :: "('k, 's) handler" where
  "opcodeNotIf pop vm =
     bindR (if isBranchExecuting vm
            then bindR (popIfBool vm) (\<lambda>(ok, vm). Inr (if \<not> ok then OpCondTrue else OpCondFalse, vm))
            else Inr (OpCondSkip, vm))
       (\<lambda>(condVal, vm). Inr (vm\<lparr>condStack := condStack vm @ [condVal]\<rparr>))"

definition opcodeElse :: "('k, 's) handler" where
  "opcodeElse pop vm =
     (if length (condStack vm) = 0 then scriptError ErrUnbalancedConditional
      else let conditionalIdx = length (condStack vm) - 1; c = condStack vm ! conditionalIdx
           in Inr (if c = OpCondTrue then vm\<lparr>condStack := (condStack vm)[conditionalIdx := OpCondFalse]\<rparr>
                   else if c = OpCondFalse then vm\<lparr>condStack := (condStack vm)[conditionalIdx := OpCondTrue]\<rparr>
                   else vm))"

definition opcodeEndif :: "('k, 's) handler" where
  "opcodeEndif pop vm =
     (if length (condStack vm) = 0 then scriptError ErrUnbalancedConditional
      else Inr (vm\<lparr>condStack := take (length (condStack vm) - 1) (condStack vm)\<rparr>))"

definition abstractVerify :: "ErrorCode \<Rightarrow> ('k, 's) handler" where
  "abstractVerify c pop = onDstack (\<lambda>s. bindR (PopBool s) (\<lambda>(verified, s).
     if \<not> verified then scriptError c else Inr s))"

definition opcodeVerify :: "('k, 's) handler" where
  "opcodeVerify = abstractVerify ErrVerify"

definition opcodeReturn :: "('k, 's) handler" where
  "opcodeReturn pop vm = scriptError ErrEarlyReturn"

section \<open>Lock times\<close>

definition MaxTxInSequenceNum :: uint64 where "MaxTxInSequenceNum = 0xffffffffffffffff"
definition SequenceLockTimeDisabled :: uint64 where "SequenceLockTimeDisabled = push_bit 63 1"
definition SequenceLockTimeMask :: uint64 where "SequenceLockTimeMask = 0x00000000ffffffff"
definition LockTimeThreshold :: uint64 where "LockTimeThreshold = 500000000000"

definition verifyLockTime :: "uint64 \<Rightarrow> uint64 \<Rightarrow> unit outcome" where
  "verifyLockTime txLockTime lockTime =
     (if lockTime > txLockTime then scriptError ErrUnsatisfiedLockTime else Inr ())"

definition verifyLockTimeThreshold :: "uint64 \<Rightarrow> uint64 \<Rightarrow> uint64 \<Rightarrow> unit outcome" where
  "verifyLockTimeThreshold txLockTime threshold lockTime =
     (if \<not> ((txLockTime < threshold \<and> lockTime < threshold) \<or> (txLockTime \<ge> threshold \<and> lockTime \<ge> threshold))
      then scriptError ErrUnsatisfiedLockTime else Inr ())"

definition verifyLockTimeWithThreshold :: "uint64 \<Rightarrow> uint64 \<Rightarrow> uint64 \<Rightarrow> unit outcome" where
  "verifyLockTimeWithThreshold txLockTime threshold lockTime =
     bindR (verifyLockTimeThreshold txLockTime threshold lockTime) (\<lambda>_. verifyLockTime txLockTime lockTime)"

text \<open>The operand of the lock time opcodes: at most 8 bytes, padded with zeros and read as little endian.\<close>

definition lockTimeOperand :: "bytes \<Rightarrow> uint64 outcome" where
  "lockTimeOperand b =
     (if length b > 8 then scriptError ErrNumberTooBig
      else Inr (word_of_nat (getLE (if length b < 8 then b @ replicate (8 - length b) 0 else b))))"

text \<open>\<^verbatim>\<open>vm.tx.Inputs[vm.txIdx].Sequence\<close>, which panics when the index is out of range.\<close>

definition currentSequence :: "('k, 's) Engine \<Rightarrow> uint64 outcome" where
  "currentSequence vm =
     (if txIdx vm \<ge> length (tx_Inputs (vm_tx vm)) then Inl GoPanic
      else Inr (in_Sequence (tx_Inputs (vm_tx vm) ! txIdx vm)))"

definition opcodeCheckLockTimeVerify :: "('k, 's) handler" where
  "opcodeCheckLockTimeVerify pop vm =
     bindR (PopByteArray (dstack vm)) (\<lambda>(lockTimeBytes, s).
     bindR (lockTimeOperand lockTimeBytes) (\<lambda>stackLockTime.
     bindR (verifyLockTimeWithThreshold (tx_LockTime (vm_tx vm)) LockTimeThreshold stackLockTime) (\<lambda>_.
     bindR (currentSequence vm) (\<lambda>sequence.
       if sequence = MaxTxInSequenceNum then scriptError ErrUnsatisfiedLockTime
       else Inr (vm\<lparr>dstack := s\<rparr>)))))"

definition opcodeCheckSequenceVerify :: "('k, 's) handler" where
  "opcodeCheckSequenceVerify pop vm =
     bindR (PopByteArray (dstack vm)) (\<lambda>(sequenceBytes, s).
     bindR (lockTimeOperand sequenceBytes) (\<lambda>stackSequence.
       if stackSequence AND SequenceLockTimeDisabled \<noteq> 0 then Inr (vm\<lparr>dstack := s\<rparr>)
       else bindR (currentSequence vm) (\<lambda>txSequence.
         if txSequence AND SequenceLockTimeDisabled \<noteq> 0 then scriptError ErrUnsatisfiedLockTime
         else bindR (verifyLockTime (txSequence AND SequenceLockTimeMask) (stackSequence AND SequenceLockTimeMask)) (\<lambda>_.
           Inr (vm\<lparr>dstack := s\<rparr>)))))"

section \<open>Stack opcodes\<close>

definition opcodeToAltStack :: "('k, 's) handler" where
  "opcodeToAltStack pop vm = bindR (PopByteArray (dstack vm)) (\<lambda>(so, s).
     Inr (vm\<lparr>dstack := s, astack := PushByteArray (astack vm) so\<rparr>))"

definition opcodeFromAltStack :: "('k, 's) handler" where
  "opcodeFromAltStack pop vm = bindR (PopByteArray (astack vm)) (\<lambda>(so, s).
     Inr (vm\<lparr>astack := s, dstack := PushByteArray (dstack vm) so\<rparr>))"

definition opcode2Drop :: "('k, 's) handler" where "opcode2Drop pop = onDstack (\<lambda>s. DropN s 2)"
definition opcode2Dup :: "('k, 's) handler" where "opcode2Dup pop = onDstack (\<lambda>s. DupN s 2)"
definition opcode3Dup :: "('k, 's) handler" where "opcode3Dup pop = onDstack (\<lambda>s. DupN s 3)"
definition opcode2Over :: "('k, 's) handler" where "opcode2Over pop = onDstack (\<lambda>s. OverN s 2)"
definition opcode2Rot :: "('k, 's) handler" where "opcode2Rot pop = onDstack (\<lambda>s. RotN s 2)"
definition opcode2Swap :: "('k, 's) handler" where "opcode2Swap pop = onDstack (\<lambda>s. SwapN s 2)"

definition opcodeIfDup :: "('k, 's) handler" where
  "opcodeIfDup pop = onDstack (\<lambda>s. bindR (PeekByteArray s 0) (\<lambda>so.
     Inr (if asBool so then PushByteArray s so else s)))"

definition opcodeDepth :: "('k, 's) handler" where "opcodeDepth pop = onDstack (\<lambda>s. PushInt s (Depth s))"
definition opcodeDrop :: "('k, 's) handler" where "opcodeDrop pop = onDstack (\<lambda>s. DropN s 1)"
definition opcodeDup :: "('k, 's) handler" where "opcodeDup pop = onDstack (\<lambda>s. DupN s 1)"
definition opcodeNip :: "('k, 's) handler" where "opcodeNip pop = onDstack (\<lambda>s. NipN s 1)"
definition opcodeOver :: "('k, 's) handler" where "opcodeOver pop = onDstack (\<lambda>s. OverN s 1)"

definition opcodePick :: "('k, 's) handler" where
  "opcodePick pop = onDstack (\<lambda>s. bindR (PopInt s) (\<lambda>(val, s). PickN s (scriptNum_Int32 val)))"

definition opcodeRoll :: "('k, 's) handler" where
  "opcodeRoll pop = onDstack (\<lambda>s. bindR (PopInt s) (\<lambda>(val, s). RollN s (scriptNum_Int32 val)))"

definition opcodeRot :: "('k, 's) handler" where "opcodeRot pop = onDstack (\<lambda>s. RotN s 1)"
definition opcodeSwap :: "('k, 's) handler" where "opcodeSwap pop = onDstack (\<lambda>s. SwapN s 1)"
definition opcodeTuck :: "('k, 's) handler" where "opcodeTuck pop = onDstack Tuck"

definition opcodeSize :: "('k, 's) handler" where
  "opcodeSize pop = onDstack (\<lambda>s. bindR (PeekByteArray s 0) (\<lambda>so. PushInt s (int (length so))))"

definition opcodeEqual :: "('k, 's) handler" where
  "opcodeEqual pop = onDstack (\<lambda>s. bindR (PopByteArray s) (\<lambda>(a, s). bindR (PopByteArray s) (\<lambda>(b, s).
     Inr (PushBool s (a = b)))))"

definition opcodeEqualVerify :: "('k, 's) handler" where
  "opcodeEqualVerify pop vm = bindR (opcodeEqual pop vm) (abstractVerify ErrEqualVerify pop)"

section \<open>Arithmetic\<close>

definition opcode1Add :: "('k, 's) handler" where
  "opcode1Add pop = onDstack (\<lambda>s. bindR (PopInt s) (\<lambda>(m, s). PushInt s (int64 (m + 1))))"

definition opcode1Sub :: "('k, 's) handler" where
  "opcode1Sub pop = onDstack (\<lambda>s. bindR (PopInt s) (\<lambda>(m, s). PushInt s (int64 (m - 1))))"

definition opcodeNegate :: "('k, 's) handler" where
  "opcodeNegate pop = onDstack (\<lambda>s. bindR (PopInt s) (\<lambda>(m, s). PushInt s (int64 (- m))))"

definition opcodeAbs :: "('k, 's) handler" where
  "opcodeAbs pop = onDstack (\<lambda>s. bindR (PopInt s) (\<lambda>(m, s). PushInt s (if m < 0 then int64 (- m) else m)))"

definition opcodeNot :: "('k, 's) handler" where
  "opcodeNot pop = onDstack (\<lambda>s. bindR (PopInt s) (\<lambda>(m, s). PushInt s (if m = 0 then 1 else 0)))"

definition opcode0NotEqual :: "('k, 's) handler" where
  "opcode0NotEqual pop = onDstack (\<lambda>s. bindR (PopInt s) (\<lambda>(m, s). PushInt s (if m \<noteq> 0 then 1 else m)))"

text \<open>Binary operations pop \<open>v0\<close>, the top, then \<open>v1\<close>.\<close>

definition popTwo :: "(scriptNum \<Rightarrow> scriptNum \<Rightarrow> scriptNum) \<Rightarrow> stack \<Rightarrow> stack outcome" where
  "popTwo f s = bindR (PopInt s) (\<lambda>(v0, s). bindR (PopInt s) (\<lambda>(v1, s). PushInt s (f v0 v1)))"

definition opcodeAdd :: "('k, 's) handler" where
  "opcodeAdd pop = onDstack (popTwo (\<lambda>v0 v1. int64 (v0 + v1)))"

definition opcodeSub :: "('k, 's) handler" where
  "opcodeSub pop = onDstack (popTwo (\<lambda>v0 v1. int64 (v1 - v0)))"

definition opcodeBoolAnd :: "('k, 's) handler" where
  "opcodeBoolAnd pop = onDstack (popTwo (\<lambda>v0 v1. if v0 \<noteq> 0 \<and> v1 \<noteq> 0 then 1 else 0))"

definition opcodeBoolOr :: "('k, 's) handler" where
  "opcodeBoolOr pop = onDstack (popTwo (\<lambda>v0 v1. if v0 \<noteq> 0 \<or> v1 \<noteq> 0 then 1 else 0))"

definition opcodeNumEqual :: "('k, 's) handler" where
  "opcodeNumEqual pop = onDstack (popTwo (\<lambda>v0 v1. if v0 = v1 then 1 else 0))"

definition opcodeNumEqualVerify :: "('k, 's) handler" where
  "opcodeNumEqualVerify pop vm = bindR (opcodeNumEqual pop vm) (abstractVerify ErrNumEqualVerify pop)"

definition opcodeNumNotEqual :: "('k, 's) handler" where
  "opcodeNumNotEqual pop = onDstack (popTwo (\<lambda>v0 v1. if v0 \<noteq> v1 then 1 else 0))"

definition opcodeLessThan :: "('k, 's) handler" where
  "opcodeLessThan pop = onDstack (popTwo (\<lambda>v0 v1. if v1 < v0 then 1 else 0))"

definition opcodeGreaterThan :: "('k, 's) handler" where
  "opcodeGreaterThan pop = onDstack (popTwo (\<lambda>v0 v1. if v1 > v0 then 1 else 0))"

definition opcodeLessThanOrEqual :: "('k, 's) handler" where
  "opcodeLessThanOrEqual pop = onDstack (popTwo (\<lambda>v0 v1. if v1 \<le> v0 then 1 else 0))"

definition opcodeGreaterThanOrEqual :: "('k, 's) handler" where
  "opcodeGreaterThanOrEqual pop = onDstack (popTwo (\<lambda>v0 v1. if v1 \<ge> v0 then 1 else 0))"

definition opcodeMin :: "('k, 's) handler" where
  "opcodeMin pop = onDstack (popTwo (\<lambda>v0 v1. if v1 < v0 then v1 else v0))"

definition opcodeMax :: "('k, 's) handler" where
  "opcodeMax pop = onDstack (popTwo (\<lambda>v0 v1. if v1 > v0 then v1 else v0))"

definition opcodeWithin :: "('k, 's) handler" where
  "opcodeWithin pop = onDstack (\<lambda>s. bindR (PopInt s) (\<lambda>(maxVal, s). bindR (PopInt s) (\<lambda>(minVal, s).
     bindR (PopInt s) (\<lambda>(x, s). PushInt s (if x \<ge> minVal \<and> x < maxVal then 1 else 0)))))"

section \<open>Hashes\<close>

definition opcodeSha256 :: "('k, 's) sigLib \<Rightarrow> ('k, 's) handler" where
  "opcodeSha256 env pop = onDstack (\<lambda>s. bindR (PopByteArray s) (\<lambda>(buf, s).
     Inr (PushByteArray s (sha256_Sum256 (lib_hashes env) buf))))"

definition opcodeBlake2b :: "('k, 's) sigLib \<Rightarrow> ('k, 's) handler" where
  "opcodeBlake2b env pop = onDstack (\<lambda>s. bindR (PopByteArray s) (\<lambda>(buf, s).
     Inr (PushByteArray s (blake2b_Sum256 (lib_hashes env) buf))))"

section \<open>Stack effects\<close>

text \<open>
  \<open>fit s\<close>: a stack as the engine can have it, with room to spare: at most 1000 elements, none of
  them longer than the maximum. \<open>within n r\<close>: a stack result that is no panic, has at most \<open>n\<close>
  elements and none that is too long.
\<close>

named_theorems effect \<open>rules for the effect of stack operations on the stack\<close>

definition elems_ok :: "stack \<Rightarrow> bool" where
  "elems_ok s \<longleftrightarrow> (\<forall>x \<in> set s. length x \<le> MaxScriptElementSize)"

definition fit :: "stack \<Rightarrow> bool" where
  "fit s \<longleftrightarrow> length s \<le> 1000 \<and> elems_ok s"

definition within :: "nat \<Rightarrow> stack outcome \<Rightarrow> bool" where
  "within n r \<longleftrightarrow> ensures (\<lambda>s. length s \<le> n \<and> elems_ok s) r"

lemma elems_ok_simps [simp]:
  "elems_ok []" "elems_ok (x # s) \<longleftrightarrow> length x \<le> MaxScriptElementSize \<and> elems_ok s"
  "elems_ok (s @ t) \<longleftrightarrow> elems_ok s \<and> elems_ok t"
  by (auto simp: elems_ok_def)

lemma fit_small: "fit s \<Longrightarrow> small_stack s"
  by (simp add: fit_def small_stack_def)

lemma fitD: "fit s \<Longrightarrow> length s \<le> 1000 \<and> elems_ok s"
  by (simp add: fit_def)

lemma fit_append: "fit (s @ [x]) \<Longrightarrow> fit s \<and> length x \<le> MaxScriptElementSize"
  by (simp add: fit_def)

lemma within_simps [simp]:
  "within n (Inr s) \<longleftrightarrow> length s \<le> n \<and> elems_ok s" "within n (scriptError c)" "within n (Inl e) \<longleftrightarrow> e \<noteq> GoPanic"
  by (simp_all add: within_def)

lemma within_mono: "\<lbrakk> within m r; m \<le> n \<rbrakk> \<Longrightarrow> within n r"
  unfolding within_def by (erule ensures_mono) simp

lemma within_Pop [effect]:
  assumes "fit s"
    "\<And>x s'. \<lbrakk> length s = Suc (length s'); fit s'; length x \<le> MaxScriptElementSize; s = s' @ [x] \<rbrakk> \<Longrightarrow> within n (k (x, s'))"
  shows "within n (bindR (PopByteArray s) k)"
proof -
  from assms(1) have "small_stack s" by (rule fit_small)
  then show ?thesis
  proof (cases rule: PopByteArray_cases)
    case (item x s')
    with assms(1) fit_append [of s' x] assms(2) [of s' x] show ?thesis by simp
  qed simp
qed

lemma PopInt_cases:
  assumes "small_stack s"
  obtains (err) c where "PopInt s = scriptError c"
    | (num) m x s' where "s = s' @ [x]" "PopInt s = Inr (m, s')" "\<bar>m\<bar> < 2 ^ 31" "makeScriptNum x 4 = Inr m"
  using assms
proof (cases rule: PopByteArray_cases)
  case empty
  then show ?thesis using err by (simp add: PopInt_def)
next
  case (item x s')
  show ?thesis
  proof (cases "makeScriptNum x 4")
    case (Inl e)
    with item have "PopInt s = Inl e" by (simp add: PopInt_def defaultScriptNumLen_def)
    moreover have "e = ScriptErr ErrNumberTooBig \<or> e = ScriptErr ErrMinimalData"
      using Inl unfolding makeScriptNum_eq scriptError_def by (simp split: if_splits)
    ultimately show ?thesis using err by (auto simp: scriptError_def)
  next
    case (Inr m)
    with item have "PopInt s = Inr (m, s')" by (simp add: PopInt_def defaultScriptNumLen_def)
    moreover have "\<bar>m\<bar> < 2 ^ 31" using makeScriptNum_bound [OF Inr] by simp
    ultimately show ?thesis using num item Inr by blast
  qed
qed

lemma within_PopInt [effect]:
  assumes "fit s" "\<And>m s'. \<lbrakk> length s = Suc (length s'); fit s'; \<bar>m\<bar> < 2 ^ 31 \<rbrakk> \<Longrightarrow> within n (k (m, s'))"
  shows "within n (bindR (PopInt s) k)"
proof -
  from assms(1) have "small_stack s" by (rule fit_small)
  then show ?thesis
  proof (cases rule: PopInt_cases)
    case (num m x s')
    with assms(1) fit_append [of s' x] assms(2) [of s' m] show ?thesis by simp
  qed simp
qed

lemma within_PopBool [effect]:
  assumes "fit s" "\<And>b s'. \<lbrakk> length s = Suc (length s'); fit s' \<rbrakk> \<Longrightarrow> within n (k (b, s'))"
  shows "within n (bindR (PopBool s) k)"
proof -
  have "bindR (PopBool s) k = bindR (PopByteArray s) (\<lambda>(x, s'). k (asBool x, s'))"
    by (cases "PopByteArray s") (auto simp: PopBool_def)
  then show ?thesis using assms by (auto intro!: within_Pop)
qed

lemma within_PushInt [effect]:
  assumes "\<bar>m\<bar> < 2 ^ 63" "length s < n" "elems_ok s"
  shows "within n (PushInt s m)"
proof -
  obtain v where "scriptNum_Bytes m = Inr v" "length v \<le> 8"
    using makeScriptNum_Bytes [of m] assms(1) by (auto simp: abs_less_iff)
  then show ?thesis using assms by (simp add: PushInt_def PushByteArray_def MaxScriptElementSize_def)
qed

lemma nipN_cases:
  assumes "small_stack s"
  obtains (err) "nipN s i = scriptError ErrInvalidStackOperation"
    | (item) xs x ys where "s = xs @ x # ys" "nipN s i = Inr (x, xs @ ys)" "PeekByteArray s i = Inr x"
proof (cases "i < 0 \<or> int (length s) \<le> i")
  case True
  then show ?thesis using err nipN_range [OF assms] by blast
next
  case False
  then obtain j where j: "i = int j" "j < length s" by (metis nonneg_int_cases not_le of_nat_le_iff)
  let ?n = "length s - Suc j"
  have s: "s = take ?n s @ s ! ?n # drop (Suc ?n) s" using j by (simp add: Cons_nth_drop_Suc)
  have i: "i = int (length (drop (Suc ?n) s))" using j by simp
  have "nipN s i = Inr (s ! ?n, take ?n s @ drop (Suc ?n) s)" "PeekByteArray s i = Inr (s ! ?n)"
    using nipN_mid [of "take ?n s" "s ! ?n" "drop (Suc ?n) s"] PeekByteArray_mid [of "take ?n s" "s ! ?n" "drop (Suc ?n) s"]
      assms s i by simp_all
  with s show ?thesis using item by blast
qed

lemma within_nip [effect]:
  assumes "fit s"
    "\<And>x s'. \<lbrakk> length s = Suc (length s'); fit s'; length x \<le> MaxScriptElementSize \<rbrakk> \<Longrightarrow> within n (k (x, s'))"
  shows "within n (bindR (nipN s i) k)"
  using fit_small [OF assms(1)]
proof (cases rule: nipN_cases [of s i])
  case (item xs x ys)
  with assms(1) assms(2) [of "xs @ ys" x] show ?thesis by (simp add: fit_def)
qed simp

lemma within_Peek [effect]:
  assumes "fit s" "\<And>x. length x \<le> MaxScriptElementSize \<Longrightarrow> within n (k x)"
  shows "within n (bindR (PeekByteArray s i) k)"
proof (cases "i < 0 \<or> int (length s) \<le> i")
  case True
  then show ?thesis using PeekByteArray_range [OF fit_small [OF assms(1)]] by simp
next
  case False
  then have "length s - nat (i + 1) < length s" "Depth s = int (length s)"
    using assms(1) by (auto simp: fit_def Depth_def)
  then have "PeekByteArray s i = Inr (s ! nat (int (length s) - i - 1)) \<and> nat (int (length s) - i - 1) < length s"
    using False by (simp add: PeekByteArray_def Depth_def [symmetric] Let_def)
  then show ?thesis using assms by (auto simp: fit_def elems_ok_def)
qed

lemma within_drop_loop: "fit s \<Longrightarrow> within (length s) (drop_loop i s)"
proof (induction i arbitrary: s)
  case (Suc i)
  show ?case using Suc by (auto intro!: within_Pop intro: within_mono [OF Suc.IH])
qed (simp add: fit_def)

lemma within_peek_loop: "\<lbrakk> fit s; length s + i \<le> n; n \<le> 1000 \<rbrakk> \<Longrightarrow> within n (peek_loop i e s)"
  by (induction i arbitrary: s) (auto intro!: within_Peek simp: PushByteArray_def fit_def)

lemma within_nip_loop: "fit s \<Longrightarrow> within (length s) (nip_loop i e s)"
proof (induction i arbitrary: s)
  case (Suc i)
  have "within (length s) (nip_loop i e (PushByteArray s' x))"
    if "length s = Suc (length s')" "fit s'" "length x \<le> MaxScriptElementSize" for x s'
    using Suc.IH [of "PushByteArray s' x"] Suc.prems that by (simp add: PushByteArray_def fit_def)
  then show ?case using Suc.prems by (auto intro!: within_nip)
qed (simp add: fit_def)

lemma within_multi [effect]:
  "\<lbrakk> fit s; length s \<le> n \<rbrakk> \<Longrightarrow> within n (DropN s i)"
  "\<lbrakk> fit s; length s \<le> n \<rbrakk> \<Longrightarrow> within n (RotN s i)"
  "\<lbrakk> fit s; length s \<le> n \<rbrakk> \<Longrightarrow> within n (SwapN s i)"
  "\<lbrakk> fit s; length s + nat i \<le> n; n \<le> 1000 \<rbrakk> \<Longrightarrow> within n (DupN s i)"
  "\<lbrakk> fit s; length s + nat i \<le> n; n \<le> 1000 \<rbrakk> \<Longrightarrow> within n (OverN s i)"
  "\<lbrakk> fit s; length s \<le> n \<rbrakk> \<Longrightarrow> within n (RollN s i)"
  "\<lbrakk> fit s; length s < n \<rbrakk> \<Longrightarrow> within n (PickN s i)"
  "\<lbrakk> fit s; length s \<le> n \<rbrakk> \<Longrightarrow> within n (NipN s i)"
  "\<lbrakk> fit s; length s < n \<rbrakk> \<Longrightarrow> within n (Tuck s)"
  by (auto simp: DropN_def RotN_def SwapN_def DupN_def OverN_def RollN_def PickN_def NipN_def Tuck_def PushByteArray_def
      dest: fitD intro!: within_peek_loop within_nip within_Peek within_Pop
      intro: within_mono [OF within_drop_loop] within_mono [OF within_nip_loop])

text \<open>
  A stack function without panics that adds at most three elements, on the stacks the engine
  can have.
\<close>

definition tame :: "(stack \<Rightarrow> stack outcome) \<Rightarrow> bool" where
  "tame f \<longleftrightarrow> (\<forall>s. fit s \<longrightarrow> length s \<le> 900 \<longrightarrow> within (length s + 3) (f s))"

lemma tameI: "(\<And>s. \<lbrakk> fit s; length s \<le> 900 \<rbrakk> \<Longrightarrow> within (length s + 3) (f s)) \<Longrightarrow> tame f"
  by (simp add: tame_def)

lemma tame_popTwo: "(\<And>a b. \<lbrakk> \<bar>a\<bar> < 2 ^ 31; \<bar>b\<bar> < 2 ^ 31 \<rbrakk> \<Longrightarrow> \<bar>f a b\<bar> < 2 ^ 63) \<Longrightarrow> tame (popTwo f)"
  by (intro tameI) (auto simp: popTwo_def dest: fitD intro!: effect)

end
