(* ===== verification/ScriptSigOps.thy ===== *)
theory ScriptSigOps
  imports ScriptOps "HOL-Library.Sublist"
begin

text \<open>
  The signature opcodes of \<^verbatim>\<open>txscript/opcode.go\<close>. The Schnorr and the ECDSA handlers have the same
  code over different library calls, signature hashes and caches; what differs is the record
  \<open>sigScheme\<close>, and the shared code is written once over it.
\<close>

section \<open>Signature schemes\<close>

definition checkPubKeyEncoding :: "bytes \<Rightarrow> unit outcome" where
  "checkPubKeyEncoding pubKey = (if length pubKey = 32 then Inr () else scriptError ErrPubKeyFormat)"

definition checkPubKeyEncodingECDSA :: "bytes \<Rightarrow> unit outcome" where
  "checkPubKeyEncodingECDSA pubKey = (if length pubKey = 33 then Inr () else scriptError ErrPubKeyFormat)"

definition checkSignatureLength :: "bytes \<Rightarrow> unit outcome" where
  "checkSignatureLength sig = (if length sig \<noteq> 64 then scriptError ErrSigLength else Inr ())"

definition checkSignatureLengthECDSA :: "bytes \<Rightarrow> unit outcome" where
  "checkSignatureLengthECDSA sig = (if length sig \<noteq> 64 then scriptError ErrSigLength else Inr ())"

record ('k, 's) sigScheme =
  sch_checkPubKey :: "bytes \<Rightarrow> unit outcome"
  sch_checkSigLength :: "bytes \<Rightarrow> unit outcome"
  sch_sigHash :: "DomainTransaction \<Rightarrow> nat \<Rightarrow> byte \<Rightarrow> SighashReusedValues \<Rightarrow> (bytes \<times> SighashReusedValues) outcome"
  sch_parseKey :: "bytes \<Rightarrow> 'k option"
  sch_parseSig :: "bytes \<Rightarrow> 's option"
  sch_verify :: "'k \<Rightarrow> bytes \<Rightarrow> 's \<Rightarrow> bool"
  sch_start :: "bytes list \<Rightarrow> nat"
  sch_cache :: "('k, 's) Engine \<Rightarrow> ('k, 's) SigCache option"
  sch_setCache :: "('k, 's) SigCache option \<Rightarrow> ('k, 's) Engine \<Rightarrow> ('k, 's) Engine"

definition schnorrScheme :: "('k, 's) sigLib \<Rightarrow> ('k, 's) sigScheme" where
  "schnorrScheme env = \<lparr>
     sch_checkPubKey = checkPubKeyEncoding,
     sch_checkSigLength = checkSignatureLength,
     sch_sigHash = CalculateSignatureHashSchnorr (lib_hashes env),
     sch_parseKey = DeserializeSchnorrPubKey env,
     sch_parseSig = DeserializeSchnorrSignatureFromSlice env,
     sch_verify = SchnorrVerify env,
     sch_start = mapStart env,
     sch_cache = sigCache,
     sch_setCache = (\<lambda>c. sigCache_update (\<lambda>_. c))\<rparr>"

definition ecdsaScheme :: "('k, 's) sigLib \<Rightarrow> ('k, 's) sigScheme" where
  "ecdsaScheme env = \<lparr>
     sch_checkPubKey = checkPubKeyEncodingECDSA,
     sch_checkSigLength = checkSignatureLengthECDSA,
     sch_sigHash = CalculateSignatureHashECDSA (lib_hashes env),
     sch_parseKey = DeserializeECDSAPubKey env,
     sch_parseSig = DeserializeECDSASignatureFromSlice env,
     sch_verify = ECDSAVerify env,
     sch_start = mapStart env,
     sch_cache = sigCacheECDSA,
     sch_setCache = (\<lambda>c. sigCacheECDSA_update (\<lambda>_. c))\<rparr>"

section \<open>Single signatures\<close>

text \<open>The signature check through the cache of the scheme, with the updated cache stored back.\<close>

definition verifySig :: "('k, 's) sigScheme \<Rightarrow> bytes \<Rightarrow> 's \<Rightarrow> 'k \<Rightarrow> ('k, 's) Engine \<Rightarrow> bool \<times> ('k, 's) Engine" where
  "verifySig sch secpHash signature pubKey vm =
     (case cachedVerify (sch_verify sch) (sch_start sch) (sch_cache sch vm) secpHash signature pubKey of
        (valid, cache) \<Rightarrow> (valid, sch_setCache sch cache vm))"

text \<open>
  An error of the signature hash, of the key or of the signature pushes false; a panic is not
  an error and ends the execution.
\<close>

definition checkSig :: "('k, 's) sigScheme \<Rightarrow> ('k, 's) handler" where
  "checkSig sch pop vm =
     bindR (PopByteArray (dstack vm)) (\<lambda>(pkBytes, s).
     bindR (PopByteArray s) (\<lambda>(fullSigBytes, s).
       if length fullSigBytes < 1 then Inr (vm\<lparr>dstack := PushBool s False\<rparr>)
       else let hashType = fullSigBytes ! (length fullSigBytes - 1);
                sigBytes = take (length fullSigBytes - 1) fullSigBytes
            in if \<not> IsStandardSigHashType hashType then scriptError ErrInvalidSigHashType
               else bindR (sch_checkSigLength sch sigBytes) (\<lambda>_.
                    bindR (sch_checkPubKey sch pkBytes) (\<lambda>_.
                      case sch_sigHash sch (vm_tx vm) (txIdx vm) hashType (sigHashReusedValues vm) of
                        Inl GoPanic \<Rightarrow> Inl GoPanic
                      | Inl _ \<Rightarrow> Inr (vm\<lparr>dstack := PushBool s False\<rparr>)
                      | Inr (sigHash, reused) \<Rightarrow>
                          let vm = vm\<lparr>sigHashReusedValues := reused\<rparr>
                          in case sch_parseKey sch pkBytes of
                               None \<Rightarrow> Inr (vm\<lparr>dstack := PushBool s False\<rparr>)
                             | Some pubKey \<Rightarrow>
                                 (case sch_parseSig sch sigBytes of
                                    None \<Rightarrow> Inr (vm\<lparr>dstack := PushBool s False\<rparr>)
                                  | Some signature \<Rightarrow>
                                      (case verifySig sch sigHash signature pubKey vm of
                                         (valid, vm) \<Rightarrow>
                                           if \<not> valid \<and> length sigBytes > 0 then scriptError ErrNullFail
                                           else Inr (vm\<lparr>dstack := PushBool s valid\<rparr>)))))))"

definition opcodeCheckSig :: "('k, 's) sigLib \<Rightarrow> ('k, 's) handler" where
  "opcodeCheckSig env = checkSig (schnorrScheme env)"

definition opcodeCheckSigECDSA :: "('k, 's) sigLib \<Rightarrow> ('k, 's) handler" where
  "opcodeCheckSigECDSA env = checkSig (ecdsaScheme env)"

definition opcodeCheckSigVerify :: "('k, 's) sigLib \<Rightarrow> ('k, 's) handler" where
  "opcodeCheckSigVerify env pop vm = bindR (opcodeCheckSig env pop vm) (abstractVerify ErrCheckSigVerify pop)"

section \<open>Multiple signatures\<close>

text \<open>\<open>popMany n s\<close> pops \<open>n\<close> elements, the top first.\<close>

primrec popMany :: "nat \<Rightarrow> stack \<Rightarrow> (bytes list \<times> stack) outcome" where
  "popMany 0 s = Inr ([], s)"
| "popMany (Suc n) s = bindR (PopByteArray s) (\<lambda>(x, s). bindR (popMany n s) (\<lambda>(xs, s). Inr (x # xs, s)))"

text \<open>
  The parsed form of the current signature: \<open>None\<close> before it is parsed, \<open>Some None\<close> when
  parsing failed. \<open>parseOnce\<close> checks and parses it on the first use only.
\<close>

definition parseOnce :: "('k, 's) sigScheme \<Rightarrow> byte \<Rightarrow> bytes \<Rightarrow> 's option option \<Rightarrow> 's option outcome" where
  "parseOnce sch hashType signature parsed =
     (case parsed of
        None \<Rightarrow>
          if \<not> IsStandardSigHashType hashType then scriptError ErrInvalidSigHashType
          else bindR (sch_checkSigLength sch signature) (\<lambda>_. Inr (sch_parseSig sch signature))
      | Some parsedSignature \<Rightarrow> Inr parsedSignature)"

text \<open>
  The body of the loop over the public keys, for the current key and signature: whether the
  signature was valid for the key (\<^verbatim>\<open>continue\<close> is \<open>False\<close>), the parsed form of the signature and
  the engine.
\<close>

definition tryKey ::
  "('k, 's) sigScheme \<Rightarrow> bytes \<Rightarrow> bytes \<Rightarrow> 's option option \<Rightarrow> ('k, 's) Engine \<Rightarrow>
     (bool \<times> 's option option \<times> ('k, 's) Engine) outcome" where
  "tryKey sch pubKey rawSig parsed vm =
     (if length rawSig = 0 then Inr (False, parsed, vm)
      else let hashType = rawSig ! (length rawSig - 1); signature = take (length rawSig - 1) rawSig
           in bindR (parseOnce sch hashType signature parsed) (\<lambda>parsedSignature.
                case parsedSignature of
                  None \<Rightarrow> Inr (False, Some None, vm)
                | Some parsedSig \<Rightarrow>
                    bindR (sch_checkPubKey sch pubKey) (\<lambda>_.
                      case sch_parseKey sch pubKey of
                        None \<Rightarrow> Inr (False, Some (Some parsedSig), vm)
                      | Some parsedPubKey \<Rightarrow>
                          bindR (sch_sigHash sch (vm_tx vm) (txIdx vm) hashType (sigHashReusedValues vm))
                            (\<lambda>(sigHash, reused).
                              case verifySig sch sigHash parsedSig parsedPubKey (vm\<lparr>sigHashReusedValues := reused\<rparr>) of
                                (valid, vm) \<Rightarrow> Inr (valid, Some (Some parsedSig), vm)))))"

text \<open>
  The loop itself. Its arguments are the keys and the signatures that are left (\<^verbatim>\<open>numPubKeys\<close>
  and \<^verbatim>\<open>numSignatures\<close> of them) and the parsed form of the first signature.
\<close>

fun multiSigLoop ::
  "('k, 's) sigScheme \<Rightarrow> bytes list \<Rightarrow> bytes list \<Rightarrow> 's option option \<Rightarrow> ('k, 's) Engine \<Rightarrow>
     (bool \<times> ('k, 's) Engine) outcome" where
  "multiSigLoop sch pubKeys [] parsed vm = Inr (True, vm)"
| "multiSigLoop sch [] (rawSig # signatures) parsed vm = Inr (False, vm)"
| "multiSigLoop sch (pubKey # pubKeys) (rawSig # signatures) parsed vm =
     (if length (rawSig # signatures) > length (pubKey # pubKeys) then Inr (False, vm)
      else bindR (tryKey sch pubKey rawSig parsed vm) (\<lambda>(valid, parsed, vm).
        if valid then multiSigLoop sch pubKeys signatures None vm
        else multiSigLoop sch pubKeys (rawSig # signatures) parsed vm))"

definition checkMultiSig :: "('k, 's) sigScheme \<Rightarrow> ('k, 's) handler" where
  "checkMultiSig sch pop vm =
     bindR (PopInt (dstack vm)) (\<lambda>(numKeys, s).
       let numPubKeys = scriptNum_Int32 numKeys
       in if numPubKeys < 0 then scriptError ErrInvalidPubKeyCount
          else if numPubKeys > MaxPubKeysPerMultiSig then scriptError ErrInvalidPubKeyCount
          else let vm = vm\<lparr>numOps := numOps vm + numPubKeys\<rparr>
               in if numOps vm > MaxOpsPerScript then scriptError ErrTooManyOperations
                  else bindR (popMany (nat numPubKeys) s) (\<lambda>(pubKeys, s).
                       bindR (PopInt s) (\<lambda>(numSigs, s).
                         let numSignatures = scriptNum_Int32 numSigs
                         in if numSignatures < 0 then scriptError ErrInvalidSignatureCount
                            else if numSignatures > numPubKeys then scriptError ErrInvalidSignatureCount
                            else bindR (popMany (nat numSignatures) s) (\<lambda>(signatures, s).
                                 bindR (multiSigLoop sch pubKeys signatures None vm) (\<lambda>(success, vm).
                                   if \<not> success \<and> list_ex (\<lambda>sig. length sig > 0) signatures
                                   then scriptError ErrNullFail
                                   else Inr (vm\<lparr>dstack := PushBool s success\<rparr>))))))"

definition opcodeCheckMultiSig :: "('k, 's) sigLib \<Rightarrow> ('k, 's) handler" where
  "opcodeCheckMultiSig env = checkMultiSig (schnorrScheme env)"

definition opcodeCheckMultiSigECDSA :: "('k, 's) sigLib \<Rightarrow> ('k, 's) handler" where
  "opcodeCheckMultiSigECDSA env = checkMultiSig (ecdsaScheme env)"

definition opcodeCheckMultiSigVerify :: "('k, 's) sigLib \<Rightarrow> ('k, 's) handler" where
  "opcodeCheckMultiSigVerify env pop vm =
     bindR (opcodeCheckMultiSig env pop vm) (abstractVerify ErrCheckMultiSigVerify pop)"

end
