(* ===== verification/ScriptEngine.thy ===== *)
theory ScriptEngine
  imports ScriptSigOps
begin

text \<open>
  The script engine (\<^verbatim>\<open>txscript/engine.go\<close>): the execution of one opcode, the step to the next
  opcode or script, the execution loop and the construction of an engine for an input.
\<close>

section \<open>Execution of an opcode\<close>

text \<open>The call of the handler an entry of the opcode table points to.\<close>

primrec runOpfunc :: "('k, 's) sigLib \<Rightarrow> opfunc \<Rightarrow> ('k, 's) handler" where
  "runOpfunc env F_opcodeFalse = opcodeFalse"
| "runOpfunc env F_opcodePushData = opcodePushData"
| "runOpfunc env F_opcode1Negate = opcode1Negate"
| "runOpfunc env F_opcodeReserved = opcodeReserved"
| "runOpfunc env F_opcodeN = opcodeN"
| "runOpfunc env F_opcodeNop = opcodeNop"
| "runOpfunc env F_opcodeIf = opcodeIf"
| "runOpfunc env F_opcodeNotIf = opcodeNotIf"
| "runOpfunc env F_opcodeElse = opcodeElse"
| "runOpfunc env F_opcodeEndif = opcodeEndif"
| "runOpfunc env F_opcodeVerify = opcodeVerify"
| "runOpfunc env F_opcodeReturn = opcodeReturn"
| "runOpfunc env F_opcodeCheckLockTimeVerify = opcodeCheckLockTimeVerify"
| "runOpfunc env F_opcodeCheckSequenceVerify = opcodeCheckSequenceVerify"
| "runOpfunc env F_opcodeToAltStack = opcodeToAltStack"
| "runOpfunc env F_opcodeFromAltStack = opcodeFromAltStack"
| "runOpfunc env F_opcode2Drop = opcode2Drop"
| "runOpfunc env F_opcode2Dup = opcode2Dup"
| "runOpfunc env F_opcode3Dup = opcode3Dup"
| "runOpfunc env F_opcode2Over = opcode2Over"
| "runOpfunc env F_opcode2Rot = opcode2Rot"
| "runOpfunc env F_opcode2Swap = opcode2Swap"
| "runOpfunc env F_opcodeIfDup = opcodeIfDup"
| "runOpfunc env F_opcodeDepth = opcodeDepth"
| "runOpfunc env F_opcodeDrop = opcodeDrop"
| "runOpfunc env F_opcodeDup = opcodeDup"
| "runOpfunc env F_opcodeNip = opcodeNip"
| "runOpfunc env F_opcodeOver = opcodeOver"
| "runOpfunc env F_opcodePick = opcodePick"
| "runOpfunc env F_opcodeRoll = opcodeRoll"
| "runOpfunc env F_opcodeRot = opcodeRot"
| "runOpfunc env F_opcodeSwap = opcodeSwap"
| "runOpfunc env F_opcodeTuck = opcodeTuck"
| "runOpfunc env F_opcodeDisabled = opcodeDisabled"
| "runOpfunc env F_opcodeSize = opcodeSize"
| "runOpfunc env F_opcodeEqual = opcodeEqual"
| "runOpfunc env F_opcodeEqualVerify = opcodeEqualVerify"
| "runOpfunc env F_opcode1Add = opcode1Add"
| "runOpfunc env F_opcode1Sub = opcode1Sub"
| "runOpfunc env F_opcodeNegate = opcodeNegate"
| "runOpfunc env F_opcodeAbs = opcodeAbs"
| "runOpfunc env F_opcodeNot = opcodeNot"
| "runOpfunc env F_opcode0NotEqual = opcode0NotEqual"
| "runOpfunc env F_opcodeAdd = opcodeAdd"
| "runOpfunc env F_opcodeSub = opcodeSub"
| "runOpfunc env F_opcodeBoolAnd = opcodeBoolAnd"
| "runOpfunc env F_opcodeBoolOr = opcodeBoolOr"
| "runOpfunc env F_opcodeNumEqual = opcodeNumEqual"
| "runOpfunc env F_opcodeNumEqualVerify = opcodeNumEqualVerify"
| "runOpfunc env F_opcodeNumNotEqual = opcodeNumNotEqual"
| "runOpfunc env F_opcodeLessThan = opcodeLessThan"
| "runOpfunc env F_opcodeGreaterThan = opcodeGreaterThan"
| "runOpfunc env F_opcodeLessThanOrEqual = opcodeLessThanOrEqual"
| "runOpfunc env F_opcodeGreaterThanOrEqual = opcodeGreaterThanOrEqual"
| "runOpfunc env F_opcodeMin = opcodeMin"
| "runOpfunc env F_opcodeMax = opcodeMax"
| "runOpfunc env F_opcodeWithin = opcodeWithin"
| "runOpfunc env F_opcodeCheckMultiSigECDSA = opcodeCheckMultiSigECDSA env"
| "runOpfunc env F_opcodeSha256 = opcodeSha256 env"
| "runOpfunc env F_opcodeBlake2b = opcodeBlake2b env"
| "runOpfunc env F_opcodeCheckSigECDSA = opcodeCheckSigECDSA env"
| "runOpfunc env F_opcodeCheckSig = opcodeCheckSig env"
| "runOpfunc env F_opcodeCheckSigVerify = opcodeCheckSigVerify env"
| "runOpfunc env F_opcodeCheckMultiSig = opcodeCheckMultiSig env"
| "runOpfunc env F_opcodeCheckMultiSigVerify = opcodeCheckMultiSigVerify env"
| "runOpfunc env F_opcodeInvalid = opcodeInvalid"

definition MaxStackSize :: int where "MaxStackSize = 244"
definition MaxScriptSize :: nat where "MaxScriptSize = 10000"
definition MaxScriptPublicKeyVersion :: uint16 where "MaxScriptPublicKeyVersion = 0"

definition hasFlag :: "('k, 's) Engine \<Rightarrow> uint32 \<Rightarrow> bool" where
  "hasFlag vm flag \<longleftrightarrow> flags vm AND flag = flag"

definition executeOpcode :: "('k, 's) sigLib \<Rightarrow> ('k, 's) handler" where
  "executeOpcode env pop vm =
     (if isDisabled pop then scriptError ErrDisabledOpcode
      else if alwaysIllegal pop then scriptError ErrReservedOpcode
      else bindR (if pop_value pop > Op16
                  then let vm = vm\<lparr>numOps := numOps vm + 1\<rparr>
                       in if numOps vm > MaxOpsPerScript then scriptError ErrTooManyOperations else Inr vm
                  else if length (dataOf pop) > MaxScriptElementSize then scriptError ErrElementTooBig
                  else Inr vm) (\<lambda>vm.
             if \<not> isBranchExecuting vm \<and> \<not> isConditional pop then Inr vm
             else bindR (if isBranchExecuting vm \<and> pop_value pop \<noteq> 0 \<and> pop_value pop \<le> OpPushData4
                         then checkMinimalDataPush pop else Inr ()) (\<lambda>_.
                    runOpfunc env (op_func (pop_opcode pop)) pop vm)))"

section \<open>Stacks and the program counter\<close>

definition validPC :: "('k, 's) Engine \<Rightarrow> unit outcome" where
  "validPC vm =
     (if scriptIdx vm \<ge> length (scripts vm) then scriptError ErrInvalidProgramCounter
      else if scriptOff vm \<ge> length (scripts vm ! scriptIdx vm) then scriptError ErrInvalidProgramCounter
      else Inr ())"

definition curPC :: "('k, 's) Engine \<Rightarrow> (nat \<times> nat) outcome" where
  "curPC vm = bindR (validPC vm) (\<lambda>_. Inr (scriptIdx vm, scriptOff vm))"

text \<open>\<open>dropAll\<close> is \<^verbatim>\<open>_ = s.DropN(s.Depth())\<close>, which ignores the error that an empty stack gives.\<close>

definition dropAll :: "stack \<Rightarrow> stack" where
  "dropAll s = (case DropN s (Depth s) of Inr s' \<Rightarrow> s' | Inl _ \<Rightarrow> s)"

definition getStack :: "stack \<Rightarrow> bytes list" where
  "getStack s = rev (map (\<lambda>i. case PeekByteArray s (int32 (int i)) of Inr so \<Rightarrow> so | Inl _ \<Rightarrow> []) [0..<nat (Depth s)])"

definition setStack :: "stack \<Rightarrow> bytes list \<Rightarrow> stack" where
  "setStack s data = foldl PushByteArray (dropAll s) data"

definition GetStack :: "('k, 's) Engine \<Rightarrow> bytes list" where
  "GetStack vm = getStack (dstack vm)"

definition SetStack :: "bytes list \<Rightarrow> ('k, 's) Engine \<Rightarrow> ('k, 's) Engine" where
  "SetStack data vm = vm\<lparr>dstack := setStack (dstack vm) data\<rparr>"

definition GetAltStack :: "('k, 's) Engine \<Rightarrow> bytes list" where
  "GetAltStack vm = getStack (astack vm)"

definition SetAltStack :: "bytes list \<Rightarrow> ('k, 's) Engine \<Rightarrow> ('k, 's) Engine" where
  "SetAltStack data vm = vm\<lparr>astack := setStack (astack vm) data\<rparr>"

definition CheckErrorCondition :: "bool \<Rightarrow> ('k, 's) Engine \<Rightarrow> ('k, 's) Engine outcome" where
  "CheckErrorCondition finalScript vm =
     (if scriptIdx vm < length (scripts vm) then scriptError ErrScriptUnfinished
      else if finalScript \<and> Depth (dstack vm) > 1 then scriptError ErrCleanStack
      else if finalScript \<and> Depth (dstack vm) < 1 then scriptError ErrEmptyStack
      else bindR (PopBool (dstack vm)) (\<lambda>(v, s).
        if \<not> v then scriptError ErrEvalFalse else Inr (vm\<lparr>dstack := s\<rparr>)))"

section \<open>Steps\<close>

text \<open>
  The end of a script: the next script becomes the current one. The first script of a
  pay-to-script-hash spend leaves its stack in \<^verbatim>\<open>savedFirstStack\<close>; after the second, the top of
  that stack is parsed as the third.
\<close>

definition nextScript :: "('k, 's) Engine \<Rightarrow> ('k, 's) Engine outcome" where
  "nextScript vm =
     (if scriptIdx vm = 0 \<and> isP2SH vm
      then Inr (vm\<lparr>scriptIdx := scriptIdx vm + 1, savedFirstStack := GetStack vm\<rparr>)
      else if scriptIdx vm = 1 \<and> isP2SH vm
      then bindR (CheckErrorCondition False (vm\<lparr>scriptIdx := scriptIdx vm + 1\<rparr>)) (\<lambda>vm.
             let saved = savedFirstStack vm
             in if saved = [] then Inl GoPanic
                else bindR (parseScript_or_fail (saved ! (length saved - 1))) (\<lambda>pops.
                       Inr (SetStack (take (length saved - 1) saved) (vm\<lparr>scripts := scripts vm @ [pops]\<rparr>))))
      else Inr (vm\<lparr>scriptIdx := scriptIdx vm + 1\<rparr>))"

text \<open>There are zero length scripts: such a script is passed over.\<close>

definition skipEmptyScript :: "('k, 's) Engine \<Rightarrow> ('k, 's) Engine" where
  "skipEmptyScript vm =
     (if scriptIdx vm < length (scripts vm) \<and> scriptOff vm \<ge> length (scripts vm ! scriptIdx vm)
      then vm\<lparr>scriptIdx := scriptIdx vm + 1\<rparr> else vm)"

definition Step :: "('k, 's) sigLib \<Rightarrow> ('k, 's) Engine \<Rightarrow> (bool \<times> ('k, 's) Engine) outcome" where
  "Step env vm =
     bindR (validPC vm) (\<lambda>_.
     bindR (executeOpcode env (scripts vm ! scriptIdx vm ! scriptOff vm) (vm\<lparr>scriptOff := scriptOff vm + 1\<rparr>)) (\<lambda>vm.
       let combinedStackSize = int32 (Depth (dstack vm) + Depth (astack vm))
       in if combinedStackSize > MaxStackSize then scriptError ErrStackOverflow
          else if scriptOff vm \<ge> length (scripts vm ! scriptIdx vm)
          then (if length (condStack vm) \<noteq> 0 then scriptError ErrUnbalancedConditional
                else bindR (nextScript (vm\<lparr>astack := dropAll (astack vm), numOps := 0, scriptOff := 0\<rparr>)) (\<lambda>vm.
                  let vm = skipEmptyScript vm in Inr (scriptIdx vm \<ge> length (scripts vm), vm)))
          else Inr (False, vm)))"

section \<open>The frame of an opcode\<close>

text \<open>What no opcode changes: the scripts, the program counter and the transaction.\<close>

definition core :: "('k, 's) Engine \<Rightarrow> (uint16 \<times> parsedOpcode list list \<times> nat \<times> nat) \<times>
    DomainTransaction \<times> nat \<times> uint32 \<times> bool \<times> bytes list" where
  "core vm = ((scriptVersion vm, scripts vm, scriptIdx vm, scriptOff vm),
     vm_tx vm, txIdx vm, flags vm, isP2SH vm, savedFirstStack vm)"

definition framed :: "('k, 's) handler \<Rightarrow> bool" where
  "framed h \<longleftrightarrow> (\<forall>pop vm vm'. h pop vm = Inr vm' \<longrightarrow> core vm' = core vm)"

lemma framedI: "(\<And>pop vm vm'. h pop vm = Inr vm' \<Longrightarrow> core vm' = core vm) \<Longrightarrow> framed h"
  by (simp add: framed_def)

lemma framedD: "\<lbrakk> framed h; h pop vm = Inr vm' \<rbrakk> \<Longrightarrow> core vm' = core vm"
  by (simp add: framed_def)

lemma core_onDstack: "onDstack f vm = Inr vm' \<Longrightarrow> core vm' = core vm"
  by (auto simp: onDstack_def bindR_Inr_iff core_def)

lemmas stack_handler_defs =
  opcodeFalse_def opcodePushData_def opcode1Negate_def opcodeReserved_def opcodeN_def
  opcodeNop_def opcodeIf_def opcodeNotIf_def opcodeElse_def opcodeEndif_def
  opcodeVerify_def opcodeReturn_def opcodeCheckLockTimeVerify_def opcodeCheckSequenceVerify_def opcodeToAltStack_def
  opcodeFromAltStack_def opcode2Drop_def opcode2Dup_def opcode3Dup_def opcode2Over_def
  opcode2Rot_def opcode2Swap_def opcodeIfDup_def opcodeDepth_def opcodeDrop_def
  opcodeDup_def opcodeNip_def opcodeOver_def opcodePick_def opcodeRoll_def
  opcodeRot_def opcodeSwap_def opcodeTuck_def opcodeDisabled_def opcodeSize_def
  opcodeEqual_def opcodeEqualVerify_def opcode1Add_def opcode1Sub_def opcodeNegate_def
  opcodeAbs_def opcodeNot_def opcode0NotEqual_def opcodeAdd_def opcodeSub_def
  opcodeBoolAnd_def opcodeBoolOr_def opcodeNumEqual_def opcodeNumEqualVerify_def opcodeNumNotEqual_def
  opcodeLessThan_def opcodeGreaterThan_def opcodeLessThanOrEqual_def opcodeGreaterThanOrEqual_def opcodeMin_def
  opcodeMax_def opcodeWithin_def opcodeInvalid_def
  opcodeSha256_def opcodeBlake2b_def abstractVerify_def

lemma framed_then: "\<lbrakk> framed h; framed h' \<rbrakk> \<Longrightarrow> framed (\<lambda>pop vm. bindR (h pop vm) (h' pop))"
  by (auto simp: framed_def bindR_Inr_iff)

lemma framed_abstractVerify: "framed (abstractVerify c)"
  by (rule framedI) (auto simp: abstractVerify_def dest: core_onDstack)

lemma core_simps [simp]:
  "core (vm\<lparr>dstack := d\<rparr>) = core vm" "core (vm\<lparr>astack := a\<rparr>) = core vm" "core (vm\<lparr>condStack := c\<rparr>) = core vm"
  "core (vm\<lparr>numOps := n\<rparr>) = core vm" "core (vm\<lparr>sigCache := x\<rparr>) = core vm" "core (vm\<lparr>sigCacheECDSA := y\<rparr>) = core vm"
  "core (vm\<lparr>sigHashReusedValues := r\<rparr>) = core vm"
  by (simp_all add: core_def)

text \<open>A scheme whose cache update touches nothing else.\<close>

definition cache_framed :: "('k, 's) sigScheme \<Rightarrow> bool" where
  "cache_framed sch \<longleftrightarrow> (\<forall>c vm. core (sch_setCache sch c vm) = core vm)"

lemma cache_framed_schemes: "cache_framed (schnorrScheme env)" "cache_framed (ecdsaScheme env)"
  by (simp_all add: cache_framed_def schnorrScheme_def ecdsaScheme_def)

lemma core_verifySig: "\<lbrakk> cache_framed sch; verifySig sch h s k vm = (b, vm') \<rbrakk> \<Longrightarrow> core vm' = core vm"
  by (auto simp: verifySig_def cache_framed_def split: prod.splits)

lemma framed_checkSig: "cache_framed sch \<Longrightarrow> framed (checkSig sch)"
  by (rule framedI)
    (auto simp: checkSig_def bindR_Inr_iff Let_def split: if_splits sum.splits failure.splits option.splits prod.splits
      dest: core_verifySig)

lemma core_tryKey: "cache_framed sch \<Longrightarrow> returns (\<lambda>(b, p', vm'). core vm' = core vm) (tryKey sch pk raw p vm)"
  by (auto simp: tryKey_def Let_def split: option.split prod.split intro!: returnsI dest: core_verifySig)

lemma core_multiSigLoop:
  "\<lbrakk> cache_framed sch; multiSigLoop sch ks ss p vm = Inr (b, vm') \<rbrakk> \<Longrightarrow> core vm' = core vm"
proof (induction sch ks ss p vm rule: multiSigLoop.induct)
  case (3 sch k ks r rs p vm)
  show ?case
  proof (cases "length (r # rs) > length (k # ks)")
    case False
    with 3(4) obtain v p' vm1 where t: "tryKey sch k r p vm = Inr (v, p', vm1)"
      and l: "(if v then multiSigLoop sch ks rs None vm1 else multiSigLoop sch ks (r # rs) p' vm1) = Inr (b, vm')"
      by (auto simp: bindR_Inr_iff)
    from returnsD [OF core_tryKey [OF 3(3)] t] 3(1,2) [OF False t refl refl] 3(3) l show ?thesis by (cases v) auto
  qed (use 3(4) in auto)
qed auto

lemma framed_checkMultiSig: "cache_framed sch \<Longrightarrow> framed (checkMultiSig sch)"
  by (rule framedI)
    (auto simp: checkMultiSig_def bindR_Inr_iff Let_def split: if_splits dest: core_multiSigLoop)

lemma framed_runOpfunc: "framed (runOpfunc env f)"
proof (cases f)
  case F_opcodeEqualVerify
  then show ?thesis
    unfolding framed_def by (auto simp: stack_handler_defs bindR_Inr_iff dest!: core_onDstack)
next
  case F_opcodeNumEqualVerify
  then show ?thesis
    unfolding framed_def by (auto simp: stack_handler_defs bindR_Inr_iff dest!: core_onDstack)
next
  case F_opcodeCheckSig
  then show ?thesis by (simp add: opcodeCheckSig_def framed_checkSig cache_framed_schemes)
next
  case F_opcodeCheckSigECDSA
  then show ?thesis by (simp add: opcodeCheckSigECDSA_def framed_checkSig cache_framed_schemes)
next
  case F_opcodeCheckSigVerify
  then show ?thesis
    by (simp add: opcodeCheckSigVerify_def [abs_def] opcodeCheckSig_def framed_then framed_checkSig cache_framed_schemes
        framed_abstractVerify)
next
  case F_opcodeCheckMultiSig
  then show ?thesis by (simp add: opcodeCheckMultiSig_def framed_checkMultiSig cache_framed_schemes)
next
  case F_opcodeCheckMultiSigECDSA
  then show ?thesis by (simp add: opcodeCheckMultiSigECDSA_def framed_checkMultiSig cache_framed_schemes)
next
  case F_opcodeCheckMultiSigVerify
  then show ?thesis
    by (simp add: opcodeCheckMultiSigVerify_def [abs_def] opcodeCheckMultiSig_def framed_then framed_checkMultiSig
        cache_framed_schemes framed_abstractVerify)
qed (auto simp: framed_def stack_handler_defs popIfBool_def bindR_Inr_iff Let_def split: if_splits dest: core_onDstack)

lemma framed_executeOpcode: "framed (executeOpcode env)"
proof (rule framedI)
  fix pop vm vm'
  assume "executeOpcode env pop vm = Inr vm'"
  then have "vm' = vm \<or> vm' = vm\<lparr>numOps := numOps vm + 1\<rparr> \<or> (\<exists>vm1. core vm1 = core vm \<and>
      runOpfunc env (op_func (pop_opcode pop)) pop vm1 = Inr vm')"
    by (auto simp: executeOpcode_def bindR_Inr_iff Let_def split: if_split_asm)
  then show "core vm' = core vm"
    using framedD [OF framed_runOpfunc] by fastforce
qed

section \<open>Termination\<close>

text \<open>
  Every step that does not end the execution moves on: to the next opcode of the script, to the
  next of the first scripts, or, past them, to a later script of a list that does not grow any
  more.
\<close>

definition progress :: "('k, 's) Engine \<Rightarrow> nat \<times> nat \<times> nat" where
  "progress vm = (2 - scriptIdx vm, length (scripts vm) - scriptIdx vm, length (scripts vm ! scriptIdx vm) - scriptOff vm)"

lemma core_eqD:
  "core vm' = core vm \<Longrightarrow> scripts vm' = scripts vm \<and> scriptIdx vm' = scriptIdx vm \<and> scriptOff vm' = scriptOff vm \<and>
     vm_tx vm' = vm_tx vm \<and> txIdx vm' = txIdx vm \<and> isP2SH vm' = isP2SH vm \<and> savedFirstStack vm' = savedFirstStack vm
     \<and> scriptVersion vm' = scriptVersion vm \<and> flags vm' = flags vm"
  by (simp add: core_def)

lemma nextScript_progress:
  "nextScript vm = Inr vm' \<Longrightarrow> scriptIdx vm' = Suc (scriptIdx vm) \<and>
     (scripts vm' = scripts vm \<or> scriptIdx vm = 1 \<and> (\<exists>pops. scripts vm' = scripts vm @ [pops])) \<and>
     scriptOff vm' = scriptOff vm"
  by (auto simp: nextScript_def CheckErrorCondition_def SetStack_def bindR_Inr_iff Let_def split: if_splits)

lemma Step_progress:
  assumes "Step env vm = Inr (False, vm')"
  shows "(progress vm', progress vm) \<in> less_than <*lex*> less_than <*lex*> less_than"
proof -
  from assms obtain vm1 where pc: "scriptIdx vm < length (scripts vm)" "scriptOff vm < length (scripts vm ! scriptIdx vm)"
    and ex: "executeOpcode env (scripts vm ! scriptIdx vm ! scriptOff vm) (vm\<lparr>scriptOff := scriptOff vm + 1\<rparr>) = Inr vm1"
    by (auto simp: Step_def validPC_def bindR_Inr_iff split: if_splits)
  from framedD [OF framed_executeOpcode ex]
  have f: "scripts vm1 = scripts vm" "scriptIdx vm1 = scriptIdx vm" "scriptOff vm1 = Suc (scriptOff vm)"
    by (auto dest: core_eqD)
  show ?thesis
  proof (cases "scriptOff vm1 \<ge> length (scripts vm1 ! scriptIdx vm1)")
    case False
    then have "vm' = vm1"
      using assms pc ex by (simp add: Step_def validPC_def Let_def split: if_splits)
    with f pc show ?thesis by (auto simp: progress_def)
  next
    case True
    with assms pc ex obtain vm2 where n: "nextScript (vm1\<lparr>astack := dropAll (astack vm1), numOps := 0, scriptOff := 0\<rparr>) = Inr vm2"
      and vm': "vm' = skipEmptyScript vm2"
      by (auto simp: Step_def validPC_def Let_def bindR_Inr_iff split: if_split_asm)
    from nextScript_progress [OF n] f vm' have
      "scriptIdx vm' > scriptIdx vm" "scripts vm' = scripts vm \<or> scriptIdx vm = 1" by (auto simp: skipEmptyScript_def)
    then show ?thesis using pc by (auto simp: progress_def)
  qed
qed

section \<open>Execution\<close>

function executeLoop :: "('k, 's) sigLib \<Rightarrow> ('k, 's) Engine \<Rightarrow> ('k, 's) Engine outcome" where
  "executeLoop env vm =
     bindR (Step env vm) (\<lambda>(done, vm'). if done then Inr vm' else executeLoop env vm')"
  by pat_completeness auto
termination
proof (relation "inv_image (less_than <*lex*> less_than <*lex*> less_than) (\<lambda>(env, vm). progress vm)")
  show "wf (inv_image (less_than <*lex*> less_than <*lex*> less_than) (\<lambda>(env, vm). progress vm))"
    by (intro wf_inv_image wf_lex_prod wf_less_than)
qed (auto dest: Step_progress)

declare executeLoop.simps [simp del]

definition Execute :: "('k, 's) sigLib \<Rightarrow> ('k, 's) Engine \<Rightarrow> ('k, 's) Engine outcome" where
  "Execute env vm =
     (if scriptVersion vm > MaxScriptPublicKeyVersion then Inr vm
      else bindR (executeLoop env vm) (CheckErrorCondition True))"

definition parseScriptAndVerifySize :: "bytes \<Rightarrow> parsedOpcode list outcome" where
  "parseScriptAndVerifySize script =
     (if length script > MaxScriptSize then scriptError ErrScriptTooBig else parseScript_or_fail script)"

text \<open>The zero value of a transaction, which an engine for an unknown script version keeps.\<close>

definition zeroTx :: DomainTransaction where
  "zeroTx = \<lparr>tx_Version = 0, tx_Inputs = [], tx_Outputs = [], tx_LockTime = 0,
     tx_SubnetworkID = SubnetworkIDNative, tx_Gas = 0, tx_Payload = [], tx_Fee = 0, tx_Mass = 0, tx_ID = None\<rparr>"

definition NewEngine ::
  "ScriptPublicKey \<Rightarrow> DomainTransaction \<Rightarrow> int \<Rightarrow> uint32 \<Rightarrow> ('k, 's) SigCache option \<Rightarrow> ('k, 's) SigCacheECDSA option \<Rightarrow>
     SighashReusedValues \<Rightarrow> ('k, 's) Engine outcome" where
  "NewEngine scriptPubKey tx idx flgs cache cacheECDSA reusedValues =
     (if idx < 0 \<or> idx \<ge> int (length (tx_Inputs tx)) then scriptError ErrInvalidIndex
      else let scriptSig = in_SignatureScript (tx_Inputs tx ! nat idx)
           in if length scriptSig = 0 \<and> length (spk_Script scriptPubKey) = 0 then scriptError ErrEvalFalse
              else let vm = \<lparr>scriptVersion = spk_Version scriptPubKey, scripts = [], scriptIdx = 0, scriptOff = 0,
                       dstack = [], astack = [], vm_tx = zeroTx, txIdx = 0, condStack = [], numOps = 0,
                       flags = flgs, sigCache = cache, sigCacheECDSA = cacheECDSA,
                       sigHashReusedValues = noReusedValues, isP2SH = False, savedFirstStack = []\<rparr>
                   in if scriptVersion vm > MaxScriptPublicKeyVersion then Inr vm
                      else bindR (parseScriptAndVerifySize scriptSig) (\<lambda>parsedScriptSig.
                        if \<not> isPushOnly parsedScriptSig then scriptError ErrNotPushOnly
                        else bindR (parseScriptAndVerifySize (spk_Script scriptPubKey)) (\<lambda>parsedScriptPubKey.
                          if isScriptHash parsedScriptPubKey \<and> \<not> isPushOnly parsedScriptSig
                          then scriptError ErrNotPushOnly
                          else Inr (vm\<lparr>scripts := [parsedScriptSig, parsedScriptPubKey],
                                 scriptIdx := (if length scriptSig = 0 then scriptIdx vm + 1 else scriptIdx vm),
                                 isP2SH := isScriptHash parsedScriptPubKey,
                                 vm_tx := tx, txIdx := nat idx, sigHashReusedValues := reusedValues\<rparr>))))"

end
