(* ===== verification/ScriptSafety.thy ===== *)
theory ScriptSafety
  imports ScriptEngine
begin

text \<open>
  The invariant of the script engine and the facts about the handlers behind it: no handler
  panics, the stacks grow by at most three elements per opcode, the operation count stays
  within its limit and the signature caches keep holding only valid signatures. The interface
  between the engine and a signature scheme is the locale \<open>sig_scheme\<close>, interpreted for Schnorr
  and for ECDSA.
\<close>

section \<open>The invariant\<close>

text \<open>The digests of the hash functions have the documented size of 32 bytes.\<close>

definition digests_ok :: "('k, 's) sigLib \<Rightarrow> bool" where
  "digests_ok env \<longleftrightarrow> (\<forall>m. length (blake2b_Sum256 (lib_hashes env) m) = 32) \<and> (\<forall>m. length (sha256_Sum256 (lib_hashes env) m) = 32)"

definition good :: "('k, 's) sigLib \<Rightarrow> ('k, 's) Engine \<Rightarrow> bool" where
  "good env vm \<longleftrightarrow>
     txIdx vm < length (tx_Inputs (vm_tx vm)) \<and>
     in_UTXOEntry (tx_Inputs (vm_tx vm) ! txIdx vm) \<noteq> None \<and>
     reuse_ok (lib_hashes env) (vm_tx vm) (sigHashReusedValues vm) \<and>
     pred_option (sigCache_ok (SchnorrVerify env)) (sigCache vm) \<and>
     pred_option (sigCache_ok (ECDSAVerify env)) (sigCacheECDSA vm) \<and>
     numOps vm \<le> MaxOpsPerScript \<and>
     set (condStack vm) \<subseteq> {OpCondFalse, OpCondTrue, OpCondSkip}"

definition stacks_ok :: "nat \<Rightarrow> ('k, 's) Engine \<Rightarrow> bool" where
  "stacks_ok n vm \<longleftrightarrow> length (dstack vm) + length (astack vm) \<le> n \<and> elems_ok (dstack vm) \<and> elems_ok (astack vm)"

text \<open>A call that does not panic and ends in a good state with stacks of limited size.\<close>

definition safe :: "('k, 's) sigLib \<Rightarrow> nat \<Rightarrow> ('k, 's) Engine outcome \<Rightarrow> bool" where
  "safe env n r \<longleftrightarrow> ensures (\<lambda>vm. good env vm \<and> stacks_ok n vm) r"

lemma good_simps [simp]:
  "good env (vm\<lparr>dstack := d\<rparr>) = good env vm" "good env (vm\<lparr>astack := a\<rparr>) = good env vm"
  "good env (vm\<lparr>scriptOff := i\<rparr>) = good env vm" "good env (vm\<lparr>scriptIdx := i\<rparr>) = good env vm"
  "good env (vm\<lparr>scripts := ps\<rparr>) = good env vm" "good env (vm\<lparr>savedFirstStack := d\<rparr>) = good env vm"
  by (simp_all add: good_def)

lemma stacks_ok_simps [simp]:
  "stacks_ok n (vm\<lparr>numOps := i\<rparr>) = stacks_ok n vm" "stacks_ok n (vm\<lparr>condStack := c\<rparr>) = stacks_ok n vm"
  "stacks_ok n (vm\<lparr>scriptOff := j\<rparr>) = stacks_ok n vm" "stacks_ok n (vm\<lparr>scriptIdx := j\<rparr>) = stacks_ok n vm"
  "stacks_ok n (vm\<lparr>scripts := ps\<rparr>) = stacks_ok n vm" "stacks_ok n (vm\<lparr>savedFirstStack := d\<rparr>) = stacks_ok n vm"
  by (simp_all add: stacks_ok_def)

lemma stacks_ok_fit: "\<lbrakk> stacks_ok n vm; n \<le> 1000 \<rbrakk> \<Longrightarrow> fit (dstack vm) \<and> fit (astack vm)"
  by (simp add: stacks_ok_def fit_def)

lemma safe_simps [simp]: "safe env n (scriptError c)" "safe env n (Inr vm) \<longleftrightarrow> good env vm \<and> stacks_ok n vm"
  by (simp_all add: safe_def)

lemma safe_bind:
  "\<lbrakk> safe env m r; \<And>vm. \<lbrakk> good env vm; stacks_ok m vm \<rbrakk> \<Longrightarrow> safe env n (k vm) \<rbrakk> \<Longrightarrow> safe env n (bindR r k)"
  unfolding safe_def by (auto elim: ensures_mono)

lemma safe_mono: "\<lbrakk> safe env m r; m \<le> n \<rbrakk> \<Longrightarrow> safe env n r"
  unfolding safe_def by (auto elim: ensures_mono simp: stacks_ok_def)

lemma safe_tame:
  assumes "tame f" "good env vm" "stacks_ok n vm" "n \<le> 900"
  shows "safe env (n + 3) (onDstack f vm)"
proof -
  let ?d = "length (dstack vm)"
  have "within (?d + 3) (f (dstack vm))"
    using assms stacks_ok_fit [OF assms(3)] by (simp add: tame_def stacks_ok_def)
  then have "ensures (\<lambda>s. good env (vm\<lparr>dstack := s\<rparr>) \<and> stacks_ok (n + 3) (vm\<lparr>dstack := s\<rparr>)) (f (dstack vm))"
    unfolding within_def by (rule ensures_mono) (use assms in \<open>auto simp: stacks_ok_def\<close>)
  then show ?thesis by (simp add: safe_def onDstack_def)
qed

section \<open>Handlers without signatures\<close>

lemma tame_push:
  "length x \<le> MaxScriptElementSize \<Longrightarrow> tame (\<lambda>s. Inr (PushByteArray s x))"
  "tame (\<lambda>s. PushInt s (-1))" "tame (\<lambda>s. PushInt s (uint (b :: byte)))"
proof -
  have "\<bar>uint b\<bar> < 2 ^ 63" using uint_byte_less [of b] by simp
  then show "tame (\<lambda>s. PushInt s (uint b))" by (intro tameI within_PushInt) (auto dest: fitD)
  show "tame (\<lambda>s. PushInt s (-1))" by (intro tameI within_PushInt) (auto dest: fitD)
  show "tame (\<lambda>s. Inr (PushByteArray s x))" if "length x \<le> MaxScriptElementSize"
    using that by (simp add: tame_def PushByteArray_def fit_def)
qed

lemma tame_multi:
  "tame (\<lambda>s. DropN s i)" "tame (\<lambda>s. RotN s i)" "tame (\<lambda>s. SwapN s i)" "i \<le> 3 \<Longrightarrow> tame (\<lambda>s. DupN s i)"
  "i \<le> 3 \<Longrightarrow> tame (\<lambda>s. OverN s i)" "tame (\<lambda>s. NipN s i)" "tame Tuck"
  "tame (\<lambda>s. bindR (PopInt s) (\<lambda>(v, s). PickN s (scriptNum_Int32 v)))"
  "tame (\<lambda>s. bindR (PopInt s) (\<lambda>(v, s). RollN s (scriptNum_Int32 v)))"
  by (intro tameI; (auto intro!: effect; fail))+

lemma tame_peek:
  "tame (\<lambda>s. bindR (PeekByteArray s 0) (\<lambda>so. Inr (if asBool so then PushByteArray s so else s)))"
  "tame (\<lambda>s. bindR (PeekByteArray s 0) (\<lambda>so. PushInt s (int (length so))))"
  "tame (\<lambda>s. PushInt s (Depth s))"
proof -
  show "tame (\<lambda>s. bindR (PeekByteArray s 0) (\<lambda>so. Inr (if asBool so then PushByteArray s so else s)))"
    by (intro tameI within_Peek) (auto simp: PushByteArray_def dest: fitD)
  show "tame (\<lambda>s. bindR (PeekByteArray s 0) (\<lambda>so. PushInt s (int (length so))))"
    by (intro tameI within_Peek within_PushInt) (auto simp: MaxScriptElementSize_def dest: fitD)
  show "tame (\<lambda>s. PushInt s (Depth s))"
    by (intro tameI within_PushInt) (auto simp: Depth_def dest: fitD)
qed

lemma tame_pop:
  "tame (\<lambda>s. bindR (PopByteArray s) (\<lambda>(a, s). bindR (PopByteArray s) (\<lambda>(b, s). Inr (PushBool s (a = b)))))"
  "(\<And>m. length (h m) = 32) \<Longrightarrow> tame (\<lambda>s. bindR (PopByteArray s) (\<lambda>(buf, s). Inr (PushByteArray s (h buf))))"
  "tame (\<lambda>s. bindR (PopBool s) (\<lambda>(verified, s). if \<not> verified then scriptError c else Inr s))"
  by (intro tameI; (auto simp: PushBool_def PushByteArray_def fromBool_def MaxScriptElementSize_def
      dest: fitD intro!: effect; fail))+

lemma tame_unary:
  "(\<And>m. \<bar>m\<bar> < 2 ^ 31 \<Longrightarrow> \<bar>f m\<bar> < 2 ^ 63) \<Longrightarrow> tame (\<lambda>s. bindR (PopInt s) (\<lambda>(m, s). PushInt s (f m)))"
  by (intro tameI) (auto intro!: effect dest: fitD)

lemma tame_within:
  "tame (\<lambda>s. bindR (PopInt s) (\<lambda>(a, s). bindR (PopInt s) (\<lambda>(b, s).
     bindR (PopInt s) (\<lambda>(x, s). PushInt s (if x \<ge> b \<and> x < a then 1 else 0)))))"
  by (intro tameI) (auto intro!: effect dest: fitD)

lemmas tame_rules = tame_push tame_multi tame_peek tame_pop tame_within tame_unary tame_popTwo

section \<open>Matching signatures to keys\<close>

text \<open>
  The greedy matching that the loop of the multi-signature opcodes computes, and its
  specification: the signatures are valid, in order, for a subsequence of the keys.
\<close>

fun greedy :: "('a \<Rightarrow> 'b \<Rightarrow> bool) \<Rightarrow> 'a list \<Rightarrow> 'b list \<Rightarrow> bool" where
  "greedy m ks [] = True"
| "greedy m [] (s # ss) = False"
| "greedy m (k # ks) (s # ss) = (if m k s then greedy m ks ss else greedy m ks (s # ss))"

lemma greedy_length: "greedy m ks ss \<Longrightarrow> length ss \<le> length ks"
  by (induction m ks ss rule: greedy.induct) (auto split: if_splits)

lemma greedy_subseq:
  "greedy m ks ss \<longleftrightarrow> (\<exists>ks'. subseq ks' ks \<and> list_all2 m ks' ss)"
proof (induction m ks ss rule: greedy.induct)
  case (3 m k ks s ss)
  show ?case
  proof (cases "m k s")
    case True
    have "(\<exists>ks'. subseq ks' ks \<and> list_all2 m ks' ss) \<longleftrightarrow> (\<exists>ks'. subseq ks' (k # ks) \<and> list_all2 m ks' (s # ss))"
    proof
      assume "\<exists>ks'. subseq ks' ks \<and> list_all2 m ks' ss"
      then obtain ks' where "subseq ks' ks" "list_all2 m ks' ss" by blast
      with True have "subseq (k # ks') (k # ks) \<and> list_all2 m (k # ks') (s # ss)" by simp
      then show "\<exists>ks'. subseq ks' (k # ks) \<and> list_all2 m ks' (s # ss)" by blast
    next
      assume "\<exists>ks'. subseq ks' (k # ks) \<and> list_all2 m ks' (s # ss)"
      then obtain k' ks' where "subseq (k' # ks') (k # ks)" "list_all2 m ks' ss"
        by (auto simp: list_all2_Cons2)
      then show "\<exists>ks'. subseq ks' ks \<and> list_all2 m ks' ss"
        by (metis subseq_Cons' subseq_Cons2_iff)
    qed
    with True 3 show ?thesis by simp
  next
    case False
    have "(\<exists>ks'. subseq ks' ks \<and> list_all2 m ks' (s # ss)) \<longleftrightarrow> (\<exists>ks'. subseq ks' (k # ks) \<and> list_all2 m ks' (s # ss))"
    proof
      assume "\<exists>ks'. subseq ks' (k # ks) \<and> list_all2 m ks' (s # ss)"
      then obtain k' ks' where *: "subseq (k' # ks') (k # ks)" "m k' s" "list_all2 m ks' ss"
        by (auto simp: list_all2_Cons2)
      with False have "subseq (k' # ks') ks" by (auto simp: subseq_Cons2_iff split: if_splits)
      with * show "\<exists>ks'. subseq ks' ks \<and> list_all2 m ks' (s # ss)" by blast
    qed blast
    with False 3 show ?thesis by simp
  qed
qed (auto intro: exI [of _ "[]"] dest: list_emb_Nil2)

lemma popMany_ok:
  "fit s \<Longrightarrow> ensures (\<lambda>(xs, s'). s = s' @ rev xs \<and> length xs = n \<and> fit s') (popMany n s)"
proof (induction n arbitrary: s)
  case (Suc n)
  from fit_small [OF Suc.prems] show ?case
  proof (cases rule: PopByteArray_cases)
    case (item x s')
    with Suc.prems have "fit s'" using fit_append [of s' x] by simp
    from ensures_mono [OF Suc.IH [OF this]] item show ?thesis by fastforce
  qed simp
qed (simp add: fit_def)

lemma popMany_rev: "fit (s @ rev xs) \<Longrightarrow> popMany (length xs) (s @ rev xs) = Inr (xs, s)"
proof (induction xs)
  case (Cons x xs)
  then have "fit (s @ rev xs)" "PopByteArray ((s @ rev xs) @ [x]) = Inr (x, s @ rev xs)"
    using fit_small [OF Cons.prems] PopByteArray_snoc [of "s @ rev xs" x] by (simp_all add: fit_def)
  with Cons.IH show ?case by simp
qed simp

lemma PopInt_snoc: "small_stack (s @ [x]) \<Longrightarrow> PopInt (s @ [x]) = bindR (makeScriptNum x 4) (\<lambda>m. Inr (m, s))"
  by (simp add: PopInt_def defaultScriptNumLen_def)

lemma safe_PopInt:
  assumes "fit s" "\<And>m s'. \<lbrakk> fit s'; length s' < length s \<rbrakk> \<Longrightarrow> safe env n (k (m, s'))"
  shows "safe env n (bindR (PopInt s) k)"
  using fit_small [OF assms(1)]
proof (cases rule: PopInt_cases)
  case (num m x s')
  with assms fit_append [of s' x] show ?thesis by simp
qed simp

lemma safe_popMany:
  assumes "fit s" "\<And>xs s'. \<lbrakk> fit s'; length s' \<le> length s \<rbrakk> \<Longrightarrow> safe env n (k (xs, s'))"
  shows "safe env n (bindR (popMany i s) k)"
  using popMany_ok [OF assms(1), of i]
proof (cases rule: ensures_cases)
  case (val y)
  with assms(2) show ?thesis by (cases y) auto
qed (simp add: safe_def)

section \<open>Signature schemes\<close>

text \<open>
  What the engine relies on in a signature scheme: the signature hash is a function of the
  transaction, whatever has been cached, and the cache of the scheme holds only signatures that
  the scheme verifies.
\<close>

locale sig_scheme =
  fixes sch :: "('k, 's) sigScheme" and env :: "('k, 's) sigLib"
    and hash :: "DomainTransaction \<Rightarrow> nat \<Rightarrow> byte \<Rightarrow> bytes"
  assumes checks: "no_panic (sch_checkPubKey sch b)"
      "sch_checkSigLength sch b = (if length b = 64 then Inr () else scriptError ErrSigLength)"
    and sigHash: "good env vm \<Longrightarrow>
      ensures (\<lambda>(h, rv). h = hash (vm_tx vm) (txIdx vm) ht \<and> good env (vm\<lparr>sigHashReusedValues := rv\<rparr>))
        (sch_sigHash sch (vm_tx vm) (txIdx vm) ht (sigHashReusedValues vm))"
    and sigHash_standard: "\<lbrakk> good env vm; IsStandardSigHashType ht \<rbrakk> \<Longrightarrow>
      \<exists>p. sch_sigHash sch (vm_tx vm) (txIdx vm) ht (sigHashReusedValues vm) = Inr p"
    and cache: "good env vm \<Longrightarrow> pred_option (sigCache_ok (sch_verify sch)) (sch_cache sch vm)"
    and setCache: "\<lbrakk> good env vm; pred_option (sigCache_ok (sch_verify sch)) c \<rbrakk> \<Longrightarrow> good env (sch_setCache sch c vm)"
    and setCache_frame: "core (sch_setCache sch c vm) = core vm" "dstack (sch_setCache sch c vm) = dstack vm"
      "astack (sch_setCache sch c vm) = astack vm" "condStack (sch_setCache sch c vm) = condStack vm"
      "numOps (sch_setCache sch c vm) = numOps vm"
begin

text \<open>The engine after a signature check: only caches have changed.\<close>

definition only_caches :: "('k, 's) Engine \<Rightarrow> ('k, 's) Engine \<Rightarrow> bool" where
  "only_caches vm vm' \<longleftrightarrow> good env vm' \<and> core vm' = core vm \<and> dstack vm' = dstack vm \<and> astack vm' = astack vm \<and>
     condStack vm' = condStack vm \<and> numOps vm' = numOps vm"

lemma only_caches_refl: "good env vm \<Longrightarrow> only_caches vm vm"
  by (simp add: only_caches_def)

lemma only_caches_trans: "\<lbrakk> only_caches vm vm1; only_caches vm1 vm2 \<rbrakk> \<Longrightarrow> only_caches vm vm2"
  by (simp add: only_caches_def)

lemma verifySig_valid:
  "good env vm \<Longrightarrow> \<exists>vm'. verifySig sch h s k vm = (sch_verify sch k h s, vm') \<and> only_caches vm vm'"
  using cachedVerify_valid [OF cache, of vm "sch_start sch" h s k]
  by (auto simp: verifySig_def only_caches_def setCache setCache_frame)

text \<open>\<open>sig_matches tx i pk raw\<close>: the raw signature, with its hash type, is valid for the key.\<close>

definition sig_matches :: "DomainTransaction \<Rightarrow> nat \<Rightarrow> bytes \<Rightarrow> bytes \<Rightarrow> bool" where
  "sig_matches tx i pk raw \<longleftrightarrow>
     (case (sch_parseSig sch (take (length raw - 1) raw), sch_parseKey sch pk) of
        (Some s, Some k) \<Rightarrow> raw \<noteq> [] \<and> sch_verify sch k (hash tx i (raw ! (length raw - 1))) s
      | _ \<Rightarrow> False)"

text \<open>What is known of the first signature that is left agrees with parsing it.\<close>

definition parsed_ok :: "bytes list \<Rightarrow> 's option option \<Rightarrow> bool" where
  "parsed_ok ss p \<longleftrightarrow> (case ss of [] \<Rightarrow> True | raw # _ \<Rightarrow> p = None \<or> p = Some (sch_parseSig sch (take (length raw - 1) raw)))"

lemma parseOnce_ok:
  "parsed_ok (raw # ss) p \<Longrightarrow>
     ensures (\<lambda>x. x = sch_parseSig sch (take (length raw - 1) raw)) (parseOnce sch ht (take (length raw - 1) raw) p)"
  by (auto simp: parsed_ok_def parseOnce_def checks(2) split: option.split)

lemma tryKey_ok:
  assumes "good env vm" "parsed_ok (raw # ss) p"
  shows "ensures (\<lambda>(v, p', vm'). v = sig_matches (vm_tx vm) (txIdx vm) pk raw \<and> only_caches vm vm' \<and> parsed_ok (raw # ss) p')
    (tryKey sch pk raw p vm)"
proof (cases "raw = []")
  case True
  then show ?thesis
    using assms by (auto simp: tryKey_def only_caches_refl sig_matches_def split: option.split)
next
  case False
  let ?sig = "take (length raw - 1) raw" and ?ht = "raw ! (length raw - 1)"
  have ver: "ensures (\<lambda>(h, rv). \<forall>s k. \<exists>vm'. verifySig sch h s k (vm\<lparr>sigHashReusedValues := rv\<rparr>)
      = (sch_verify sch k (hash (vm_tx vm) (txIdx vm) ?ht) s, vm') \<and> only_caches vm vm')
    (sch_sigHash sch (vm_tx vm) (txIdx vm) ?ht (sigHashReusedValues vm))"
  proof (rule ensures_mono [OF sigHash [OF assms(1)]], clarify)
    fix h rv s k
    assume "good env (vm\<lparr>sigHashReusedValues := rv\<rparr>)"
    from verifySig_valid [OF this, of _ s k] show "\<exists>vm'. verifySig sch (hash (vm_tx vm) (txIdx vm) ?ht) s k (vm\<lparr>sigHashReusedValues := rv\<rparr>)
      = (sch_verify sch k (hash (vm_tx vm) (txIdx vm) ?ht) s, vm') \<and> only_caches vm vm'"
      by (simp add: only_caches_def)
  qed
  from parseOnce_ok [OF assms(2), of ?ht] show ?thesis
  proof (cases rule: ensures_cases)
    case (val x)
    show ?thesis
    proof (cases x)
      case None
      with val False assms(1) show ?thesis
        by (simp add: tryKey_def only_caches_refl sig_matches_def parsed_ok_def Let_def)
    next
      case (Some s)
      have p: "parseOnce sch ?ht ?sig p = Inr (Some s)" "sch_parseSig sch ?sig = Some s"
        using val Some by simp_all
      show ?thesis
      proof (cases "sch_checkPubKey sch pk")
        case (Inl e)
        with checks(1) [of pk] have "e \<noteq> GoPanic" by auto
        with p False Inl show ?thesis by (simp add: tryKey_def Let_def)
      next
        case (Inr u)
        note t = p False Inr
        show ?thesis
        proof (cases "sch_parseKey sch pk")
          case None
          with t assms(1) show ?thesis
            by (simp add: tryKey_def Let_def only_caches_refl sig_matches_def parsed_ok_def split: option.split)
        next
          case key: (Some k)
          from ver show ?thesis
          proof (cases rule: ensures_cases)
            case (val y)
            obtain h rv where y: "y = (h, rv)" by fastforce
            with val obtain vm' where "verifySig sch h s k (vm\<lparr>sigHashReusedValues := rv\<rparr>)
                = (sch_verify sch k (hash (vm_tx vm) (txIdx vm) ?ht) s, vm')" "only_caches vm vm'" by auto
            with t key y val(1) show ?thesis by (simp add: tryKey_def sig_matches_def parsed_ok_def)
          qed (use t key in \<open>simp add: tryKey_def\<close>)
        qed
      qed
    qed
  qed (use False in \<open>simp add: tryKey_def Let_def\<close>)
qed

lemma multiSigLoop_ok:
  assumes "good env vm" "parsed_ok ss p"
  shows "ensures (\<lambda>(b, vm'). b = greedy (sig_matches (vm_tx vm) (txIdx vm)) ks ss \<and> only_caches vm vm')
    (multiSigLoop sch ks ss p vm)"
  using assms
proof (induction ks arbitrary: ss p vm)
  case Nil
  then show ?case by (cases ss) (simp_all add: only_caches_refl)
next
  case (Cons k ks)
  show ?case
  proof (cases ss)
    case Nil
    with Cons.prems show ?thesis by (simp add: only_caches_refl)
  next
    case ss: (Cons raw rest)
    let ?m = "sig_matches (vm_tx vm) (txIdx vm)"
    show ?thesis
    proof (cases "length ss > length (k # ks)")
      case True
      then have "\<not> greedy ?m (k # ks) ss" using greedy_length [of ?m "k # ks" ss] by auto
      with True ss Cons.prems show ?thesis by (simp add: only_caches_refl del: greedy.simps)
    next
      case False
      from tryKey_ok [OF Cons.prems(1) Cons.prems(2) [unfolded ss], of k] show ?thesis
      proof (cases rule: ensures_cases)
        case (val x)
        obtain v p' vm' where x: "x = (v, p', vm')" by (cases x)
        with val have c: "only_caches vm vm'" and p': "parsed_ok (raw # rest) p'" and v: "v = ?m k raw"
          and t: "tryKey sch k raw p vm = Inr (v, p', vm')" by auto
        from c have g: "good env vm'" and eq: "vm_tx vm' = vm_tx vm" "txIdx vm' = txIdx vm"
          by (auto simp: only_caches_def dest: core_eqD)
        have n: "parsed_ok rest None" by (simp add: parsed_ok_def split: list.split)
        have "ensures (\<lambda>(b, vm''). b = greedy ?m (k # ks) ss \<and> only_caches vm vm'')
          (if v then multiSigLoop sch ks rest None vm' else multiSigLoop sch ks ss p' vm')"
          using Cons.IH [OF g n] Cons.IH [OF g p'] only_caches_trans [OF c]
          by (auto simp: eq ss v elim: ensures_mono)
        then show ?thesis using False ss t by (cases v) (simp_all split: if_splits)
      qed (use False ss in simp)
    qed
  qed
qed

text \<open>
  A signature check on a stack with a key and a signature of the right form pushes whether the
  signature is valid; a signature that parses and is not valid is an error.
\<close>

lemma checkSig_eq:
  assumes g: "good env vm" and d: "dstack vm = s @ [raw, pk]" "small_stack (dstack vm)"
    and raw: "length raw = 65" "IsStandardSigHashType (raw ! 64)" and pk: "sch_checkPubKey sch pk = Inr ()"
  obtains vm' where "only_caches vm vm'"
    "checkSig sch pop vm =
       (if sig_matches (vm_tx vm) (txIdx vm) pk raw then Inr (vm'\<lparr>dstack := PushBool s True\<rparr>)
        else if sch_parseKey sch pk = None \<or> sch_parseSig sch (take 64 raw) = None then Inr (vm'\<lparr>dstack := PushBool s False\<rparr>)
        else scriptError ErrNullFail)"
proof -
  from sigHash_standard [OF g raw(2)] obtain h rv
    where sh: "sch_sigHash sch (vm_tx vm) (txIdx vm) (raw ! 64) (sigHashReusedValues vm) = Inr (h, rv)" by fastforce
  with sigHash [OF g, of "raw ! 64"] have h: "h = hash (vm_tx vm) (txIdx vm) (raw ! 64)"
    and rv: "good env (vm\<lparr>sigHashReusedValues := rv\<rparr>)" by simp_all
  have [simp]: "raw \<noteq> []" using raw(1) by auto
  have pops: "PopByteArray (dstack vm) = Inr (pk, s @ [raw])" "PopByteArray (s @ [raw]) = Inr (raw, s)"
    using d PopByteArray_snoc [of "s @ [raw]" pk] PopByteArray_snoc [of s raw] by (simp_all add: small_stack_def)
  note run = checkSig_def pops raw checks(2) pk sh
  show thesis
  proof (cases "sch_parseKey sch pk = None \<or> sch_parseSig sch (take 64 raw) = None")
    case True
    with rv show thesis
      by (intro that [of "vm\<lparr>sigHashReusedValues := rv\<rparr>"])
        (auto simp: run only_caches_def sig_matches_def Let_def split: option.split)
  next
    case False
    then obtain k g where ks: "sch_parseKey sch pk = Some k" "sch_parseSig sch (take 64 raw) = Some g" by auto
    from verifySig_valid [OF rv, of h g k] obtain vm' where
      "verifySig sch h g k (vm\<lparr>sigHashReusedValues := rv\<rparr>) = (sch_verify sch k h g, vm')" "only_caches vm vm'"
      by (auto simp: only_caches_def)
    with ks show thesis by (intro that [of vm']) (simp_all add: run sig_matches_def h)
  qed
qed

lemma checkSig_safe:
  assumes g: "good env vm" and n: "stacks_ok n vm" "n \<le> 900"
  shows "safe env n (checkSig sch pop vm)"
proof -
  from n have f: "fit (dstack vm)" using stacks_ok_fit [of n vm] by simp
  from fit_small [OF f] show ?thesis
  proof (cases rule: PopByteArray_cases)
    case empty
    then show ?thesis by (simp add: checkSig_def)
  next
    case pk: (item pk s1)
    from pk(3) show ?thesis
    proof (cases rule: PopByteArray_cases)
      case empty
      with pk show ?thesis by (simp add: checkSig_def)
    next
      case raw: (item raw s)
      have ok: "good env (vm'\<lparr>dstack := PushBool s b\<rparr>) \<and> stacks_ok n (vm'\<lparr>dstack := PushBool s b\<rparr>)"
        if "only_caches vm vm'" for vm' b
        using that n(1) pk(1) raw(1)
        by (auto simp: only_caches_def stacks_ok_def PushBool_def PushByteArray_def fromBool_def MaxScriptElementSize_def)
      show ?thesis
      proof (cases "length raw = 65 \<and> IsStandardSigHashType (raw ! 64)")
        case False
        with pk raw ok [OF only_caches_refl [OF g]] show ?thesis
          by (auto simp: checkSig_def checks(2) Let_def)
      next
        case form: True
        show ?thesis
        proof (cases "sch_checkPubKey sch pk")
          case (Inl e)
          with checks(1) [of pk] have "e \<noteq> GoPanic" by auto
          with form Inl pk raw show ?thesis by (auto simp: checkSig_def checks(2) Let_def safe_def)
        next
          case (Inr u)
          from pk raw fit_small [OF f] have "dstack vm = s @ [raw, pk]" "small_stack (dstack vm)" by simp_all
          from checkSig_eq [OF g this, of pop] form Inr ok show ?thesis by (metis old.unit.exhaust safe_simps)
        qed
      qed
    qed
  qed
qed

text \<open>The loop returns when every signature and key it may look at has the right form.\<close>

lemma multiSigLoop_returns:
  assumes "good env vm" "parsed_ok ss p" "\<forall>k \<in> set ks. sch_checkPubKey sch k = Inr ()"
    "\<forall>raw \<in> set ss. length raw = 65 \<and> IsStandardSigHashType (raw ! 64)"
  shows "\<exists>r. multiSigLoop sch ks ss p vm = Inr r"
  using assms
proof (induction ks arbitrary: ss p vm)
  case Nil
  then show ?case by (cases ss) auto
next
  case (Cons k ks)
  show ?case
  proof (cases ss)
    case (Cons raw rest)
    have "\<exists>r. tryKey sch k raw p vm = Inr r"
    proof -
      have raw: "length raw = 65" "IsStandardSigHashType (raw ! 64)" "raw \<noteq> []" using Cons.prems(4) Cons by auto
      then have "\<exists>x. parseOnce sch (raw ! 64) (take 64 raw) p = Inr x"
        by (simp add: parseOnce_def checks(2) split: option.split)
      with raw sigHash_standard [OF Cons.prems(1) raw(2)] Cons.prems(3) show ?thesis
        by (auto simp: tryKey_def split: option.split prod.split)
    qed
    then obtain v p' vm' where t: "tryKey sch k raw p vm = Inr (v, p', vm')" by auto
    with tryKey_ok [OF Cons.prems(1) Cons.prems(2) [unfolded Cons], of k]
    have "good env vm'" "parsed_ok ss p'" by (simp_all add: only_caches_def Cons)
    then have "\<exists>r. multiSigLoop sch ks rest None vm' = Inr r" "\<exists>r. multiSigLoop sch ks ss p' vm' = Inr r"
      using Cons.IH Cons.prems(3,4) by (simp_all add: Cons parsed_ok_def split: list.split)
    with t show ?thesis by (auto simp: Cons)
  qed auto
qed

text \<open>
  The check of several signatures: the number of keys, the keys, the number of signatures and
  the signatures are popped, each group with its first element on top.
\<close>

lemma checkMultiSig_eq:
  assumes s: "fit (dstack vm)" "dstack vm = s @ rev sigs @ [mb] @ rev keys @ [nb]"
    and nb: "makeScriptNum nb 4 = Inr (int (length keys))" "length keys \<le> 20" "numOps vm + int (length keys) \<le> 201"
    and mb: "makeScriptNum mb 4 = Inr (int (length sigs))" "length sigs \<le> length keys"
  shows "checkMultiSig sch pop vm =
    bindR (multiSigLoop sch keys sigs None (vm\<lparr>numOps := numOps vm + int (length keys)\<rparr>)) (\<lambda>(success, vm).
      if \<not> success \<and> list_ex (\<lambda>sig. length sig > 0) sigs then scriptError ErrNullFail
      else Inr (vm\<lparr>dstack := PushBool s success\<rparr>))"
proof -
  let ?s1 = "s @ rev sigs @ [mb] @ rev keys"
  have f: "fit (?s1 @ [nb])" "fit ?s1" "fit (s @ rev sigs @ [mb])" "fit (s @ rev sigs)"
    using s by (simp_all add: fit_def)
  have i: "scriptNum_Int32 (int (length keys)) = int (length keys)" "scriptNum_Int32 (int (length sigs)) = int (length sigs)"
    using nb(2) mb(2) by (simp_all add: scriptNum_Int32_def maxInt32_def minInt32_def)
  have p: "PopInt (?s1 @ [nb]) = Inr (int (length keys), ?s1)" "PopInt (s @ rev sigs @ [mb]) = Inr (int (length sigs), s @ rev sigs)"
    using f(1,3) PopInt_snoc [of ?s1 nb] PopInt_snoc [of "s @ rev sigs" mb] fit_small nb(1) mb(1) by simp_all
  have q: "popMany (length keys) ?s1 = Inr (keys, s @ rev sigs @ [mb])" "popMany (length sigs) (s @ rev sigs) = Inr (sigs, s)"
    using f popMany_rev [of "s @ rev sigs @ [mb]" keys] popMany_rev [of s sigs] by simp_all
  from p(1) have "PopInt (dstack vm) = Inr (int (length keys), ?s1)" using s(2) by simp
  then show ?thesis
    using p(2) q i nb mb
    by (simp add: checkMultiSig_def Let_def MaxPubKeysPerMultiSig_def MaxOpsPerScript_def)
qed

lemma checkMultiSig_result:
  assumes g: "good env vm" and s: "fit (dstack vm)" "dstack vm = s @ rev sigs @ [mb] @ rev keys @ [nb]"
    and nb: "makeScriptNum nb 4 = Inr (int (length keys))" "length keys \<le> 20" "numOps vm + int (length keys) \<le> 201"
    and mb: "makeScriptNum mb 4 = Inr (int (length sigs))" "length sigs \<le> length keys"
    and keys: "\<forall>k \<in> set keys. sch_checkPubKey sch k = Inr ()"
    and sigs: "\<forall>raw \<in> set sigs. length raw = 65 \<and> IsStandardSigHashType (raw ! 64)"
  obtains vm' where "only_caches (vm\<lparr>numOps := numOps vm + int (length keys)\<rparr>) vm'"
    "checkMultiSig sch pop vm =
       (if \<exists>ks. subseq ks keys \<and> list_all2 (sig_matches (vm_tx vm) (txIdx vm)) ks sigs
        then Inr (vm'\<lparr>dstack := PushBool s True\<rparr>) else scriptError ErrNullFail)"
proof -
  let ?vm = "vm\<lparr>numOps := numOps vm + int (length keys)\<rparr>"
  have g': "good env ?vm" using g nb(3) by (simp add: good_def MaxOpsPerScript_def)
  have n: "parsed_ok sigs None" by (simp add: parsed_ok_def split: list.split)
  from multiSigLoop_returns [OF g' n keys sigs] obtain b vm'
    where r: "multiSigLoop sch keys sigs None ?vm = Inr (b, vm')" by auto
  with multiSigLoop_ok [OF g' n, of keys]
  have b: "b \<longleftrightarrow> (\<exists>ks. subseq ks keys \<and> list_all2 (sig_matches (vm_tx vm) (txIdx vm)) ks sigs)"
    and c: "only_caches ?vm vm'"
    by (simp_all add: greedy_subseq)
  have "list_ex (\<lambda>sig. length sig > 0) sigs" if "\<not> b"
  proof (cases sigs)
    case Nil
    with that b show ?thesis by simp
  qed (use sigs in auto)
  then show thesis
    using that [OF c] checkMultiSig_eq [OF s nb mb, of pop] r b by auto
qed

lemma checkMultiSig_safe:
  assumes g: "good env vm" and n: "stacks_ok n vm" "n \<le> 900"
  shows "safe env n (checkMultiSig sch pop vm)"
proof -
  from n have f: "fit (dstack vm)" using stacks_ok_fit [of n vm] by simp
  have last: "safe env n (bindR (multiSigLoop sch keys sigs None vm1) (\<lambda>(success, vm).
      if \<not> success \<and> list_ex (\<lambda>sig. sig \<noteq> []) sigs then scriptError ErrNullFail
      else Inr (vm\<lparr>dstack := PushBool s success\<rparr>)))"
    if g1: "good env vm1" and a: "astack vm1 = astack vm" and s: "fit s" "length s < length (dstack vm)" for vm1 keys sigs s
  proof -
    have "parsed_ok sigs None" by (simp add: parsed_ok_def split: list.split)
    from multiSigLoop_ok [OF g1 this, of keys] show ?thesis
    proof (cases rule: ensures_cases)
      case (val x)
      obtain b vm2 where "x = (b, vm2)" by fastforce
      with val have "multiSigLoop sch keys sigs None vm1 = Inr (b, vm2)" "good env vm2" "astack vm2 = astack vm"
        using a by (simp_all add: only_caches_def)
      moreover have "elems_ok s" "elems_ok (astack vm)" "length s + length (astack vm) < n"
        using s n(1) by (simp_all add: fit_def stacks_ok_def)
      ultimately show ?thesis
        by (simp add: stacks_ok_def PushBool_def PushByteArray_def fromBool_def MaxScriptElementSize_def)
    qed (simp add: safe_def)
  qed
  have nums: "good env (vm\<lparr>numOps := numOps vm + k\<rparr>)" if "0 \<le> k" "\<not> MaxOpsPerScript < numOps vm + k" for k
    using g that by (simp add: good_def)
  show ?thesis
    unfolding checkMultiSig_def
    by (auto simp: Let_def intro!: safe_PopInt safe_popMany last nums f)
qed

end

text \<open>The hash that a signature of input \<open>i\<close> with hash type \<open>ht\<close> signs.\<close>

definition schnorrHash :: "hashLib \<Rightarrow> DomainTransaction \<Rightarrow> nat \<Rightarrow> byte \<Rightarrow> bytes" where
  "schnorrHash lib tx i ht = (case CalculateSignatureHashSchnorr lib tx i ht noReusedValues of Inr (h, _) \<Rightarrow> h | Inl _ \<Rightarrow> [])"

definition ecdsaHash :: "hashLib \<Rightarrow> DomainTransaction \<Rightarrow> nat \<Rightarrow> byte \<Rightarrow> bytes" where
  "ecdsaHash lib tx i ht = (case CalculateSignatureHashECDSA lib tx i ht noReusedValues of Inr (h, _) \<Rightarrow> h | Inl _ \<Rightarrow> [])"

lemma good_reuse: "good env vm \<Longrightarrow> good env (vm\<lparr>sigHashReusedValues := rv\<rparr>) \<longleftrightarrow> reuse_ok (lib_hashes env) (vm_tx vm) rv"
  by (simp add: good_def)

lemma schnorr_sigHash:
  assumes "good env vm"
  shows "ensures (\<lambda>(h, rv). h = schnorrHash (lib_hashes env) (vm_tx vm) (txIdx vm) ht \<and> good env (vm\<lparr>sigHashReusedValues := rv\<rparr>))
    (CalculateSignatureHashSchnorr (lib_hashes env) (vm_tx vm) (txIdx vm) ht (sigHashReusedValues vm))"
proof (cases "CalculateSignatureHashSchnorr (lib_hashes env) (vm_tx vm) (txIdx vm) ht (sigHashReusedValues vm)")
  case (Inl e)
  with assms show ?thesis by (auto simp: CalculateSignatureHashSchnorr_def good_def Let_def split: if_splits option.splits)
next
  case (Inr p)
  obtain h rv where p: "p = (h, rv)" by fastforce
  from assms have r: "reuse_ok (lib_hashes env) (vm_tx vm) (sigHashReusedValues vm)" by (simp add: good_def)
  from schnorr_reuse [OF r, of "txIdx vm" ht] Inr p
  have "\<exists>rv'. CalculateSignatureHashSchnorr (lib_hashes env) (vm_tx vm) (txIdx vm) ht noReusedValues = Inr (h, rv')"
    by (auto simp: bindR_Inr_iff dest: sym)
  then have "schnorrHash (lib_hashes env) (vm_tx vm) (txIdx vm) ht = h" by (auto simp: schnorrHash_def)
  moreover have "reuse_ok (lib_hashes env) (vm_tx vm) rv" using sighash_view [OF r] Inr p by blast
  ultimately show ?thesis using Inr p assms by (simp add: good_reuse)
qed

lemma ecdsa_sigHash:
  assumes "good env vm"
  shows "ensures (\<lambda>(h, rv). h = ecdsaHash (lib_hashes env) (vm_tx vm) (txIdx vm) ht \<and> good env (vm\<lparr>sigHashReusedValues := rv\<rparr>))
    (CalculateSignatureHashECDSA (lib_hashes env) (vm_tx vm) (txIdx vm) ht (sigHashReusedValues vm))"
  using schnorr_sigHash [OF assms, of ht]
proof (cases rule: ensures_cases)
  case (val x)
  obtain h rv where x: "x = (h, rv)" by fastforce
  let ?c = "CalculateSignatureHashSchnorr (lib_hashes env) (vm_tx vm) (txIdx vm) ht"
  from val x CalculateSignatureHashSchnorr_Inl [of "lib_hashes env" "vm_tx vm" "txIdx vm" ht noReusedValues]
  have "\<exists>r. ?c noReusedValues = Inr r" by (cases "?c noReusedValues") auto
  with val x show ?thesis
    by (auto simp: CalculateSignatureHashECDSA_def ecdsaHash_def schnorrHash_def)
qed (simp add: CalculateSignatureHashECDSA_def)

lemma good_standard_hash:
  "\<lbrakk> good env vm; IsStandardSigHashType ht \<rbrakk> \<Longrightarrow>
     \<exists>p. CalculateSignatureHashSchnorr (lib_hashes env) (vm_tx vm) (txIdx vm) ht (sigHashReusedValues vm) = Inr p"
  by (auto simp: CalculateSignatureHashSchnorr_def good_def Let_def)

interpretation schnorr: sig_scheme "schnorrScheme env" env "schnorrHash (lib_hashes env)" for env
proof
  show "\<exists>p. sch_sigHash (schnorrScheme env) (vm_tx vm) (txIdx vm) ht (sigHashReusedValues vm) = Inr p"
    if "good env vm" "IsStandardSigHashType ht" for vm ht
    using good_standard_hash [OF that] by (simp add: schnorrScheme_def)
next
  show "ensures (\<lambda>(h, rv). h = schnorrHash (lib_hashes env) (vm_tx vm) (txIdx vm) ht \<and> good env (vm\<lparr>sigHashReusedValues := rv\<rparr>))
    (sch_sigHash (schnorrScheme env) (vm_tx vm) (txIdx vm) ht (sigHashReusedValues vm))" if "good env vm" for vm ht
    using schnorr_sigHash [OF that] by (simp add: schnorrScheme_def)
qed (auto simp: schnorrScheme_def checkPubKeyEncoding_def checkSignatureLength_def good_def)

interpretation ecdsa: sig_scheme "ecdsaScheme env" env "ecdsaHash (lib_hashes env)" for env
proof
  show "\<exists>p. sch_sigHash (ecdsaScheme env) (vm_tx vm) (txIdx vm) ht (sigHashReusedValues vm) = Inr p"
    if "good env vm" "IsStandardSigHashType ht" for vm ht
    using good_standard_hash [OF that] by (auto simp: ecdsaScheme_def CalculateSignatureHashECDSA_def)
next
  show "ensures (\<lambda>(h, rv). h = ecdsaHash (lib_hashes env) (vm_tx vm) (txIdx vm) ht \<and> good env (vm\<lparr>sigHashReusedValues := rv\<rparr>))
    (sch_sigHash (ecdsaScheme env) (vm_tx vm) (txIdx vm) ht (sigHashReusedValues vm))" if "good env vm" for vm ht
    using ecdsa_sigHash [OF that] by (simp add: ecdsaScheme_def)
qed (auto simp: ecdsaScheme_def checkPubKeyEncodingECDSA_def checkSignatureLengthECDSA_def good_def)

lemmas sig_handlers_safe = schnorr.checkSig_safe ecdsa.checkSig_safe schnorr.checkMultiSig_safe ecdsa.checkMultiSig_safe

section \<open>The handlers\<close>

lemma safe_abstractVerify:
  "\<lbrakk> good env vm; stacks_ok n vm; n \<le> 900 \<rbrakk> \<Longrightarrow> safe env (n + 3) (abstractVerify c pop vm)"
  by (simp add: abstractVerify_def safe_tame tame_rules)

lemma popIfBool_ok:
  assumes "good env vm" "stacks_ok n vm" "n \<le> 900"
  shows "ensures (\<lambda>(b, vm'). good env vm' \<and> stacks_ok n vm' \<and> condStack vm' = condStack vm) (popIfBool vm)"
proof -
  from assms have "fit (dstack vm)" using stacks_ok_fit [of n vm] by simp
  from fit_small [OF this] show ?thesis
  proof (cases rule: PopByteArray_cases)
    case (item x s)
    with assms show ?thesis by (auto simp: popIfBool_def stacks_ok_def)
  qed (simp add: popIfBool_def)
qed

lemma good_condStack:
  "good env vm \<Longrightarrow> good env (vm\<lparr>condStack := c\<rparr>) \<longleftrightarrow> set c \<subseteq> {OpCondFalse, OpCondTrue, OpCondSkip}"
  by (simp add: good_def)

lemma safe_conditionals:
  assumes "good env vm" "stacks_ok n vm" "n \<le> 900"
  shows "safe env n (opcodeIf pop vm)" "safe env n (opcodeNotIf pop vm)" "safe env n (opcodeElse pop vm)"
    "safe env n (opcodeEndif pop vm)"
proof -
  have c: "set (condStack vm) \<subseteq> {OpCondFalse, OpCondTrue, OpCondSkip}" using assms(1) by (simp add: good_def)
  from popIfBool_ok [OF assms] show "safe env n (opcodeIf pop vm)" "safe env n (opcodeNotIf pop vm)"
    using assms c by (auto simp: safe_def opcodeIf_def opcodeNotIf_def good_condStack elim!: ensures_mono)
  have "set ((condStack vm)[i := x]) \<subseteq> insert x (set (condStack vm))" for i x by (rule set_update_subset_insert)
  with assms c show "safe env n (opcodeElse pop vm)"
    by (fastforce simp: opcodeElse_def Let_def good_condStack)
  from assms c set_take_subset [of "length (condStack vm) - 1" "condStack vm"] show "safe env n (opcodeEndif pop vm)"
    by (auto simp: opcodeEndif_def good_condStack)
qed

lemma safe_lockTimes:
  assumes "good env vm" "stacks_ok n vm" "n \<le> 900"
  shows "safe env n (opcodeCheckLockTimeVerify pop vm)" "safe env n (opcodeCheckSequenceVerify pop vm)"
proof -
  from assms have "fit (dstack vm)" using stacks_ok_fit [of n vm] by simp
  note f = fit_small [OF this]
  have i: "currentSequence vm = Inr (in_Sequence (tx_Inputs (vm_tx vm) ! txIdx vm))"
    using assms(1) by (simp add: currentSequence_def good_def)
  have s: "stacks_ok n (vm\<lparr>dstack := s\<rparr>)" if "dstack vm = s @ [x]" for s x
    using assms(2) that by (simp add: stacks_ok_def)
  from f show "safe env n (opcodeCheckLockTimeVerify pop vm)"
    by (cases rule: PopByteArray_cases)
      (use assms(1) s in \<open>auto simp: opcodeCheckLockTimeVerify_def lockTimeOperand_def verifyLockTimeWithThreshold_def
        verifyLockTimeThreshold_def verifyLockTime_def i\<close>)
  from f show "safe env n (opcodeCheckSequenceVerify pop vm)"
    by (cases rule: PopByteArray_cases)
      (use assms(1) s in \<open>auto simp: opcodeCheckSequenceVerify_def lockTimeOperand_def verifyLockTime_def i\<close>)
qed

lemma safe_altStack:
  assumes "good env vm" "stacks_ok n vm" "n \<le> 900"
  shows "safe env n (opcodeToAltStack pop vm)" "safe env n (opcodeFromAltStack pop vm)"
proof -
  from assms have "fit (dstack vm)" "fit (astack vm)" using stacks_ok_fit [of n vm] by simp_all
  note f = this [THEN fit_small]
  from f(1) show "safe env n (opcodeToAltStack pop vm)"
    by (cases rule: PopByteArray_cases) (use assms in \<open>simp_all add: opcodeToAltStack_def stacks_ok_def PushByteArray_def\<close>)
  from f(2) show "safe env n (opcodeFromAltStack pop vm)"
    by (cases rule: PopByteArray_cases) (use assms in \<open>simp_all add: opcodeFromAltStack_def stacks_ok_def PushByteArray_def\<close>)
qed

lemma int64_within: "\<bar>m\<bar> < 2 ^ 63 \<Longrightarrow> \<bar>int64 m\<bar> < 2 ^ 63"
  by (simp add: int64_id abs_less_iff)

text \<open>The handlers that work on the data stack alone.\<close>

definition dstack_op :: "('k, 's) sigLib \<Rightarrow> opfunc \<Rightarrow> parsedOpcode \<Rightarrow> bool" where
  "dstack_op env f pop \<longleftrightarrow> (\<exists>g. tame g \<and> runOpfunc env f pop = onDstack g)"

lemma dstack_opI: "\<lbrakk> runOpfunc env f pop = onDstack g; tame g \<rbrakk> \<Longrightarrow> dstack_op env f pop"
  by (auto simp: dstack_op_def)

lemma dstack_ops:
  assumes "digests_ok env" "length (dataOf pop) \<le> MaxScriptElementSize"
  shows "dstack_op env F_opcodeFalse pop" "dstack_op env F_opcodePushData pop" "dstack_op env F_opcode1Negate pop"
    "dstack_op env F_opcodeN pop" "dstack_op env F_opcodeVerify pop"
    "dstack_op env F_opcode2Drop pop" "dstack_op env F_opcode2Dup pop" "dstack_op env F_opcode3Dup pop"
    "dstack_op env F_opcode2Over pop" "dstack_op env F_opcode2Rot pop" "dstack_op env F_opcode2Swap pop"
    "dstack_op env F_opcodeIfDup pop" "dstack_op env F_opcodeDepth pop" "dstack_op env F_opcodeDrop pop"
    "dstack_op env F_opcodeDup pop" "dstack_op env F_opcodeNip pop" "dstack_op env F_opcodeOver pop"
    "dstack_op env F_opcodePick pop" "dstack_op env F_opcodeRoll pop" "dstack_op env F_opcodeRot pop"
    "dstack_op env F_opcodeSwap pop" "dstack_op env F_opcodeTuck pop" "dstack_op env F_opcodeSize pop"
    "dstack_op env F_opcodeEqual pop" "dstack_op env F_opcode1Add pop" "dstack_op env F_opcode1Sub pop"
    "dstack_op env F_opcodeNegate pop" "dstack_op env F_opcodeAbs pop" "dstack_op env F_opcodeNot pop"
    "dstack_op env F_opcode0NotEqual pop" "dstack_op env F_opcodeAdd pop" "dstack_op env F_opcodeSub pop"
    "dstack_op env F_opcodeBoolAnd pop" "dstack_op env F_opcodeBoolOr pop" "dstack_op env F_opcodeNumEqual pop"
    "dstack_op env F_opcodeNumNotEqual pop" "dstack_op env F_opcodeLessThan pop" "dstack_op env F_opcodeGreaterThan pop"
    "dstack_op env F_opcodeLessThanOrEqual pop" "dstack_op env F_opcodeGreaterThanOrEqual pop"
    "dstack_op env F_opcodeMin pop" "dstack_op env F_opcodeMax pop" "dstack_op env F_opcodeWithin pop"
    "dstack_op env F_opcodeSha256 pop" "dstack_op env F_opcodeBlake2b pop"
  by (rule dstack_opI, (simp add: stack_handler_defs; fail),
      (intro tame_rules; insert assms; auto simp: digests_ok_def intro!: int64_within; fail))+

lemma runOpfunc_safe:
  assumes env: "digests_ok env" and d: "length (dataOf pop) \<le> MaxScriptElementSize"
    and vm: "good env vm" "stacks_ok n vm" "n \<le> 890"
  shows "safe env (n + 6) (runOpfunc env f pop vm)"
proof -
  have tame: "safe env (n + 3) (runOpfunc env g pop vm)" if "dstack_op env g pop" for g
    using that safe_tame [OF _ vm(1,2)] vm(3) by (auto simp: dstack_op_def)
  have verify: "safe env (n + 6) (bindR r (abstractVerify c pop))" if "safe env (n + 3) r" for r c
    using that by (rule safe_bind) (use safe_abstractVerify [of env _ "n + 3" c pop] vm(3) in \<open>auto simp: ac_simps\<close>)
  have sig: "safe env (n + 3) (checkSig (schnorrScheme env) pop vm)" "safe env (n + 3) (checkSig (ecdsaScheme env) pop vm)"
    "safe env (n + 3) (checkMultiSig (schnorrScheme env) pop vm)" "safe env (n + 3) (checkMultiSig (ecdsaScheme env) pop vm)"
    using sig_handlers_safe [OF vm(1,2), THEN safe_mono, of "n + 3"] vm(3) by simp_all
  note equals = tame [OF dstack_ops(24) [OF env d]] tame [OF dstack_ops(35) [OF env d]]
  note other = safe_conditionals [OF vm(1,2)] safe_lockTimes [OF vm(1,2)] safe_altStack [OF vm(1,2)]
  have "dstack_op env f pop \<or> safe env (n + 6) (runOpfunc env f pop vm)"
  proof (cases f)
    case F_opcodeEqualVerify
    with verify [OF equals(1)] show ?thesis by (simp add: opcodeEqualVerify_def)
  next
    case F_opcodeNumEqualVerify
    with verify [OF equals(2)] show ?thesis by (simp add: opcodeNumEqualVerify_def)
  next
    case F_opcodeCheckSigVerify
    with verify [OF sig(1)] show ?thesis by (simp add: opcodeCheckSigVerify_def opcodeCheckSig_def)
  next
    case F_opcodeCheckMultiSigVerify
    with verify [OF sig(3)] show ?thesis by (simp add: opcodeCheckMultiSigVerify_def opcodeCheckMultiSig_def)
  qed (use dstack_ops [OF env d] vm in \<open>simp_all add: opcodeCheckSig_def opcodeCheckSigECDSA_def opcodeCheckMultiSig_def
      opcodeCheckMultiSigECDSA_def safe_mono [OF sig(1)] safe_mono [OF sig(2)] safe_mono [OF sig(3)] safe_mono [OF sig(4)]
      safe_mono [OF other(1)] safe_mono [OF other(2)] safe_mono [OF other(3)] safe_mono [OF other(4)] safe_mono [OF other(5)]
      safe_mono [OF other(6)] safe_mono [OF other(7)] safe_mono [OF other(8)] opcodeNop_def opcodeReserved_def
      opcodeReturn_def opcodeDisabled_def opcodeInvalid_def stacks_ok_def\<close>)
  then show ?thesis using safe_mono [OF tame] by auto
qed

section \<open>Opcodes of parsed scripts\<close>

definition parsed_pop :: "parsedOpcode \<Rightarrow> bool" where
  "parsed_pop pop \<longleftrightarrow> (\<exists>b. pop_opcode pop = opcodeArray b) \<and> shape_pop pop"

lemma parseLoop_parsed: "parseLoop s = (pops, e) \<Longrightarrow> list_all parsed_pop pops \<and> e \<noteq> Some GoPanic"
proof (induction s arbitrary: pops rule: parseLoop.induct)
  case (2 b rest)
  show ?case
  proof (cases "parseOne b rest")
    case (Inl f)
    then have "f \<noteq> GoPanic"
      by (auto simp: parseOne_def pushLength_def Let_def bindR_Inl_iff split: if_splits)
    with 2 Inl show ?thesis by auto
  next
    case (Inr r)
    obtain pop rest' where r: "r = (pop, rest')" by fastforce
    with Inr parseOne_shape [of b rest pop rest'] have "parsed_pop pop" by (auto simp: parsed_pop_def)
    with 2 Inr r show ?thesis by (auto split: prod.splits)
  qed
qed simp

lemma parseScript_or_fail_ok: "ensures (list_all parsed_pop) (parseScript_or_fail s)"
  using parseLoop_parsed [of s]
  by (cases "parseLoop s") (auto simp: parseScript_or_fail_def parseScript_def split: option.split)

lemma parsed_no_data: "\<lbrakk> parsed_pop pop; pop_value pop > Op16 \<rbrakk> \<Longrightarrow> dataOf pop = []"
proof -
  assume p: "parsed_pop pop" and v: "pop_value pop > Op16"
  then obtain b where b: "pop_opcode pop = opcodeArray b" by (auto simp: parsed_pop_def)
  have "b > 78" using v b by (simp add: opcodeArray_value misnumbered_def split: if_splits)
      (auto simp: word_less_nat_alt word_le_nat_alt)
  then have "op_length (pop_opcode pop) = 1" by (auto simp: b opcodeArray_length data_length_def word_less_nat_alt word_le_nat_alt)
  then show ?thesis using p by (simp add: parsed_pop_def shape_pop_def dataOf_def)
qed

lemma executeOpcode_safe:
  assumes env: "digests_ok env" and pop: "parsed_pop pop" and vm: "good env vm" "stacks_ok n vm" "n \<le> 890"
  shows "safe env (n + 6) (executeOpcode env pop vm)"
proof -
  let ?count = "if pop_value pop > Op16
    then let vm = vm\<lparr>numOps := numOps vm + 1\<rparr> in if numOps vm > MaxOpsPerScript then scriptError ErrTooManyOperations else Inr vm
    else if length (dataOf pop) > MaxScriptElementSize then scriptError ErrElementTooBig else Inr vm"
  have count: "ensures (\<lambda>vm. good env vm \<and> stacks_ok n vm \<and> length (dataOf pop) \<le> MaxScriptElementSize) ?count"
    using vm parsed_no_data [OF pop] by (auto simp: Let_def good_def)
  have "safe env (n + 6) (bindR ?count (\<lambda>vm. if \<not> isBranchExecuting vm \<and> \<not> isConditional pop then Inr vm
     else bindR (if isBranchExecuting vm \<and> pop_value pop \<noteq> 0 \<and> pop_value pop \<le> OpPushData4
       then checkMinimalDataPush pop else Inr ()) (\<lambda>_. runOpfunc env (op_func (pop_opcode pop)) pop vm)))"
    using count
  proof (cases rule: ensures_cases)
    case (val vm1)
    then have "safe env (n + 6) (runOpfunc env (op_func (pop_opcode pop)) pop vm1)" "safe env (n + 6) (Inr vm1)"
      using runOpfunc_safe [OF env _ _ _ vm(3)] safe_mono [of env n "Inr vm1" "n + 6"] by auto
    moreover have "no_panic (checkMinimalDataPush pop)" by (simp add: checkMinimalDataPush_def Let_def)
    then have "safe env k (bindR (checkMinimalDataPush pop) (\<lambda>_. r))" if "safe env k r" for k r
      using that by (cases "checkMinimalDataPush pop") (auto simp: safe_def)
    ultimately show ?thesis using val(1) by simp
  qed (simp add: safe_def)
  then show ?thesis by (simp add: executeOpcode_def)
qed

end
