(* ===== verification/ScriptInvariant.thy ===== *)
theory ScriptInvariant
  imports ScriptSafety
begin

text \<open>
  The invariant of a script execution, kept by every step, and what it gives for a whole
  execution: it stays within its limits and does not panic.
\<close>

section \<open>Whole stacks\<close>

lemma PeekByteArray_nth: "\<lbrakk> small_stack s; i < length s \<rbrakk> \<Longrightarrow> PeekByteArray s (int i) = Inr (rev s ! i)"
proof -
  assume s: "small_stack s" and i: "i < length s"
  let ?n = "length s - Suc i"
  have "s = take ?n s @ s ! ?n # drop (Suc ?n) s" using i by (simp add: Cons_nth_drop_Suc)
  with PeekByteArray_mid [of "take ?n s" "s ! ?n" "drop (Suc ?n) s"] s i show ?thesis by (simp add: rev_nth)
qed

lemma getStack_id: "fit s \<Longrightarrow> getStack s = s"
proof -
  assume s: "fit s"
  then have d: "Depth s = int (length s)" by (simp add: Depth_def fit_def)
  have "map (\<lambda>i. case PeekByteArray s (int32 (int i)) of Inr so \<Rightarrow> so | Inl _ \<Rightarrow> []) [0..<length s] = rev s"
    using s PeekByteArray_nth [OF fit_small [OF s]]
    by (intro nth_equalityI) (simp_all add: fit_def)
  then show ?thesis by (simp add: getStack_def d)
qed

lemma dropAll_Nil: "fit s \<Longrightarrow> dropAll s = []"
proof (cases "s = []")
  case False
  assume "fit s"
  with False DropN_append [of "[]" s] fit_small [of s] show ?thesis
    by (simp add: dropAll_def Depth_def fit_def)
qed (simp add: dropAll_def DropN_def Depth_def scriptError_def)

lemma setStack_id: "fit s \<Longrightarrow> setStack s data = data"
proof -
  have "foldl PushByteArray acc data = acc @ data" for acc :: stack
    by (induction data arbitrary: acc) (simp_all add: PushByteArray_def)
  then show "fit s \<Longrightarrow> setStack s data = data" by (simp add: setStack_def dropAll_Nil)
qed

lemma elems_ok_take: "elems_ok s \<Longrightarrow> elems_ok (take n s)"
  by (auto simp: elems_ok_def dest: in_set_takeD)

section \<open>The invariant\<close>

text \<open>
  A pay-to-script-hash spend: the second script has the form \<^verbatim>\<open>BLAKE2B <hash> EQUAL\<close>, and while
  it runs the saved stack is either the stack it started on or known to have an element.
\<close>

definition p2sh_inv :: "('k, 's) Engine \<Rightarrow> bool" where
  "p2sh_inv vm \<longleftrightarrow> (isP2SH vm \<longrightarrow>
     length (scripts vm) \<ge> 2 \<and> isScriptHash (scripts vm ! 1) \<and> elems_ok (savedFirstStack vm) \<and>
     int (length (savedFirstStack vm)) \<le> MaxStackSize \<and>
     (scriptIdx vm = 1 \<longrightarrow> savedFirstStack vm \<noteq> [] \<or> scriptOff vm = 0 \<and> dstack vm = savedFirstStack vm))"

definition engine_inv :: "('k, 's) sigLib \<Rightarrow> ('k, 's) Engine \<Rightarrow> bool" where
  "engine_inv env vm \<longleftrightarrow> good env vm \<and> stacks_ok (nat MaxStackSize) vm \<and>
     (\<forall>ps \<in> set (scripts vm). list_all parsed_pop ps) \<and>
     (scriptOff vm = 0 \<longrightarrow> condStack vm = []) \<and> p2sh_inv vm"

lemma op_func_blake2b:
  assumes "parsed_pop pop" "pop_value pop = OpBlake2b"
  shows "op_func (pop_opcode pop) = F_opcodeBlake2b"
proof -
  obtain b where b: "pop_opcode pop = opcodeArray b" using assms(1) by (auto simp: parsed_pop_def)
  have "misnumbered b \<Longrightarrow> b + 10 \<noteq> OpBlake2b"
    by (auto simp: misnumbered_def word_le_nat_alt word_unat_eq_iff unat_plus_if')
  with assms(2) b have "b = OpBlake2b" by (auto simp: opcodeArray_value split: if_splits)
  moreover have "op_func (opcodeArray OpBlake2b) = F_opcodeBlake2b" by code_simp
  ultimately show ?thesis using b by simp
qed

text \<open>The first opcode of a pay-to-script-hash script fails on an empty stack.\<close>

lemma blake2b_first:
  assumes "parsed_pop pop" "pop_value pop = OpBlake2b" "condStack vm = []" "dstack vm = []"
  shows "executeOpcode env pop vm \<noteq> Inr vm'"
proof -
  have "isBranchExecuting vm1" if "condStack vm1 = []" for vm1 :: "('a, 'b) Engine"
    using that by (simp add: isBranchExecuting_def)
  then show ?thesis
    using assms op_func_blake2b [OF assms(1,2)]
    by (auto simp: executeOpcode_def Let_def opcodeBlake2b_def onDstack_def bindR_Inr_iff split: if_splits)
qed

lemma CheckErrorCondition_ok:
  assumes "stacks_ok n vm" "n \<le> 900"
  shows "ensures (\<lambda>vm'. \<exists>x. dstack vm = dstack vm' @ [x] \<and> vm' = vm\<lparr>dstack := dstack vm'\<rparr> \<and> asBool x)
    (CheckErrorCondition b vm)"
proof -
  from assms have "fit (dstack vm)" using stacks_ok_fit [of n vm] by simp
  from fit_small [OF this] show ?thesis
    by (cases rule: PopByteArray_cases) (auto simp: CheckErrorCondition_def PopBool_def)
qed

text \<open>The state in which a script has just ended, before the step to the next one.\<close>

definition ended_inv :: "('k, 's) sigLib \<Rightarrow> ('k, 's) Engine \<Rightarrow> bool" where
  "ended_inv env vm \<longleftrightarrow> good env vm \<and> stacks_ok (nat MaxStackSize) vm \<and>
     (\<forall>ps \<in> set (scripts vm). list_all parsed_pop ps) \<and> scriptOff vm = 0 \<and> condStack vm = [] \<and> astack vm = [] \<and>
     (isP2SH vm \<longrightarrow> length (scripts vm) \<ge> 2 \<and> isScriptHash (scripts vm ! 1) \<and> elems_ok (savedFirstStack vm) \<and>
       int (length (savedFirstStack vm)) \<le> MaxStackSize \<and> (scriptIdx vm = 1 \<longrightarrow> savedFirstStack vm \<noteq> []))"

lemma nextScript_ok:
  assumes inv: "ended_inv env vm"
  shows "ensures (\<lambda>vm'. engine_inv env vm' \<and> scriptIdx vm' > 0) (nextScript vm)"
proof -
  have f: "fit (dstack vm)" using inv stacks_ok_fit [of "nat MaxStackSize" vm] by (simp add: ended_inv_def MaxStackSize_def)
  consider (first) "scriptIdx vm = 0" "isP2SH vm" | (second) "scriptIdx vm = 1" "isP2SH vm"
    | (other) "\<not> isP2SH vm \<or> scriptIdx vm > 1" by fastforce
  then show ?thesis
  proof cases
    case first
    with inv f show ?thesis
      by (auto simp: nextScript_def GetStack_def getStack_id ended_inv_def engine_inv_def p2sh_inv_def stacks_ok_def)
  next
    case other
    with inv show ?thesis by (auto simp: nextScript_def ended_inv_def engine_inv_def p2sh_inv_def)
  next
    case second
    let ?saved = "savedFirstStack vm" and ?vm = "vm\<lparr>scriptIdx := Suc (Suc 0)\<rparr>"
    from second inv have saved: "?saved \<noteq> []" "elems_ok ?saved" "int (length ?saved) \<le> MaxStackSize" by (auto simp: ended_inv_def)
    have "stacks_ok (nat MaxStackSize) ?vm" using inv by (simp add: ended_inv_def)
    from CheckErrorCondition_ok [OF this, of False] have "ensures (\<lambda>vm1. \<exists>x. dstack vm = dstack vm1 @ [x] \<and> vm1 = ?vm\<lparr>dstack := dstack vm1\<rparr>)
        (CheckErrorCondition False ?vm)"
      by (rule ensures_mono) (auto simp: MaxStackSize_def)
    then show ?thesis
    proof (cases rule: ensures_cases)
      case (val vm1)
      then obtain d x where vm1: "vm1 = ?vm\<lparr>dstack := d\<rparr>" "dstack vm = d @ [x]" by metis
      have "fit d" using f vm1(2) by (simp add: fit_def)
      from parseScript_or_fail_ok [of "?saved ! (length ?saved - 1)"] show ?thesis
      proof (cases rule: ensures_cases)
        case (val pops)
        have "engine_inv env (SetStack (take (length ?saved - 1) ?saved) (vm1\<lparr>scripts := scripts vm1 @ [pops]\<rparr>))"
          using second saved inv val(2) setStack_id [OF \<open>fit d\<close>] elems_ok_take [OF saved(2)] vm1
          by (auto simp: SetStack_def engine_inv_def ended_inv_def p2sh_inv_def stacks_ok_def MaxStackSize_def nth_append)
        with second saved val \<open>CheckErrorCondition False ?vm = Inr vm1\<close> vm1(1) show ?thesis
          by (simp add: nextScript_def SetStack_def Let_def)
      qed (use second saved \<open>CheckErrorCondition False ?vm = Inr vm1\<close> vm1 in \<open>simp add: nextScript_def\<close>)
    qed (use second in \<open>simp add: nextScript_def\<close>)
  qed
qed

lemma skipEmptyScript_ok: "\<lbrakk> engine_inv env vm; scriptIdx vm > 0 \<rbrakk> \<Longrightarrow> engine_inv env (skipEmptyScript vm)"
  by (simp add: skipEmptyScript_def engine_inv_def p2sh_inv_def)

text \<open>The state after the opcode of a step, before the checks that follow it.\<close>

definition executed :: "('k, 's) sigLib \<Rightarrow> ('k, 's) Engine \<Rightarrow> ('k, 's) Engine \<Rightarrow> bool" where
  "executed env vm vm1 \<longleftrightarrow> good env vm1 \<and> stacks_ok 250 vm1 \<and> scripts vm1 = scripts vm \<and> scriptIdx vm1 = scriptIdx vm \<and>
     scriptOff vm1 = Suc (scriptOff vm) \<and> isP2SH vm1 = isP2SH vm \<and> savedFirstStack vm1 = savedFirstStack vm \<and>
     (isP2SH vm \<and> scriptIdx vm = 1 \<longrightarrow> savedFirstStack vm \<noteq> [])"

lemma opcode_executed:
  assumes env: "digests_ok env" and inv: "engine_inv env vm" and pc: "validPC vm = Inr ()"
  shows "ensures (executed env vm)
    (executeOpcode env (scripts vm ! scriptIdx vm ! scriptOff vm) (vm\<lparr>scriptOff := Suc (scriptOff vm)\<rparr>))"
proof -
  let ?pop = "scripts vm ! scriptIdx vm ! scriptOff vm" and ?vm = "vm\<lparr>scriptOff := Suc (scriptOff vm)\<rparr>"
  have pop: "parsed_pop ?pop"
    using inv pc by (auto simp: engine_inv_def list_all_length validPC_def split: if_splits)
  have g: "good env ?vm" "stacks_ok (nat MaxStackSize) ?vm" using inv by (simp_all add: engine_inv_def)
  from executeOpcode_safe [OF env pop g] have "ensures (\<lambda>vm1. good env vm1 \<and> stacks_ok 250 vm1) (executeOpcode env ?pop ?vm)"
    by (simp add: safe_def MaxStackSize_def)
  then show ?thesis
  proof (rule ensures_mono)
    fix vm1
    assume run: "executeOpcode env ?pop ?vm = Inr vm1" and vm1: "good env vm1 \<and> stacks_ok 250 vm1"
    have "savedFirstStack vm \<noteq> []" if "isP2SH vm" "scriptIdx vm = 1"
    proof
      assume empty: "savedFirstStack vm = []"
      with that inv have "scriptOff vm = 0" "dstack vm = []" "condStack vm = []" "isScriptHash (scripts vm ! 1)"
        by (auto simp: engine_inv_def p2sh_inv_def)
      with blake2b_first [OF pop, of ?vm env vm1] run that(2) show False by (simp add: isScriptHash_def)
    qed
    with vm1 framedD [OF framed_executeOpcode run] show "executed env vm vm1"
      by (auto simp: executed_def dest: core_eqD)
  qed
qed

lemma executed_stacks:
  "executed env vm vm1 \<Longrightarrow> fit (dstack vm1) \<and> fit (astack vm1) \<and>
     int32 (Depth (dstack vm1) + Depth (astack vm1)) = int (length (dstack vm1) + length (astack vm1))"
  by (auto simp: executed_def stacks_ok_def fit_def Depth_def)

lemma executed_inv:
  assumes inv: "engine_inv env vm" and vm1: "executed env vm vm1"
    and small: "int (length (dstack vm1) + length (astack vm1)) \<le> MaxStackSize"
  shows "engine_inv env vm1"
    "condStack vm1 = [] \<Longrightarrow> ended_inv env (vm1\<lparr>astack := dropAll (astack vm1), numOps := 0, scriptOff := 0\<rparr>)"
proof -
  from vm1 small have s1: "stacks_ok (nat MaxStackSize) vm1" by (simp add: stacks_ok_def executed_def)
  with inv vm1 show "engine_inv env vm1" by (auto simp: engine_inv_def p2sh_inv_def executed_def)
  show "ended_inv env (vm1\<lparr>astack := dropAll (astack vm1), numOps := 0, scriptOff := 0\<rparr>)" if "condStack vm1 = []"
    using inv vm1 s1 that executed_stacks [OF vm1] dropAll_Nil [of "astack vm1"]
    by (auto simp: engine_inv_def p2sh_inv_def ended_inv_def stacks_ok_def good_def MaxOpsPerScript_def executed_def)
qed

text \<open>A step is an error, stays in its script, or goes on from the end of the script.\<close>

lemma Step_cases:
  assumes env: "digests_ok env" and inv: "engine_inv env vm"
  obtains (err) e where "Step env vm = Inl e" "e \<noteq> GoPanic"
  | (stay) vm1 where "validPC vm = Inr ()" "executed env vm vm1" "engine_inv env vm1" "Step env vm = Inr (False, vm1)"
      "scriptOff vm1 < length (scripts vm ! scriptIdx vm)"
  | (over) vm1 where "validPC vm = Inr ()" "executed env vm vm1" "ended_inv env (vm1\<lparr>astack := [], numOps := 0, scriptOff := 0\<rparr>)"
      "Step env vm = bindR (nextScript (vm1\<lparr>astack := [], numOps := 0, scriptOff := 0\<rparr>)) (\<lambda>vm.
         let vm = skipEmptyScript vm in Inr (scriptIdx vm \<ge> length (scripts vm), vm))"
proof (cases "validPC vm")
  case (Inl e)
  then show thesis using err by (auto simp: Step_def validPC_def split: if_splits)
next
  case (Inr u)
  from opcode_executed [OF env inv] Inr have "ensures (executed env vm)
    (executeOpcode env (scripts vm ! scriptIdx vm ! scriptOff vm) (vm\<lparr>scriptOff := Suc (scriptOff vm)\<rparr>))" by simp
  then show thesis
  proof (cases rule: ensures_cases)
    case (val vm1)
    note run = Step_def Inr val(1) Let_def executed_stacks [OF val(2)]
    note ex = val(2) executed_inv [OF inv val(2)]
    from ex(1) have c: "scripts vm1 = scripts vm" "scriptIdx vm1 = scriptIdx vm" by (simp_all add: executed_def)
    show thesis
    proof (cases "int (length (dstack vm1) + length (astack vm1)) > MaxStackSize")
      case True
      then show thesis using err [of "ScriptErr ErrStackOverflow"] by (simp add: run scriptError_def)
    next
      case small: False
      show thesis
      proof (cases "scriptOff vm1 \<ge> length (scripts vm1 ! scriptIdx vm1)")
        case False
        with ex small show thesis using stay [of vm1] Inr c by (simp add: run)
      next
        case True
        with ex small show thesis
          using err [of "ScriptErr ErrUnbalancedConditional"] over [of vm1] Inr dropAll_Nil executed_stacks [OF ex(1)]
          by (cases "condStack vm1 = []") (simp_all add: run scriptError_def)
      qed
    qed
  qed (use Inr err in \<open>simp add: Step_def\<close>)
qed

lemma Step_ok:
  assumes env: "digests_ok env" and inv: "engine_inv env vm"
  shows "ensures (\<lambda>(done, vm'). engine_inv env vm') (Step env vm)"
  using env inv
proof (cases rule: Step_cases)
  case (over vm1)
  from nextScript_ok [OF over(3)] over(4) show ?thesis
    by (auto simp: Let_def elim!: ensures_mono intro: skipEmptyScript_ok)
qed simp_all

section \<open>Whole executions\<close>

lemma executeLoop_ok: "\<lbrakk> digests_ok env; engine_inv env vm \<rbrakk> \<Longrightarrow> ensures (engine_inv env) (executeLoop env vm)"
proof (induction env vm rule: executeLoop.induct)
  case (1 env vm)
  from Step_ok [OF 1(2,3)] show ?case
  proof (cases rule: ensures_cases)
    case (val x)
    obtain b vm' where x: "x = (b, vm')" by fastforce
    with val 1(1) [OF val(1) x [symmetric]] 1(2) show ?thesis by (cases b) (simp_all add: executeLoop.simps [of env vm])
  qed (simp add: executeLoop.simps [of env vm])
qed

lemma parseScriptAndVerifySize_ok: "ensures (list_all parsed_pop) (parseScriptAndVerifySize s)"
  by (simp add: parseScriptAndVerifySize_def parseScript_or_fail_ok)

text \<open>What the caller of the engine provides: caches with valid signatures and hashes of the transaction.\<close>

definition caches_ok :: "('k, 's) sigLib \<Rightarrow> DomainTransaction \<Rightarrow> ('k, 's) SigCache option \<Rightarrow> ('k, 's) SigCacheECDSA option \<Rightarrow>
    SighashReusedValues \<Rightarrow> bool" where
  "caches_ok env tx c ce rv \<longleftrightarrow> pred_option (sigCache_ok (SchnorrVerify env)) c \<and>
     pred_option (sigCache_ok (ECDSAVerify env)) ce \<and> reuse_ok (lib_hashes env) tx rv"

text \<open>The UTXO entries of the inputs are known.\<close>

definition populated :: "DomainTransaction \<Rightarrow> bool" where
  "populated tx \<longleftrightarrow> list_all (\<lambda>i. in_UTXOEntry i \<noteq> None) (tx_Inputs tx)"

lemma NewEngine_ok:
  assumes "caches_ok env tx c ce rv" "populated tx"
  shows "ensures (\<lambda>vm. scriptVersion vm > MaxScriptPublicKeyVersion \<or> engine_inv env vm) (NewEngine spk tx idx fl c ce rv)"
proof -
  have inv: "engine_inv env \<lparr>scriptVersion = spk_Version spk, scripts = [a, b], scriptIdx = k, scriptOff = 0,
       dstack = [], astack = [], vm_tx = tx, txIdx = nat idx, condStack = [], numOps = 0,
       flags = fl, sigCache = c, sigCacheECDSA = ce, sigHashReusedValues = rv, isP2SH = isScriptHash b, savedFirstStack = []\<rparr>"
    if "list_all parsed_pop a" "list_all parsed_pop b" "0 \<le> idx" "idx < int (length (tx_Inputs tx))" for a b k
    using assms that
    by (auto simp: engine_inv_def good_def stacks_ok_def p2sh_inv_def caches_ok_def populated_def list_all_length
        MaxOpsPerScript_def MaxStackSize_def nat_less_iff)
  show ?thesis
  proof (cases "idx < 0 \<or> idx \<ge> int (length (tx_Inputs tx))")
    case False
    with inv show ?thesis
      by (auto simp: NewEngine_def Let_def intro!: ensures_mono [OF parseScriptAndVerifySize_ok])
  qed (simp add: NewEngine_def)
qed

text \<open>The states of an execution that has not ended, and the number of steps to reach them.\<close>

inductive reaches :: "('k, 's) sigLib \<Rightarrow> ('k, 's) Engine \<Rightarrow> nat \<Rightarrow> ('k, 's) Engine \<Rightarrow> bool" for env vm where
  start: "reaches env vm 0 vm"
| more: "\<lbrakk> reaches env vm n vm1; Step env vm1 = Inr (False, vm2) \<rbrakk> \<Longrightarrow> reaches env vm (Suc n) vm2"

lemma reaches_inv: "\<lbrakk> reaches env vm n vm'; digests_ok env; engine_inv env vm \<rbrakk> \<Longrightarrow> engine_inv env vm'"
proof (induction rule: reaches.induct)
  case (more n vm1 vm2)
  with Step_ok [OF more.prems(1), of vm1] show ?case by simp
qed simp

section \<open>The number of steps\<close>

text \<open>
  The opcodes that are left: those of the current and the later scripts and, before the end of
  the second script of a pay-to-script-hash spend, those that the redeem script can have.
\<close>

definition todo :: "('k, 's) Engine \<Rightarrow> nat" where
  "todo vm = (\<Sum>i = scriptIdx vm..<length (scripts vm). length (scripts vm ! i)) +
     (if isP2SH vm \<and> scriptIdx vm \<le> 1 then MaxScriptElementSize else 0) - scriptOff vm"

lemma parseLoop_length: "parseLoop s = (pops, e) \<Longrightarrow> length pops \<le> length s"
proof (induction s arbitrary: pops rule: parseLoop.induct)
  case (2 b rest)
  then show ?case
    using parseOne_shrinks [of b rest] by (fastforce split: sum.splits prod.splits)
qed simp

lemma sum_suffix_Suc: "i < n \<Longrightarrow> (\<Sum>j = i..<n. f j) = f i + (\<Sum>j = Suc i..<n. f j :: nat)"
  by (rule sum.atLeast_Suc_lessThan)

lemma nextScript_todo:
  assumes inv: "ended_inv env vm" and idx: "scriptIdx vm < length (scripts vm)" and nx: "nextScript vm = Inr vm'"
  shows "todo vm' + length (scripts vm ! scriptIdx vm) \<le> todo vm"
proof -
  let ?len = "\<lambda>i. length (scripts vm ! i)"
  have off: "scriptOff vm = 0" using inv by (simp add: ended_inv_def)
  note sum = sum_suffix_Suc [OF idx, of ?len]
  show ?thesis
  proof (cases "scriptIdx vm = 1 \<and> isP2SH vm")
    case False
    with nx have "scriptIdx vm' = Suc (scriptIdx vm)" "scripts vm' = scripts vm" "scriptOff vm' = 0" "isP2SH vm' = isP2SH vm"
      using off by (auto simp: nextScript_def split: if_splits)
    with sum off show ?thesis by (simp add: todo_def)
  next
    case True
    let ?saved = "savedFirstStack vm"
    from True nx obtain pops where p: "parseScript_or_fail (?saved ! (length ?saved - 1)) = Inr pops"
      and v: "scriptIdx vm' = 2" "scripts vm' = scripts vm @ [pops]" "scriptOff vm' = 0" "?saved \<noteq> []"
      using off by (auto simp: nextScript_def bindR_Inr_iff CheckErrorCondition_def SetStack_def Let_def split: if_splits)
    have "?saved ! (length ?saved - 1) \<in> set ?saved" using v(4) by (simp add: nth_mem)
    moreover have "elems_ok ?saved" using inv True by (simp add: ended_inv_def)
    ultimately have "length (?saved ! (length ?saved - 1)) \<le> MaxScriptElementSize" by (simp add: elems_ok_def)
    moreover have "length pops \<le> length (?saved ! (length ?saved - 1))"
      using p parseLoop_length by (auto simp: parseScript_or_fail_def parseScript_def split: prod.splits option.splits)
    moreover have "(\<Sum>i = 2..<Suc (length (scripts vm)). length ((scripts vm @ [pops]) ! i))
        = (\<Sum>i = 2..<length (scripts vm). ?len i) + length pops"
      using inv True by (simp add: ended_inv_def nth_append)
    ultimately show ?thesis using sum True v off by (simp add: todo_def numeral_2_eq_2)
  qed
qed

lemma skipEmptyScript_todo: "scriptOff vm = 0 \<Longrightarrow> todo (skipEmptyScript vm) \<le> todo vm"
  using sum_suffix_Suc [of "scriptIdx vm" "length (scripts vm)" "\<lambda>i. length (scripts vm ! i)"]
  by (auto simp: skipEmptyScript_def todo_def)

lemma Step_todo:
  assumes env: "digests_ok env" and inv: "engine_inv env vm" and step: "Step env vm = Inr (False, vm')"
  shows "todo vm' < todo vm"
proof -
  let ?len = "\<lambda>i. length (scripts vm ! i)"
  have pc: "scriptIdx vm < length (scripts vm)" "scriptOff vm < ?len (scriptIdx vm)"
    using step by (auto simp: Step_def validPC_def bindR_Inr_iff split: if_splits)
  note sum = sum_suffix_Suc [OF pc(1), of ?len]
  from env inv show ?thesis
  proof (cases rule: Step_cases)
    case (err e)
    with step show ?thesis by simp
  next
    case (stay vm1)
    with step pc sum show ?thesis by (auto simp: todo_def executed_def)
  next
    case (over vm1)
    let ?vm1 = "vm1\<lparr>astack := [], numOps := 0, scriptOff := 0\<rparr>"
    from trans [OF over(4) [symmetric] step] obtain vm2 where vm2: "nextScript ?vm1 = Inr vm2" "vm' = skipEmptyScript vm2"
      by (auto simp: bindR_Inr_iff Let_def)
    have "todo vm2 + ?len (scriptIdx vm) \<le> todo ?vm1" "todo vm' \<le> todo vm2"
      using nextScript_todo [OF over(3) _ vm2(1)] over(2) pc vm2(2) skipEmptyScript_todo [of vm2] nextScript_progress [OF vm2(1)]
      by (auto simp: executed_def)
    moreover have "todo ?vm1 = todo vm + scriptOff vm"
      using over(2) pc sum by (auto simp: todo_def executed_def)
    ultimately show ?thesis using pc by linarith
  qed
qed

lemma reaches_todo: "\<lbrakk> reaches env vm n vm'; digests_ok env; engine_inv env vm \<rbrakk> \<Longrightarrow> n + todo vm' \<le> todo vm"
proof (induction rule: reaches.induct)
  case (more n vm1 vm2)
  from Step_todo [OF more.prems(1) reaches_inv [OF more.hyps(1) more.prems] more.hyps(2)] more.IH [OF more.prems]
  show ?case by simp
qed simp

text \<open>At the start there are at most as many opcodes as the two scripts have bytes.\<close>

lemma NewEngine_todo:
  assumes "NewEngine spk tx idx fl c ce rv = Inr vm"
  shows "todo vm \<le> 2 * MaxScriptSize + MaxScriptElementSize"
proof -
  have len: "length pops \<le> MaxScriptSize" if "parseScriptAndVerifySize s = Inr pops" for s pops
    using that parseLoop_length [of s]
    by (fastforce simp: parseScriptAndVerifySize_def parseScript_or_fail_def parseScript_def split: if_splits prod.splits option.splits)
  from assms show ?thesis
    by (auto simp: NewEngine_def Let_def bindR_Inr_iff todo_def numeral_2_eq_2 split: if_splits dest!: len)
qed

lemma Step_tx: "returns (\<lambda>(d, vm'). vm_tx vm' = vm_tx vm) (Step env vm)"
proof (rule returnsI, clarify)
  fix d vm'
  assume step: "Step env vm = Inr (d, vm')"
  then obtain vm1 where ex: "executeOpcode env (scripts vm ! scriptIdx vm ! scriptOff vm) (vm\<lparr>scriptOff := scriptOff vm + 1\<rparr>) = Inr vm1"
    by (auto simp: Step_def bindR_Inr_iff)
  have nx: "vm_tx b = vm_tx a" if "nextScript a = Inr b" for a b :: "('a, 'b) Engine"
    using that by (auto simp: nextScript_def CheckErrorCondition_def SetStack_def bindR_Inr_iff Let_def split: if_splits)
  have "vm_tx vm1 = vm_tx vm" using framedD [OF framed_executeOpcode ex] by (auto dest: core_eqD)
  with step ex show "vm_tx vm' = vm_tx vm"
    by (auto simp: Step_def bindR_Inr_iff Let_def skipEmptyScript_def split: if_splits dest!: nx)
qed

lemma executeLoop_tx: "returns (\<lambda>vm'. vm_tx vm' = vm_tx vm) (executeLoop env vm)"
proof (induction env vm rule: executeLoop.induct)
  case (1 env vm)
  show ?case
  proof (cases "Step env vm")
    case (Inr x)
    obtain d vm' where x: "x = (d, vm')" by fastforce
    with Inr Step_tx [of vm env] 1 [OF Inr x [symmetric]] show ?thesis
      by (cases d) (simp_all add: executeLoop.simps [of env vm])
  qed (simp add: executeLoop.simps [of env vm])
qed

lemma NewEngine_start:
  assumes "caches_ok env tx c ce rv" "populated tx" "spk_Version spk \<le> MaxScriptPublicKeyVersion"
    and "NewEngine spk tx idx fl c ce rv = Inr vm"
  shows "engine_inv env vm \<and> vm_tx vm = tx \<and> scriptVersion vm \<le> MaxScriptPublicKeyVersion"
proof -
  from assms(4) have "scriptVersion vm = spk_Version spk" "vm_tx vm = tx \<or> spk_Version spk > MaxScriptPublicKeyVersion"
    by (auto simp: NewEngine_def Let_def bindR_Inr_iff split: if_splits)
  with NewEngine_ok [OF assms(1,2), of spk idx fl] assms(3,4) show ?thesis by auto
qed

lemma Execute_ok:
  assumes "digests_ok env" "engine_inv env vm"
  shows "ensures (\<lambda>vm'. good env vm' \<and> vm_tx vm' = vm_tx vm) (Execute env vm)"
proof (cases "scriptVersion vm > MaxScriptPublicKeyVersion")
  case False
  from executeLoop_ok [OF assms] show ?thesis
  proof (cases rule: ensures_cases)
    case (val vm1)
    then have "stacks_ok (nat MaxStackSize) vm1" by (simp add: engine_inv_def)
    from CheckErrorCondition_ok [OF this, of True]
    have "ensures (\<lambda>vm'. \<exists>d. vm' = vm1\<lparr>dstack := d\<rparr>) (CheckErrorCondition True vm1)"
      by (rule ensures_mono) (auto simp: MaxStackSize_def)
    moreover have "vm_tx vm1 = vm_tx vm" "good env vm1"
      using val returnsD [OF executeLoop_tx val(1)] by (simp_all add: engine_inv_def)
    ultimately show ?thesis using False val(1) by (auto simp: Execute_def elim!: ensures_mono)
  qed (use False in \<open>simp add: Execute_def\<close>)
qed (use assms in \<open>simp add: Execute_def engine_inv_def\<close>)

lemma engine_run_ok:
  assumes "digests_ok env" "caches_ok env tx c ce rv" "populated tx"
  shows "ensures (\<lambda>vm. spk_Version spk > MaxScriptPublicKeyVersion \<or> good env vm \<and> vm_tx vm = tx)
    (bindR (NewEngine spk tx idx fl c ce rv) (Execute env))"
  using NewEngine_ok [OF assms(2,3), of spk idx fl]
proof (cases rule: ensures_cases)
  case (val vm)
  have v: "scriptVersion vm = spk_Version spk"
    using val(1) by (auto simp: NewEngine_def Let_def bindR_Inr_iff split: if_splits)
  show ?thesis
  proof (cases "spk_Version spk > MaxScriptPublicKeyVersion")
    case False
    with NewEngine_start [OF assms(2,3) _ val(1)] have "engine_inv env vm" "vm_tx vm = tx" by simp_all
    with Execute_ok [OF assms(1), of vm] val(1) show ?thesis by (auto elim: ensures_mono)
  qed (use val v in \<open>simp add: Execute_def\<close>)
qed simp

section \<open>Properties\<close>

text \<open>
  C4: Script execution never panics: for any script public key, signature script, index and flags, and
  for whatever the signature library answers, \<^verbatim>\<open>NewEngine\<close> followed by \<^verbatim>\<open>Execute\<close> returns success or
  an error, provided that the UTXO entries are filled in, the digests have their documented size
  and the caches passed in are sound; the caches that it leaves are sound again.
\<close>

theorem script_execution_never_panics:
  assumes "digests_ok env" "caches_ok env tx c ce rv" "populated tx"
  shows "no_panic (bindR (NewEngine spk tx idx fl c ce rv) (Execute env)) \<and>
    (\<forall>vm. spk_Version spk \<le> MaxScriptPublicKeyVersion \<longrightarrow>
       bindR (NewEngine spk tx idx fl c ce rv) (Execute env) = Inr vm \<longrightarrow>
       caches_ok env tx (sigCache vm) (sigCacheECDSA vm) (sigHashReusedValues vm))"
proof -
  note run = engine_run_ok [OF assms, of spk idx fl]
  then have "no_panic (bindR (NewEngine spk tx idx fl c ce rv) (Execute env))" by (simp add: ensures_def)
  with run show ?thesis by (auto simp: ensures_def returns_def good_def caches_ok_def not_less [symmetric])
qed

text \<open>
  C12: Every state that an execution reaches keeps the limits of the consensus rules: together the two
  stacks have at most 244 elements, no element has more than 520 bytes and at most 201
  operations are counted per script.
\<close>

theorem script_execution_limits:
  assumes "digests_ok env" "caches_ok env tx c ce rv" "populated tx"
    and "spk_Version spk \<le> MaxScriptPublicKeyVersion"
    and "NewEngine spk tx idx fl c ce rv = Inr vm" "reaches env vm n vm'"
  shows "length (dstack vm') + length (astack vm') \<le> 244 \<and> (\<forall>x. x \<in> set (dstack vm') \<union> set (astack vm') \<longrightarrow> length x \<le> 520) \<and>
    numOps vm' \<le> 201"
proof -
  from NewEngine_start [OF assms(2-5)] have "engine_inv env vm" by simp
  from reaches_inv [OF assms(6,1) this] show ?thesis
    by (auto simp: engine_inv_def good_def stacks_ok_def elems_ok_def MaxStackSize_def MaxOpsPerScript_def MaxScriptElementSize_def)
qed

text \<open>
  C21: An execution ends: it makes at most 20520 steps, one for each byte of the two scripts of at most
  10000 bytes and of the redeem script, which is a stack element of at most 520 bytes.
\<close>

theorem script_execution_bounded:
  assumes "digests_ok env" "caches_ok env tx c ce rv" "populated tx"
    and "spk_Version spk \<le> MaxScriptPublicKeyVersion"
    and "NewEngine spk tx idx fl c ce rv = Inr vm" "reaches env vm n vm'"
  shows "n \<le> 20520"
proof -
  from NewEngine_start [OF assms(2-5)] have "engine_inv env vm" by simp
  from reaches_todo [OF assms(6,1) this] NewEngine_todo [OF assms(5)] show ?thesis
    by (simp add: MaxScriptSize_def MaxScriptElementSize_def)
qed

section \<open>Examples\<close>

text \<open>A signature library in which a valid signature is the key followed by the hash.\<close>

definition sample_env :: "(bytes, bytes) sigLib" where
  "sample_env = \<lparr>lib_hashes = sample_lib,
     DeserializeSchnorrPubKey = (\<lambda>k. if length k = 32 then Some k else None),
     DeserializeSchnorrSignatureFromSlice = (\<lambda>s. if length s = 64 then Some s else None),
     SchnorrVerify = (\<lambda>k h s. s = k @ h),
     DeserializeECDSAPubKey = (\<lambda>k. if length k = 33 then Some k else None),
     DeserializeECDSASignatureFromSlice = (\<lambda>s. if length s = 64 then Some s else None),
     ECDSAVerify = (\<lambda>k h s. s = take 32 k @ h),
     mapStart = (\<lambda>_. 0)\<rparr>"

text \<open>A transaction that spends one output with the given signature script.\<close>

definition spend_with :: "bytes \<Rightarrow> DomainTransaction" where
  "spend_with sigScript = (sample_spend [])\<lparr>tx_Inputs := [(tx_Inputs (sample_spend []) ! 0)\<lparr>in_SignatureScript := sigScript\<rparr>]\<rparr>"

lemma sample_env_ok: "digests_ok sample_env"
  by (simp add: digests_ok_def sample_env_def sample_lib_def min_def)

lemma spend_with_ok: "caches_ok env (spend_with s) None None noReusedValues" "populated (spend_with s)"
  by (simp_all add: caches_ok_def populated_def spend_with_def sample_spend_def)

text \<open>The engine for the signature script \<^verbatim>\<open>OP_1 OP_2\<close> and the script \<^verbatim>\<open>OP_ADD\<close>, at its start and after a step.\<close>

definition sample_start :: "(bytes, bytes) Engine outcome" where
  "sample_start = NewEngine \<lparr>spk_Script = [0x93], spk_Version = 0\<rparr> (spend_with [0x51, 0x52]) 0 0 None None noReusedValues"

lemma sample_run:
  "\<exists>vm vm'. sample_start = Inr vm \<and> Step sample_env vm = Inr (False, vm') \<and> dstack vm' = [[1]]"
proof -
  have "(case sample_start of Inl e \<Rightarrow> False
     | Inr vm \<Rightarrow> (case Step sample_env vm of Inr (False, vm') \<Rightarrow> dstack vm' = [[1]] | _ \<Rightarrow> False))"
    by code_simp
  then show ?thesis by (auto split: sum.splits bool.splits)
qed

theorem script_execution_never_panics_witness:
  "no_panic (bindR (NewEngine \<lparr>spk_Script = [0x93], spk_Version = 0\<rparr> (spend_with [0x51, 0x52]) 0 0 None None noReusedValues)
     (Execute sample_env))"
  using script_execution_never_panics [OF sample_env_ok spend_with_ok] by blast

theorem script_execution_limits_witness:
  "\<exists>vm vm'. sample_start = Inr vm \<and> reaches sample_env vm 1 vm' \<and> dstack vm' = [[1]] \<and>
     length (dstack vm') + length (astack vm') \<le> 244"
proof -
  obtain vm vm' where vm: "sample_start = Inr vm" "Step sample_env vm = Inr (False, vm')" "dstack vm' = [[1]]"
    using sample_run by blast
  have r: "reaches sample_env vm 1 vm'" using reaches.more [OF reaches.start vm(2)] by simp
  from script_execution_limits [OF sample_env_ok spend_with_ok _ vm(1) [unfolded sample_start_def] r]
  have "length (dstack vm') + length (astack vm') \<le> 244" by (simp add: MaxScriptPublicKeyVersion_def)
  with vm r show ?thesis by blast
qed

theorem script_execution_bounded_witness:
  "\<exists>vm vm'. sample_start = Inr vm \<and> reaches sample_env vm 1 vm' \<and> (1 :: nat) \<le> 20520"
proof -
  obtain vm vm' where vm: "sample_start = Inr vm" "Step sample_env vm = Inr (False, vm')"
    using sample_run by blast
  have r: "reaches sample_env vm 1 vm'" using reaches.more [OF reaches.start vm(2)] by simp
  from script_execution_bounded [OF sample_env_ok spend_with_ok _ vm(1) [unfolded sample_start_def] r] vm r
  show ?thesis by (intro exI conjI) (simp_all add: MaxScriptPublicKeyVersion_def)
qed

end
