(* ===== verification/ScriptSpends.thy ===== *)
theory ScriptSpends
  imports ScriptInvariant
begin

text \<open>
  Whole spends: what the standard scripts accept, from the construction of the engine to the
  final check, in terms of the signatures that are valid for the spending transaction.
\<close>

section \<open>Valid signatures\<close>

text \<open>
  A signature with its hash type in the last byte is valid for a key and an input: both parse
  and the library verifies the signature of the input's signature hash.
\<close>

definition schnorrValid :: "('k, 's) sigLib \<Rightarrow> DomainTransaction \<Rightarrow> nat \<Rightarrow> bytes \<Rightarrow> bytes \<Rightarrow> bool" where
  "schnorrValid env tx i pk raw \<longleftrightarrow> raw \<noteq> [] \<and>
     (\<exists>k s. DeserializeSchnorrPubKey env pk = Some k \<and>
        DeserializeSchnorrSignatureFromSlice env (butlast raw) = Some s \<and>
        SchnorrVerify env k (schnorrHash (lib_hashes env) tx i (last raw)) s)"

definition ecdsaValid :: "('k, 's) sigLib \<Rightarrow> DomainTransaction \<Rightarrow> nat \<Rightarrow> bytes \<Rightarrow> bytes \<Rightarrow> bool" where
  "ecdsaValid env tx i pk raw \<longleftrightarrow> raw \<noteq> [] \<and>
     (\<exists>k s. DeserializeECDSAPubKey env pk = Some k \<and>
        DeserializeECDSASignatureFromSlice env (butlast raw) = Some s \<and>
        ECDSAVerify env k (ecdsaHash (lib_hashes env) tx i (last raw)) s)"

lemma sig_matches_valid:
  "sig_scheme.sig_matches (schnorrScheme env) (schnorrHash (lib_hashes env)) = schnorrValid env"
  "sig_scheme.sig_matches (ecdsaScheme env) (ecdsaHash (lib_hashes env)) = ecdsaValid env"
  unfolding fun_eq_iff schnorr.sig_matches_def ecdsa.sig_matches_def schnorrValid_def ecdsaValid_def
  by (auto simp: schnorrScheme_def ecdsaScheme_def butlast_conv_take last_conv_nth split: option.splits)

section \<open>Parsing of the standard scripts\<close>

lemma parseLoop_Cons:
  "parseOne b rest = Inr (pop, rest') \<Longrightarrow> parseLoop (b # rest) = apfst ((#) pop) (parseLoop rest')"
  by (simp split: prod.split)

lemma parse_push:
  assumes "1 \<le> b" "b \<le> 75" "length d = unat b"
  shows "parseLoop (b # d @ r) = apfst ((#) \<lparr>pop_opcode = opcodeArray b, pop_data = Some d\<rparr>) (parseLoop r)"
proof -
  have "1 \<le> unat b" using assms(1) by (simp add: word_le_nat_alt)
  then have u: "1 \<le> length d" by (simp add: assms(3))
  have "b \<noteq> 0" using assms(1) by auto
  then have l: "op_length (opcodeArray b) = uint b + 1"
    using assms by (simp add: opcodeArray_length data_length_def)
  have i: "uint b = int (length d)" using assms(3) by simp
  have "parseOne b (d @ r) = Inr (\<lparr>pop_opcode = opcodeArray b, pop_data = Some d\<rparr>, r)"
    using u by (auto simp: parseOne_def l i Let_def nat_add_distrib)
  then show ?thesis by (rule parseLoop_Cons)
qed

lemma parse_op:
  "78 < b \<Longrightarrow> parseLoop (b # r) = apfst ((#) \<lparr>pop_opcode = opcodeArray b, pop_data = None\<rparr>) (parseLoop r)"
proof -
  assume "78 < b"
  then have "op_length (opcodeArray b) = 1"
    by (auto simp: opcodeArray_length data_length_def word_less_nat_alt word_le_nat_alt)
  then have "parseOne b r = Inr (\<lparr>pop_opcode = opcodeArray b, pop_data = None\<rparr>, r)" by (simp add: parseOne_def)
  then show ?thesis by (rule parseLoop_Cons)
qed

section \<open>Execution of single opcodes\<close>

lemma executeLoop_step: "Step env vm = Inr (False, vm') \<Longrightarrow> executeLoop env vm = executeLoop env vm'"
  by (simp add: executeLoop.simps [of env vm])

lemma op_func_push: "\<lbrakk> 1 \<le> b; b \<le> 75 \<rbrakk> \<Longrightarrow> op_func (opcodeArray b) = F_opcodePushData"
  by (rule opcodeArray_all [where P = "\<lambda>b op. 1 \<le> b \<longrightarrow> b \<le> 75 \<longrightarrow> op_func op = F_opcodePushData", rule_format]) code_simp

lemma execute_push:
  assumes "2 \<le> b" "b \<le> 75" "length d = unat b" "condStack vm = []"
  shows "executeOpcode env \<lparr>pop_opcode = opcodeArray b, pop_data = Some d\<rparr> vm = Inr (vm\<lparr>dstack := dstack vm @ [d]\<rparr>)"
proof -
  have u: "2 \<le> unat b" "unat b \<le> 75" using assms by (simp_all add: word_le_nat_alt)
  have v: "op_value (opcodeArray b) = b"
    using u by (auto simp: opcodeArray_value misnumbered_def word_le_nat_alt)
  have d: "\<not> isDisabled \<lparr>pop_opcode = opcodeArray b, pop_data = Some d\<rparr>" "\<not> alwaysIllegal \<lparr>pop_opcode = opcodeArray b, pop_data = Some d\<rparr>"
    using u v by (auto simp: isDisabled_def alwaysIllegal_def word_unat_eq_iff)
  have m: "checkMinimalDataPush \<lparr>pop_opcode = opcodeArray b, pop_data = Some d\<rparr> = Inr ()"
    using u assms(3) v by (auto simp: checkMinimalDataPush_def dataOf_def Let_def)
  have "1 \<le> b" using u by (simp add: word_le_nat_alt)
  with assms d m v op_func_push [of b] u show ?thesis
    by (simp add: executeOpcode_def isBranchExecuting_def dataOf_def MaxScriptElementSize_def opcodePushData_def
        onDstack_def PushByteArray_def word_less_nat_alt Let_def)
qed

lemma execute_signature_op:
  assumes "b = OpCheckSig \<or> b = OpCheckSigECDSA" "condStack vm = []" "numOps vm < 201"
  shows "executeOpcode env \<lparr>pop_opcode = opcodeArray b, pop_data = None\<rparr> vm =
    checkSig (if b = OpCheckSig then schnorrScheme env else ecdsaScheme env)
      \<lparr>pop_opcode = opcodeArray b, pop_data = None\<rparr> (vm\<lparr>numOps := numOps vm + 1\<rparr>)"
proof -
  have "op_func (opcodeArray OpCheckSig) = F_opcodeCheckSig" "op_func (opcodeArray OpCheckSigECDSA) = F_opcodeCheckSigECDSA"
    by code_simp+
  moreover have "op_value (opcodeArray b) = b"
    using assms(1) by (auto simp: opcodeArray_value misnumbered_def)
  moreover have "\<not> isDisabled \<lparr>pop_opcode = opcodeArray b, pop_data = None\<rparr>" "\<not> alwaysIllegal \<lparr>pop_opcode = opcodeArray b, pop_data = None\<rparr>"
    "b > Op16" "\<not> b \<le> OpPushData4"
    using assms(1) calculation(3) by (auto simp: isDisabled_def alwaysIllegal_def)
  ultimately show ?thesis
    using assms
    by (cases "b = OpCheckSig") (simp_all add: executeOpcode_def MaxOpsPerScript_def isBranchExecuting_def Let_def
        opcodeCheckSig_def opcodeCheckSigECDSA_def)
qed

section \<open>Pay to public key\<close>

text \<open>
  The engine for a signature script that pushes \<open>sig\<close> and a script that pushes \<open>pk\<close> and checks
  the signature, at the start (\<open>i = 0\<close>) and later.
\<close>

definition p2pk_vm ::
  "nat \<Rightarrow> nat \<Rightarrow> stack \<Rightarrow> int \<Rightarrow> bytes \<Rightarrow> bytes \<Rightarrow> byte \<Rightarrow> DomainTransaction \<Rightarrow> nat \<Rightarrow> uint32 \<Rightarrow>
     ('k, 's) SigCache option \<Rightarrow> ('k, 's) SigCacheECDSA option \<Rightarrow> SighashReusedValues \<Rightarrow> ('k, 's) Engine" where
  "p2pk_vm i off d n sig pk b tx idx fl c ce rv =
     \<lparr>scriptVersion = 0,
      scripts = [[\<lparr>pop_opcode = opcodeArray (word_of_nat (length sig)), pop_data = Some sig\<rparr>],
        [\<lparr>pop_opcode = opcodeArray (word_of_nat (length pk)), pop_data = Some pk\<rparr>, \<lparr>pop_opcode = opcodeArray b, pop_data = None\<rparr>]],
      scriptIdx = i, scriptOff = off, dstack = d, astack = [], vm_tx = tx, txIdx = idx, condStack = [], numOps = n,
      flags = fl, sigCache = c, sigCacheECDSA = ce, sigHashReusedValues = rv, isP2SH = False, savedFirstStack = []\<rparr>"

lemma p2pk_vm_simps [simp]:
  "dstack (p2pk_vm i off d n sig pk b tx idx fl c ce rv) = d" "vm_tx (p2pk_vm i off d n sig pk b tx idx fl c ce rv) = tx"
  "txIdx (p2pk_vm i off d n sig pk b tx idx fl c ce rv) = idx" "astack (p2pk_vm i off d n sig pk b tx idx fl c ce rv) = []"
  "condStack (p2pk_vm i off d n sig pk b tx idx fl c ce rv) = []" "scriptVersion (p2pk_vm i off d n sig pk b tx idx fl c ce rv) = 0"
  by (simp_all add: p2pk_vm_def)

lemma p2pk_NewEngine:
  assumes sig: "length sig = 65" and pk: "length pk = 32 \<or> length pk = 33" and b: "b = OpCheckSig \<or> b = OpCheckSigECDSA"
    and idx: "idx < length (tx_Inputs tx)" "in_SignatureScript (tx_Inputs tx ! idx) = 65 # sig"
  shows "NewEngine \<lparr>spk_Script = word_of_nat (length pk) # pk @ [b], spk_Version = 0\<rparr> tx (int idx) fl c ce rv =
    Inr (p2pk_vm 0 0 [] 0 sig pk b tx idx fl c ce rv)"
proof -
  let ?p = "word_of_nat (length pk) :: byte"
  have p: "1 \<le> ?p" "?p \<le> 75" "length pk = unat ?p" using pk by auto
  have "78 < b" using b by auto
  then have pk': "parseLoop (?p # pk @ [b]) =
      ([\<lparr>pop_opcode = opcodeArray ?p, pop_data = Some pk\<rparr>, \<lparr>pop_opcode = opcodeArray b, pop_data = None\<rparr>], None)"
    using parse_push [OF p, of "[b]"] parse_op [of b "[]"] by simp
  have sig': "parseLoop (65 # sig) = ([\<lparr>pop_opcode = opcodeArray 65, pop_data = Some sig\<rparr>], None)"
    using parse_push [of 65 sig "[]"] sig by simp
  have "length (?p # pk @ [b]) \<le> MaxScriptSize" "length (65 # sig) \<le> MaxScriptSize"
    using pk sig by (auto simp: MaxScriptSize_def)
  moreover have "op_value (opcodeArray 65) = 65" by (simp add: opcodeArray_value misnumbered_def)
  ultimately show ?thesis
    using idx sig pk' sig'
    by (simp add: NewEngine_def parseScriptAndVerifySize_def parseScript_or_fail_def parseScript_def isPushOnly_def
        isScriptHash_def MaxScriptPublicKeyVersion_def p2pk_vm_def Let_def del: parseLoop.simps)
qed

lemma p2pk_steps:
  assumes sig: "length sig = 65" and pk: "length pk = 32 \<or> length pk = 33"
  shows "Step env (p2pk_vm 0 0 [] 0 sig pk b tx idx fl c ce rv) = Inr (False, p2pk_vm 1 0 [sig] 0 sig pk b tx idx fl c ce rv)"
    "Step env (p2pk_vm 1 0 [sig] 0 sig pk b tx idx fl c ce rv) = Inr (False, p2pk_vm 1 1 [sig, pk] 0 sig pk b tx idx fl c ce rv)"
proof -
  have s: "executeOpcode env \<lparr>pop_opcode = opcodeArray (word_of_nat (length sig)), pop_data = Some sig\<rparr> (p2pk_vm 0 1 [] 0 sig pk b tx idx fl c ce rv)
      = Inr (p2pk_vm 0 1 [sig] 0 sig pk b tx idx fl c ce rv)"
    by (subst execute_push) (use sig in \<open>simp_all add: p2pk_vm_def\<close>)
  have p: "executeOpcode env \<lparr>pop_opcode = opcodeArray (word_of_nat (length pk)), pop_data = Some pk\<rparr> (p2pk_vm 1 1 [sig] 0 sig pk b tx idx fl c ce rv)
      = Inr (p2pk_vm 1 1 [sig, pk] 0 sig pk b tx idx fl c ce rv)"
    by (subst execute_push) (use pk in \<open>auto simp: p2pk_vm_def\<close>)
  have d: "dropAll [] = []" by (rule dropAll_Nil) (simp add: fit_def)
  show "Step env (p2pk_vm 0 0 [] 0 sig pk b tx idx fl c ce rv) = Inr (False, p2pk_vm 1 0 [sig] 0 sig pk b tx idx fl c ce rv)"
    using s d by (simp add: Step_def validPC_def p2pk_vm_def Depth_def MaxStackSize_def nextScript_def skipEmptyScript_def Let_def)
  show "Step env (p2pk_vm 1 0 [sig] 0 sig pk b tx idx fl c ce rv) = Inr (False, p2pk_vm 1 1 [sig, pk] 0 sig pk b tx idx fl c ce rv)"
    using p by (simp add: Step_def validPC_def p2pk_vm_def Depth_def MaxStackSize_def Let_def)
qed

text \<open>The last step, after which one element is left, and the final check of that element.\<close>

lemma p2pk_last:
  assumes r: "executeOpcode env \<lparr>pop_opcode = opcodeArray b, pop_data = None\<rparr> (p2pk_vm 1 2 [sig, pk] 0 sig pk b tx idx fl c ce rv) = r"
    and f: "\<And>vm'. r = Inr vm' \<Longrightarrow> core vm' = core (p2pk_vm 1 2 [sig, pk] 0 sig pk b tx idx fl c ce rv) \<and>
      astack vm' = [] \<and> condStack vm' = [] \<and> dstack vm' = PushBool [] v"
  shows "(\<exists>vm'. Execute env (p2pk_vm 1 1 [sig, pk] 0 sig pk b tx idx fl c ce rv) = Inr vm') \<longleftrightarrow> (\<exists>vm'. r = Inr vm') \<and> v"
proof (cases r)
  case (Inl e)
  with r show ?thesis
    by (simp add: Execute_def executeLoop.simps Step_def validPC_def p2pk_vm_def Let_def MaxScriptPublicKeyVersion_def numeral_2_eq_2)
next
  case (Inr vm')
  from f [OF Inr] have c: "scripts vm' = scripts (p2pk_vm 1 2 [sig, pk] 0 sig pk b tx idx fl c ce rv)" "scriptIdx vm' = 1"
    "scriptOff vm' = 2" "isP2SH vm' = False" "astack vm' = []" "condStack vm' = []" "dstack vm' = PushBool [] v"
    by (auto simp: core_def p2pk_vm_def)
  have d: "dropAll [] = []" by (rule dropAll_Nil) (simp add: fit_def)
  have step: "Step env (p2pk_vm 1 1 [sig, pk] 0 sig pk b tx idx fl c ce rv) = Inr (True, vm'\<lparr>astack := [], numOps := 0, scriptOff := 0, scriptIdx := 2\<rparr>)"
    using r Inr c d
    by (simp add: Step_def validPC_def p2pk_vm_def Depth_def MaxStackSize_def nextScript_def skipEmptyScript_def Let_def
        PushBool_def PushByteArray_def numeral_2_eq_2)
  have "PopBool (PushBool [] v) = Inr (v, [])"
    by (cases v) (simp_all add: PopBool_def PushBool_def PushByteArray_def fromBool_def asBool_def PopByteArray_snoc [of "[]", simplified] small_stack_def)
  with step c Inr show ?thesis
    by (simp add: Execute_def executeLoop.simps p2pk_vm_def MaxScriptPublicKeyVersion_def CheckErrorCondition_def Depth_def PushBool_def PushByteArray_def)
qed

lemma p2pk_good:
  assumes "caches_ok env tx c ce rv" "populated tx" "idx < length (tx_Inputs tx)"
  shows "good env (p2pk_vm 1 2 [sig, pk] 1 sig pk b tx idx fl c ce rv)"
  using assms by (auto simp: good_def p2pk_vm_def caches_ok_def populated_def list_all_length MaxOpsPerScript_def)

context sig_scheme
begin

lemma checkSig_pair:
  assumes g: "good env vm" and d: "dstack vm = [raw, pk]"
    and raw: "length raw = 65" "IsStandardSigHashType (last raw)" and pk: "sch_checkPubKey sch pk = Inr ()"
  obtains vm' where "core vm' = core vm" "astack vm' = astack vm" "condStack vm' = condStack vm"
    "if sig_matches (vm_tx vm) (txIdx vm) pk raw then checkSig sch pop vm = Inr (vm'\<lparr>dstack := PushBool [] True\<rparr>)
     else checkSig sch pop vm \<in> {Inr (vm'\<lparr>dstack := PushBool [] False\<rparr>), scriptError ErrNullFail}"
proof -
  have s: "dstack vm = [] @ [raw, pk]" "small_stack (dstack vm)" using d by (simp_all add: small_stack_def)
  have "last raw = raw ! 64" using raw(1) by (cases raw rule: rev_cases) (auto simp: nth_append)
  then have "IsStandardSigHashType (raw ! 64)" using raw(2) by simp
  from checkSig_eq [OF g s raw(1) this pk, of pop] obtain vm' where "only_caches vm vm'"
    "checkSig sch pop vm =
       (if sig_matches (vm_tx vm) (txIdx vm) pk raw then Inr (vm'\<lparr>dstack := PushBool [] True\<rparr>)
        else if sch_parseKey sch pk = None \<or> sch_parseSig sch (take 64 raw) = None then Inr (vm'\<lparr>dstack := PushBool [] False\<rparr>)
        else scriptError ErrNullFail)" by blast
  then show thesis by (intro that [of vm']) (simp_all add: only_caches_def)
qed

end

lemma p2pk_spend:
  assumes ok: "caches_ok env tx c ce rv" "populated tx" "idx < length (tx_Inputs tx)"
    and sig: "length sig = 65" "in_SignatureScript (tx_Inputs tx ! idx) = 65 # sig"
    and b: "b = OpCheckSig \<and> length pk = 32 \<and> valid = schnorrValid env tx idx pk sig \<or>
      b = OpCheckSigECDSA \<and> length pk = 33 \<and> valid = ecdsaValid env tx idx pk sig"
  shows "(\<exists>vm. bindR (NewEngine \<lparr>spk_Script = word_of_nat (length pk) # pk @ [b], spk_Version = 0\<rparr> tx (int idx) fl c ce rv)
     (Execute env) = Inr vm) \<longleftrightarrow> IsStandardSigHashType (last sig) \<and> valid"
proof -
  define sch where "sch = (if b = OpCheckSig then schnorrScheme env else ecdsaScheme env)"
  let ?V = "\<lambda>i off d n. p2pk_vm i off d n sig pk b tx idx fl c ce rv" and ?pop = "\<lparr>pop_opcode = opcodeArray b, pop_data = None\<rparr>"
  have pk: "length pk = 32 \<or> length pk = 33" "b = OpCheckSig \<or> b = OpCheckSigECDSA" using b by auto
  have new: "NewEngine \<lparr>spk_Script = word_of_nat (length pk) # pk @ [b], spk_Version = 0\<rparr> tx (int idx) fl c ce rv = Inr (?V 0 0 [] 0)"
    by (rule p2pk_NewEngine) (use ok sig pk in auto)
  have loop: "Execute env (?V 0 0 [] 0) = Execute env (?V 1 1 [sig, pk] 0)"
    using p2pk_steps [OF sig(1) pk(1), of env b tx idx fl c ce rv, THEN executeLoop_step] by (simp add: Execute_def)
  have ex: "executeOpcode env ?pop (?V 1 2 [sig, pk] 0) = checkSig sch ?pop (?V 1 2 [sig, pk] 1)"
    unfolding sch_def by (subst execute_signature_op) (use pk in \<open>simp_all add: p2pk_vm_def\<close>)
  note vm = p2pk_good [OF ok, of sig pk b fl]
  have v: "dstack (?V 1 2 [sig, pk] 1) = [sig, pk]" by simp
  show ?thesis
  proof (cases "IsStandardSigHashType (last sig)")
    case False
    moreover have "sig ! 64 = last sig" using sig(1) by (cases sig rule: rev_cases) (auto simp: nth_append)
    ultimately have "checkSig sch ?pop (?V 1 2 [sig, pk] 1) = scriptError ErrInvalidSigHashType"
      using sig(1) PopByteArray_snoc [of "[sig]" pk] PopByteArray_snoc [of "[]" sig]
      by (auto simp: checkSig_def small_stack_def)
    with new loop ex False p2pk_last [OF ex, of False] show ?thesis by simp
  next
    case std: True
    obtain vm' where vm': "core vm' = core (?V 1 2 [sig, pk] 1)" "astack vm' = []" "condStack vm' = []"
      "(if valid then checkSig sch ?pop (?V 1 2 [sig, pk] 1) = Inr (vm'\<lparr>dstack := PushBool [] True\<rparr>)
        else checkSig sch ?pop (?V 1 2 [sig, pk] 1) \<in> {Inr (vm'\<lparr>dstack := PushBool [] False\<rparr>), scriptError ErrNullFail})"
    proof (cases "b = OpCheckSig")
      case True
      with b have k: "sch_checkPubKey (schnorrScheme env) pk = Inr ()" and val: "valid = schnorrValid env tx idx pk sig"
        by (auto simp: schnorrScheme_def checkPubKeyEncoding_def)
      have e: "sch = schnorrScheme env" using True by (simp add: sch_def)
      show thesis
        by (rule schnorr.checkSig_pair [OF vm v sig(1) std k, of ?pop], rule that) (simp_all add: sig_matches_valid val e split: if_splits)
    next
      case False
      with b have k: "sch_checkPubKey (ecdsaScheme env) pk = Inr ()" and val: "valid = ecdsaValid env tx idx pk sig"
        by (auto simp: ecdsaScheme_def checkPubKeyEncodingECDSA_def)
      have e: "sch = ecdsaScheme env" using False by (simp add: sch_def)
      show thesis
        by (rule ecdsa.checkSig_pair [OF vm v sig(1) std k, of ?pop], rule that) (simp_all add: sig_matches_valid val e split: if_splits)
    qed
    with new loop ex std p2pk_last [OF ex, of valid] show ?thesis
      by (auto simp: p2pk_vm_def core_def split: if_splits)
  qed
qed

section \<open>Lock times\<close>

lemma lockTimeOperand_eq:
  "lockTimeOperand b = (if length b > 8 then scriptError ErrNumberTooBig else Inr (word_of_nat (getLE b)))"
  by (auto simp: lockTimeOperand_def getLE_append)

lemma uint_lockTime: "length b \<le> 8 \<Longrightarrow> uint (word_of_nat (getLE b) :: uint64) = int (getLE b)"
proof -
  assume "length b \<le> 8"
  then have "(256 :: nat) ^ length b \<le> 256 ^ 8" by (intro power_increasing) auto
  then have "getLE b < 2 ^ 64" using getLE_bound [of b] by simp
  then have "unat (word_of_nat (getLE b) :: uint64) = getLE b" by (simp add: unat_of_nat)
  then show ?thesis by (metis uint_nat)
qed

lemma sequence_disabled: "(x :: uint64) AND SequenceLockTimeDisabled \<noteq> 0 \<longleftrightarrow> uint x \<ge> 2 ^ 63"
proof -
  have "uint x < 2 ^ 64" "0 \<le> uint x" using uint_bounded [of x] by simp_all
  then have "uint x div 2 ^ 63 = (if uint x \<ge> 2 ^ 63 then 1 else 0)"
    using int_div_pos_eq [of "uint x" "2 ^ 63" 1 "uint x - 2 ^ 63"] by auto
  then have "odd (uint x div 2 ^ 63) \<longleftrightarrow> uint x \<ge> 2 ^ 63" by simp
  moreover have "bit x 63 \<longleftrightarrow> bit (uint x) 63" by (simp add: bit_uint_iff)
  ultimately show ?thesis
    unfolding SequenceLockTimeDisabled_def bit_iff_and_push_bit_not_eq_0 [symmetric] by (simp only: bit_iff_odd)
qed

lemma sequence_mask: "uint ((x :: uint64) AND SequenceLockTimeMask) = uint x mod 2 ^ 32"
proof -
  have "SequenceLockTimeMask = mask 32" by (simp add: SequenceLockTimeMask_def mask_eq_exp_minus_1)
  then have "x AND SequenceLockTimeMask = take_bit 32 x" by (simp add: take_bit_eq_mask)
  then have "uint (x AND SequenceLockTimeMask) = take_bit 32 (uint x)" by (simp only: unsigned_take_bit_eq)
  then show ?thesis by (simp only: take_bit_eq_mod)
qed

section \<open>Properties\<close>


text \<open>
  C8: \<^verbatim>\<open>OP_CHECKMULTISIG\<close> succeeds exactly when the signatures are valid for keys in the same order: with
  well-formed keys and signatures (each group with its first element on top), it pushes true if
  some subsequence of the keys matches the signatures one by one, and fails otherwise. Going
  through the keys once, and giving up as soon as too few are left, loses no match.
\<close>

theorem multisig_in_order:
  assumes "good env vm" "fit (dstack vm)" "dstack vm = s @ rev sigs @ [mb] @ rev keys @ [nb]"
    and "makeScriptNum nb 4 = Inr (int (length keys))" "length keys \<le> 20" "numOps vm + int (length keys) \<le> 201"
    and "makeScriptNum mb 4 = Inr (int (length sigs))" "length sigs \<le> length keys"
    and "\<forall>k \<in> set keys. length k = 32" "\<forall>raw \<in> set sigs. length raw = 65 \<and> IsStandardSigHashType (raw ! 64)"
  shows "if \<exists>ks. subseq ks keys \<and> list_all2 (schnorrValid env (vm_tx vm) (txIdx vm)) ks sigs
    then \<exists>vm'. opcodeCheckMultiSig env pop vm = Inr vm' \<and> dstack vm' = s @ [[1]] \<and> core vm' = core vm
    else opcodeCheckMultiSig env pop vm = scriptError ErrNullFail"
proof -
  have keys: "\<forall>k \<in> set keys. sch_checkPubKey (schnorrScheme env) k = Inr ()"
    using assms(9) by (simp add: schnorrScheme_def checkPubKeyEncoding_def)
  show ?thesis
    by (rule schnorr.checkMultiSig_result [OF assms(1-8) keys assms(10), of pop])
      (simp add: opcodeCheckMultiSig_def sig_matches_valid schnorr.only_caches_def PushBool_def PushByteArray_def fromBool_def)
qed

text \<open>
  C35: \<^verbatim>\<open>OP_CHECKLOCKTIMEVERIFY\<close> passes exactly when the operand has at most 8 bytes, both lock times
  are on the same side of the threshold between block scores and times, the operand is not later
  than the lock time of the transaction and the input is not final; it consumes its operand.
\<close>

theorem check_lock_time:
  assumes "small_stack (dstack vm)" "dstack vm = s @ [b]" "txIdx vm < length (tx_Inputs (vm_tx vm))"
  shows "opcodeCheckLockTimeVerify pop vm = Inr vm' \<longleftrightarrow> vm' = vm\<lparr>dstack := s\<rparr> \<and>
    length b \<le> 8 \<and> int (getLE b) \<le> uint (tx_LockTime (vm_tx vm)) \<and>
    (int (getLE b) < 500000000000 \<longleftrightarrow> uint (tx_LockTime (vm_tx vm)) < 500000000000) \<and>
    in_Sequence (tx_Inputs (vm_tx vm) ! txIdx vm) \<noteq> 2 ^ 64 - 1"
proof -
  have p: "PopByteArray (dstack vm) = Inr (b, s)" using assms(1,2) by simp
  have i: "currentSequence vm = Inr (in_Sequence (tx_Inputs (vm_tx vm) ! txIdx vm))"
    using assms(3) by (simp add: currentSequence_def)
  show ?thesis
    using uint_lockTime [of b]
    by (auto simp: opcodeCheckLockTimeVerify_def p i lockTimeOperand_eq verifyLockTimeWithThreshold_def
        verifyLockTimeThreshold_def verifyLockTime_def LockTimeThreshold_def MaxTxInSequenceNum_def word_less_def word_le_def)
qed


section \<open>Examples\<close>

text \<open>A spend signed by the key of 32 nines: with the sample library, the key followed by the hash.\<close>

definition sample_sig :: bytes where
  "sample_sig = replicate 32 9 @ schnorrHash sample_lib (spend_with []) 0 SigHashAll @ [SigHashAll]"

lemma sample_sig_valid:
  "length sample_sig = 65" "last sample_sig = SigHashAll"
  "schnorrValid sample_env (spend_with s) 0 (replicate 32 9) sample_sig"
proof -
  have h: "schnorrHash sample_lib (spend_with s) 0 SigHashAll = schnorrHash sample_lib (spend_with []) 0 SigHashAll"
    by (simp add: schnorrHash_def CalculateSignatureHashSchnorr_def spend_with_def sample_spend_def Let_def
        calculateSignatureHash_def getPreviousOutputsHash_def getSequencesHash_def getSigOpCountsHash_def
        getOutputsHash_def getPayloadHash_def noReusedValues_def hashOutpoint_def
        cong: if_cong del: WriteElement.simps)
  have l: "length (schnorrHash sample_lib (spend_with []) 0 SigHashAll) = 32" by code_simp
  then show "length sample_sig = 65" "last sample_sig = SigHashAll" by (simp_all add: sample_sig_def)
  have e: "lib_hashes sample_env = sample_lib" by (simp add: sample_env_def)
  show "schnorrValid sample_env (spend_with s) 0 (replicate 32 9) sample_sig"
    unfolding schnorrValid_def e using l h by (simp add: sample_sig_def sample_env_def butlast_append)
qed


text \<open>An engine for input 0 of a transaction, with the given data stack.\<close>

definition sample_vm :: "DomainTransaction \<Rightarrow> stack \<Rightarrow> (bytes, bytes) Engine" where
  "sample_vm tx d = \<lparr>scriptVersion = 0, scripts = [], scriptIdx = 0, scriptOff = 0, dstack = d, astack = [], vm_tx = tx,
     txIdx = 0, condStack = [], numOps = 0, flags = 0, sigCache = None, sigCacheECDSA = None,
     sigHashReusedValues = noReusedValues, isP2SH = False, savedFirstStack = []\<rparr>"

lemma sample_vm_simps [simp]:
  "dstack (sample_vm tx d) = d" "vm_tx (sample_vm tx d) = tx" "txIdx (sample_vm tx d) = 0" "numOps (sample_vm tx d) = 0"
  by (simp_all add: sample_vm_def)

theorem multisig_in_order_witness:
  "\<exists>vm'. opcodeCheckMultiSig sample_env \<lparr>pop_opcode = opcodeArray OpCheckMultiSig, pop_data = None\<rparr> (sample_vm (spend_with [])
       [sample_sig, [1], replicate 32 9, replicate 32 8, [2]]) = Inr vm' \<and> dstack vm' = [[1]]"
proof -
  let ?d = "[sample_sig, [1], replicate 32 9, replicate 32 8, [2]]" and ?keys = "[replicate 32 8, replicate 32 9] :: bytes list"
  have g: "good sample_env (sample_vm (spend_with []) ?d)"
    by (simp add: good_def sample_vm_def spend_with_def sample_spend_def MaxOpsPerScript_def)
  have d: "fit (dstack (sample_vm (spend_with []) ?d))" "dstack (sample_vm (spend_with []) ?d) = [] @ rev [sample_sig] @ [[1]] @ rev ?keys @ [[2]]"
    using sample_sig_valid(1) by (simp_all add: fit_def MaxScriptElementSize_def)
  have n: "makeScriptNum [2] 4 = Inr (int (length ?keys))" "makeScriptNum [1] 4 = Inr (int (length [sample_sig]))" by code_simp+
  have s: "\<forall>raw \<in> set [sample_sig]. length raw = 65 \<and> IsStandardSigHashType (raw ! 64)"
  proof -
    have "sample_sig \<noteq> []" using sample_sig_valid(1) by auto
    with sample_sig_valid(1,2) have "sample_sig ! 64 = SigHashAll" by (simp add: last_conv_nth)
    moreover have "IsStandardSigHashType SigHashAll" by code_simp
    ultimately show ?thesis using sample_sig_valid(1) by simp
  qed
  have "\<exists>ks. subseq ks ?keys \<and> list_all2 (schnorrValid sample_env (vm_tx (sample_vm (spend_with []) ?d))
      (txIdx (sample_vm (spend_with []) ?d))) ks [sample_sig]"
    using sample_sig_valid(3) by (intro exI [of _ "[replicate 32 9]"]) simp
  with multisig_in_order [OF g d n(1) _ _ n(2) _ _ s, of "\<lparr>pop_opcode = opcodeArray OpCheckMultiSig, pop_data = None\<rparr>"] show ?thesis by auto
qed

theorem check_lock_time_witness:
  "opcodeCheckLockTimeVerify \<lparr>pop_opcode = opcodeArray OpCheckLockTimeVerify, pop_data = None\<rparr> (sample_vm ((spend_with [])\<lparr>tx_LockTime := 7\<rparr>) [[1], [5]]) =
     Inr (sample_vm ((spend_with [])\<lparr>tx_LockTime := 7\<rparr>) [[1]])"
proof -
  let ?vm = "sample_vm ((spend_with [])\<lparr>tx_LockTime := 7\<rparr>) [[1], [5]]"
  have a: "small_stack (dstack ?vm)" "dstack ?vm = [[1]] @ [[5]]" "txIdx ?vm < length (tx_Inputs (vm_tx ?vm))"
    by (simp_all add: small_stack_def spend_with_def)
  show ?thesis
    by (subst check_lock_time [OF a]) (simp add: sample_vm_def spend_with_def sample_spend_def)
qed


end
