(* ===== verification/DomainHash.thy ===== *)
theory DomainHash
  imports C4ex_Prelude "HOL-Library.List_Lexorder"
begin

text \<open>
  Block hashes (\<^verbatim>\<open>domain/consensus/model/externalapi/hash.go\<close>): a hash is its 32 bytes, and hashes are
  compared as \<^verbatim>\<open>bytes.Compare\<close> compares byte slices, which is the lexicographic order of lists. Also
  the data that the GHOSTDAG and relation stores keep for a block (\<^verbatim>\<open>externalapi/ghostdag.go\<close>,
  \<^verbatim>\<open>model/blockrelations.go\<close>) and the hashes that mark virtual blocks.
\<close>

type_synonym DomainHash = bytes

definition Less_hash :: "DomainHash \<Rightarrow> DomainHash \<Rightarrow> bool" where
  "Less_hash hash other \<longleftrightarrow> hash < other"

definition LessOrEqual_hash :: "DomainHash \<Rightarrow> DomainHash \<Rightarrow> bool" where
  "LessOrEqual_hash hash other \<longleftrightarrow> hash \<le> other"

type_synonym KType = byte

text \<open>The map of anticone sizes is an association list; the selected parent of genesis is nil.\<close>

record BlockGHOSTDAGData =
  gd_blueScore :: uint64
  gd_blueWork :: int
  gd_selectedParent :: "DomainHash option"
  gd_mergeSetBlues :: "DomainHash list"
  gd_mergeSetReds :: "DomainHash list"
  gd_bluesAnticoneSizes :: "(DomainHash \<times> KType) list"

record BlockRelations =
  rel_Parents :: "DomainHash list"
  rel_Children :: "DomainHash list"

definition VirtualBlockHash :: DomainHash where "VirtualBlockHash = replicate 32 0xff"
definition VirtualGenesisBlockHash :: DomainHash where "VirtualGenesisBlockHash = replicate 32 0xfe"

end
