(* ===== verification/BigInt.thy ===== *)
theory BigInt
  imports C4ex_Prelude
begin

text \<open>
  What the program uses of \<^verbatim>\<open>math/big\<close>: a \<^verbatim>\<open>big.Int\<close> is an \<^typ>\<open>int\<close>, \<^verbatim>\<open>Bytes\<close> its absolute value as
  big-endian bytes without leading zeros, and \<^verbatim>\<open>Div\<close> the Euclidean division.
\<close>

section \<open>Division\<close>

definition bigDiv :: "int \<Rightarrow> int \<Rightarrow> int" where
  "bigDiv x y = (if y > 0 then x div y else - (x div (- y)))"

section \<open>Bytes\<close>

text \<open>The number of bytes \<^verbatim>\<open>big.Int.Bytes\<close> returns.\<close>

fun byteLen :: "nat \<Rightarrow> nat" where
  "byteLen n = (if n = 0 then 0 else Suc (byteLen (n div 256)))"

declare byteLen.simps [simp del]

definition bigBytes :: "int \<Rightarrow> bytes" where
  "bigBytes n = rev (putLE (byteLen (nat \<bar>n\<bar>)) (nat \<bar>n\<bar>))"

lemma byteLen_bound: "n < 256 ^ byteLen n"
proof (induction n rule: byteLen.induct)
  case (1 n)
  show ?case
  proof (cases "n = 0")
    case False
    then have "n div 256 < 256 ^ byteLen (n div 256)" using 1 by simp
    then have "n < 256 * 256 ^ byteLen (n div 256)" by (simp add: div_less_iff_less_mult mult.commute)
    then show ?thesis using False by (simp add: byteLen.simps [of n])
  qed (simp add: byteLen.simps)
qed

lemma byteLen_least: "0 < n \<Longrightarrow> 256 ^ (byteLen n - 1) \<le> n"
proof (induction n rule: byteLen.induct)
  case (1 n)
  show ?case
  proof (cases "n < 256")
    case True
    then show ?thesis using 1 by (simp add: byteLen.simps [of n] byteLen.simps [of 0])
  next
    case False
    then have l: "256 ^ (byteLen (n div 256) - 1) \<le> n div 256" "byteLen (n div 256) \<noteq> 0"
      using 1 by (simp_all add: div_greater_zero_iff byteLen.simps [of "n div 256"])
    then have "256 * 256 ^ (byteLen (n div 256) - 1) \<le> 256 * (n div 256)" by simp
    also have "256 * 256 ^ (byteLen (n div 256) - 1) = (256 :: nat) ^ byteLen (n div 256)"
      using l(2) by (metis Suc_diff_1 not_gr0 power_Suc)
    also have "256 * (n div 256) \<le> n" by simp
    finally show ?thesis using False by (simp add: byteLen.simps [of n])
  qed
qed

lemma byteLen_unique: "\<lbrakk> 256 ^ k \<le> n; n < 256 ^ Suc k \<rbrakk> \<Longrightarrow> byteLen n = Suc k"
proof -
  assume k: "256 ^ k \<le> n" "n < 256 ^ Suc k"
  then have n: "0 < n" by (metis gr0I not_le power_not_zero zero_neq_numeral)
  have "256 ^ k < (256 :: nat) ^ byteLen n" using k(1) byteLen_bound [of n] by linarith
  then have "k < byteLen n" by simp
  moreover have "256 ^ (byteLen n - 1) < (256 :: nat) ^ Suc k" using k(2) byteLen_least [OF n] by linarith
  then have "byteLen n - 1 < Suc k" by (meson nat_power_less_imp_less zero_less_numeral)
  ultimately show ?thesis by linarith
qed

lemma bigBytes_inj: "\<lbrakk> 0 \<le> m; 0 \<le> n; bigBytes m = bigBytes n \<rbrakk> \<Longrightarrow> m = n"
proof -
  assume *: "0 \<le> m" "0 \<le> n" "bigBytes m = bigBytes n"
  then have e: "putLE (byteLen (nat m)) (nat m) = putLE (byteLen (nat n)) (nat n)" by (simp add: bigBytes_def)
  then have "byteLen (nat m) = byteLen (nat n)" by (metis length_putLE)
  with e have "nat m = nat n" using putLE_inj byteLen_bound by metis
  with * show ?thesis by simp
qed

section \<open>Shifts of words\<close>

lemma uint_drop_bit: "uint (drop_bit k (w :: 'a::len word)) = int (unat w div 2 ^ k)"
proof -
  have "take_bit LENGTH('a) (uint w) = uint w"
    using unsigned_less [of w, where ?'a = int] by (simp add: take_bit_int_eq_self del: unsigned_less)
  then show ?thesis by (subst unsigned_drop_bit_eq) (simp add: drop_bit_eq_div zdiv_int)
qed

lemma unat_drop_bit: "unat (drop_bit k (w :: 'a::len word)) = unat w div 2 ^ k"
  using uint_drop_bit [of k w] by (metis nat_int unat_eq_nat_uint)

end
