(* ===== verification/BlockHeader.thy ===== *)
theory BlockHeader
  imports Transaction DomainHash BigInt
begin

text \<open>
  Blocks and block headers (\<^verbatim>\<open>domain/consensus/utils/blockheader\<close>, \<^verbatim>\<open>externalapi/block.go\<close>) and the
  hash of a header (\<^verbatim>\<open>consensushashing/block.go\<close>). The header's parents are listed by block level.
\<close>

section \<open>Headers\<close>

record BlockHeader =
  header_Version :: uint16
  header_Parents :: "DomainHash list list"
  header_HashMerkleRoot :: DomainHash
  header_AcceptedIDMerkleRoot :: DomainHash
  header_UTXOCommitment :: DomainHash
  header_TimeInMilliseconds :: int
  header_Bits :: uint32
  header_Nonce :: uint64
  header_DAAScore :: uint64
  header_BlueScore :: uint64
  header_BlueWork :: int
  header_PruningPoint :: DomainHash

record DomainBlock =
  block_Header :: BlockHeader
  block_Transactions :: "DomainTransaction list"

definition DirectParents :: "BlockHeader \<Rightarrow> DomainHash list" where
  "DirectParents bh = (case header_Parents bh of [] \<Rightarrow> [] | p # _ \<Rightarrow> p)"

definition header_Equal :: "BlockHeader \<Rightarrow> BlockHeader \<Rightarrow> bool" where
  "header_Equal bh other \<longleftrightarrow>
     header_Version bh = header_Version other \<and>
     header_Parents bh = header_Parents other \<and>
     header_HashMerkleRoot bh = header_HashMerkleRoot other \<and>
     header_AcceptedIDMerkleRoot bh = header_AcceptedIDMerkleRoot other \<and>
     header_UTXOCommitment bh = header_UTXOCommitment other \<and>
     header_TimeInMilliseconds bh = header_TimeInMilliseconds other \<and>
     header_Bits bh = header_Bits other \<and>
     header_Nonce bh = header_Nonce other \<and>
     header_DAAScore bh = header_DAAScore other \<and>
     header_BlueScore bh = header_BlueScore other \<and>
     header_BlueWork bh = header_BlueWork other \<and>
     header_PruningPoint bh = header_PruningPoint other"

section \<open>The hash of a header\<close>

definition serializeLevel :: "DomainHash list \<Rightarrow> bytes" where
  "serializeLevel blockLevelParents =
     WriteElements [EUint64 (word_of_nat (length blockLevelParents))] @
     concat (map (\<lambda>hash. WriteElement (EDomainHash hash)) blockLevelParents)"

definition serializeHeader :: "BlockHeader \<Rightarrow> bytes" where
  "serializeHeader header =
     WriteElements [EUint16 (header_Version header), EUint64 (word_of_nat (length (header_Parents header)))] @
     concat (map serializeLevel (header_Parents header)) @
     WriteElements [EDomainHash (header_HashMerkleRoot header), EDomainHash (header_AcceptedIDMerkleRoot header),
       EDomainHash (header_UTXOCommitment header), EInt64 (header_TimeInMilliseconds header),
       EUint32 (header_Bits header), EUint64 (header_Nonce header), EUint64 (header_DAAScore header),
       EUint64 (header_BlueScore header), EBytes (bigBytes (header_BlueWork header)), EDomainHash (header_PruningPoint header)]"

definition blockHashWriter :: "hashLib \<Rightarrow> bytes \<Rightarrow> bytes" where
  "blockHashWriter lib = blake2b_New256 lib (strBytes ''BlockHash'')"

definition HeaderHash :: "hashLib \<Rightarrow> BlockHeader \<Rightarrow> DomainHash" where
  "HeaderHash lib header = blockHashWriter lib (serializeHeader header)"

definition BlockHash :: "hashLib \<Rightarrow> DomainBlock \<Rightarrow> DomainHash" where
  "BlockHash lib block = HeaderHash lib (block_Header block)"

section \<open>The encoding determines the header\<close>

text \<open>What the Go types of the fields guarantee, and that the blue work is not negative.\<close>

definition wf_hash :: "DomainHash \<Rightarrow> bool" where
  "wf_hash h \<longleftrightarrow> length h = DomainHashSize"

definition wf_level :: "DomainHash list \<Rightarrow> bool" where
  "wf_level ps \<longleftrightarrow> fits ps \<and> list_all wf_hash ps"

definition wf_header :: "BlockHeader \<Rightarrow> bool" where
  "wf_header h \<longleftrightarrow> fits (header_Parents h) \<and> list_all wf_level (header_Parents h) \<and>
     wf_hash (header_HashMerkleRoot h) \<and> wf_hash (header_AcceptedIDMerkleRoot h) \<and> wf_hash (header_UTXOCommitment h) \<and>
     wf_hash (header_PruningPoint h) \<and> - (2 ^ 63) \<le> header_TimeInMilliseconds h \<and> header_TimeInMilliseconds h < 2 ^ 63 \<and>
     0 \<le> header_BlueWork h \<and> fits (bigBytes (header_BlueWork h))"

lemma delimits_hash: "delimits (\<lambda>hash. WriteElement (EDomainHash hash)) wf_hash (\<lambda>h. h)"
  by (rule delimitsI) (auto simp: wf_hash_def append_eq_append_conv)

lemma delimits_serializeLevel: "delimits serializeLevel wf_level (\<lambda>ps. ps)"
proof (rule delimitsI)
  fix x y r s
  assume wf: "wf_level x" "wf_level y" and eq: "serializeLevel x @ r = serializeLevel y @ s"
  from eq have l: "(word_of_nat (length x) :: uint64) = word_of_nat (length y)"
    and c: "concat (map (\<lambda>hash. WriteElement (EDomainHash hash)) x) @ r = concat (map (\<lambda>hash. WriteElement (EDomainHash hash)) y) @ s"
    by (simp_all add: serializeLevel_def)
  from wf l have "length x = length y" by (auto simp: wf_level_def intro: word_of_length_eq)
  from delimits_concat [OF delimits_hash _ _ this c] wf show "x = y \<and> r = s" by (simp add: wf_level_def)
qed

lemma word_of_int64_inj:
  "\<lbrakk> - (2 ^ 63) \<le> x; x < 2 ^ 63; - (2 ^ 63) \<le> y; y < 2 ^ 63; (word_of_int x :: uint64) = word_of_int y \<rbrakk> \<Longrightarrow> x = y"
  by (metis sint_word_of_int(3))

lemma wf_hash_append: "\<lbrakk> wf_hash x; wf_hash y \<rbrakk> \<Longrightarrow> x @ r = y @ s \<longleftrightarrow> x = y \<and> r = s"
  by (simp add: wf_hash_def append_eq_append_conv)

lemma serializeHeader_inj:
  assumes wf: "wf_header h" "wf_header h'" and eq: "serializeHeader h = serializeHeader h'"
  shows "h = h'"
proof -
  let ?rest = "\<lambda>h. header_HashMerkleRoot h @ header_AcceptedIDMerkleRoot h @ header_UTXOCommitment h @
    PutUint64 (word_of_int (header_TimeInMilliseconds h)) @ PutUint32 (header_Bits h) @ PutUint64 (header_Nonce h) @
    PutUint64 (header_DAAScore h) @ PutUint64 (header_BlueScore h) @ writeVarBytes (bigBytes (header_BlueWork h)) @ header_PruningPoint h"
  from eq have v: "header_Version h = header_Version h'"
    and l: "(word_of_nat (length (header_Parents h)) :: uint64) = word_of_nat (length (header_Parents h'))"
    and c: "concat (map serializeLevel (header_Parents h)) @ ?rest h = concat (map serializeLevel (header_Parents h')) @ ?rest h'"
    by (simp_all add: serializeHeader_def writeVarBytes_def)
  from wf l have "length (header_Parents h) = length (header_Parents h')"
    by (auto simp: wf_header_def intro: word_of_length_eq)
  from delimits_concat [OF delimits_serializeLevel _ _ this c] wf
  have p: "header_Parents h = header_Parents h'" and r: "?rest h = ?rest h'" by (simp_all add: wf_header_def)
  from r wf have "header_HashMerkleRoot h = header_HashMerkleRoot h' \<and> header_AcceptedIDMerkleRoot h = header_AcceptedIDMerkleRoot h' \<and>
    header_UTXOCommitment h = header_UTXOCommitment h' \<and>
    (word_of_int (header_TimeInMilliseconds h) :: uint64) = word_of_int (header_TimeInMilliseconds h') \<and> header_Bits h = header_Bits h' \<and>
    header_Nonce h = header_Nonce h' \<and> header_DAAScore h = header_DAAScore h' \<and> header_BlueScore h = header_BlueScore h' \<and>
    bigBytes (header_BlueWork h) = bigBytes (header_BlueWork h') \<and> header_PruningPoint h = header_PruningPoint h'"
    by (simp only: wf_header_def wf_hash_append PutUint_append writeVarBytes_append)
  then show ?thesis
    using v p wf word_of_int64_inj bigBytes_inj by (auto simp: wf_header_def intro!: BlockHeader.equality)
qed

lemma header_Equal_iff: "header_Equal h h' \<longleftrightarrow> h = h'"
  by (auto simp: header_Equal_def intro: BlockHeader.equality)

section \<open>Properties\<close>

definition plain_header :: "uint64 \<Rightarrow> BlockHeader" where
  "plain_header nonce = \<lparr>header_Version = 1, header_Parents = [[replicate 32 7]], header_HashMerkleRoot = replicate 32 1,
     header_AcceptedIDMerkleRoot = replicate 32 2, header_UTXOCommitment = replicate 32 3, header_TimeInMilliseconds = - 5,
     header_Bits = 0x207fffff, header_Nonce = nonce, header_DAAScore = 9, header_BlueScore = 8, header_BlueWork = 1000,
     header_PruningPoint = replicate 32 4\<rparr>"

lemma wf_plain_header: "wf_header (plain_header n)"
  by (simp add: wf_header_def plain_header_def fits_def wf_level_def wf_hash_def DomainHashSize_def bigBytes_def byteLen.simps)



end
