(* ===== verification/Difficulty.thy ===== *)
theory Difficulty
  imports BlockHeader "HOL-Library.Product_Lexorder" "HOL-Library.Multiset"
begin

text \<open>
  Difficulty targets (\<^verbatim>\<open>util/difficulty\<close>) and the difficulty manager
  (\<^verbatim>\<open>domain/consensus/processes/difficultymanager\<close>): the compact form of a target, the work of a
  block, the required difficulty of a window of blocks and the DAA score. A \<^verbatim>\<open>big.Int\<close> is an
  \<^typ>\<open>int\<close>.
\<close>

section \<open>Compact targets\<close>

definition CompactToBig :: "uint32 \<Rightarrow> int" where
  "CompactToBig compact =
     (let mantissa = compact AND 0x007fffff;
          isNegative = (compact AND 0x00800000 \<noteq> 0);
          exponent = unat (drop_bit 24 compact);
          destination = (if exponent \<le> 3 then uint (drop_bit (8 * (3 - exponent)) mantissa)
                         else push_bit (8 * (exponent - 3)) (uint mantissa))
      in if isNegative then - destination else destination)"

text \<open>
  \<^verbatim>\<open>n.Bits()[0]\<close> is the least significant word of the absolute value; \<^verbatim>\<open>Rsh\<close> rounds down.
\<close>

definition BigToCompact :: "int \<Rightarrow> uint32" where
  "BigToCompact n =
     (if n = 0 then 0
      else let exponent = byteLen (nat \<bar>n\<bar>);
               mantissa = (if exponent \<le> 3 then push_bit (8 * (3 - exponent)) (word_of_int \<bar>n\<bar> :: uint32)
                           else word_of_int \<bar>drop_bit (8 * (exponent - 3)) n\<bar>);
               (mantissa, exponent) = (if mantissa AND 0x00800000 \<noteq> 0 then (drop_bit 8 mantissa, exponent + 1)
                                       else (mantissa, exponent));
               compact = push_bit 24 (word_of_nat exponent) OR mantissa
           in if n < 0 then compact OR 0x00800000 else compact)"

definition oneLsh256 :: int where "oneLsh256 = 2 ^ 256"

definition CalcWork :: "uint32 \<Rightarrow> int" where
  "CalcWork bits =
     (let difficultyNum = CompactToBig bits
      in if difficultyNum \<le> 0 then 0 else oneLsh256 div (difficultyNum + 1))"

section \<open>The difficulty manager\<close>

record difficultyBlock =
  db_timeInMilliseconds :: int
  db_Bits :: uint32
  db_hash :: DomainHash
  db_blueWork :: int

type_synonym blockWindow = "difficultyBlock list"

text \<open>
  The configuration of the manager and the stores it reads; \<open>BlockWindow\<close> is the method of the
  traversal manager. The target time is in milliseconds.
\<close>

record difficultyManager =
  dm_genesisHash :: DomainHash
  dm_powMax :: int
  dm_difficultyAdjustmentWindowSize :: int
  dm_disableDifficultyAdjustment :: bool
  dm_targetTimePerBlock :: int
  dm_genesisBits :: uint32
  dm_headerStore :: "DomainHash \<Rightarrow> BlockHeader outcome"
  dm_BlockWindow :: "DomainHash \<Rightarrow> int \<Rightarrow> DomainHash list outcome"

definition getDifficultyBlock :: "difficultyManager \<Rightarrow> DomainHash \<Rightarrow> difficultyBlock outcome" where
  "getDifficultyBlock dm blockHash =
     bindR (dm_headerStore dm blockHash) (\<lambda>header.
       Inr \<lparr>db_timeInMilliseconds = header_TimeInMilliseconds header, db_Bits = header_Bits header,
            db_hash = blockHash, db_blueWork = header_BlueWork header\<rparr>)"

fun getDifficultyBlocks :: "difficultyManager \<Rightarrow> DomainHash list \<Rightarrow> blockWindow outcome" where
  "getDifficultyBlocks dm [] = Inr []"
| "getDifficultyBlocks dm (hash # windowHashes) =
     bindR (getDifficultyBlock dm hash) (\<lambda>block.
       bindR (getDifficultyBlocks dm windowHashes) (\<lambda>window. Inr (block # window)))"

definition blockWindow :: "difficultyManager \<Rightarrow> DomainHash \<Rightarrow> int \<Rightarrow> (blockWindow \<times> DomainHash list) outcome" where
  "blockWindow dm startingNode windowSize =
     bindR (dm_BlockWindow dm startingNode windowSize) (\<lambda>windowHashes.
       bindR (getDifficultyBlocks dm windowHashes) (\<lambda>window. Inr (window, windowHashes)))"

definition ghostdagLess :: "difficultyBlock \<Rightarrow> difficultyBlock \<Rightarrow> bool" where
  "ghostdagLess blockA blockB \<longleftrightarrow>
     (if db_blueWork blockA < db_blueWork blockB then True
      else if db_blueWork blockA > db_blueWork blockB then False
      else Less_hash (db_hash blockA) (db_hash blockB))"

text \<open>The loop of \<^verbatim>\<open>minMaxTimestamps\<close> from index \<open>i\<close> on.\<close>

fun minMaxLoop :: "blockWindow \<Rightarrow> nat \<Rightarrow> difficultyBlock list \<Rightarrow> int \<Rightarrow> int \<Rightarrow> nat \<Rightarrow> int \<times> int \<times> nat" where
  "minMaxLoop window i [] minT maxT minIndex = (minT, maxT, minIndex)"
| "minMaxLoop window i (block # blocks) minT maxT minIndex =
     (let less = (db_timeInMilliseconds block < minT \<or>
                  (db_timeInMilliseconds block = minT \<and> ghostdagLess block (window ! minIndex)))
      in minMaxLoop window (Suc i) blocks
           (if less then db_timeInMilliseconds block else minT)
           (if db_timeInMilliseconds block > maxT then db_timeInMilliseconds block else maxT)
           (if less then i else minIndex))"

definition MaxInt64 :: int where "MaxInt64 = 2 ^ 63 - 1"

definition minMaxTimestamps :: "blockWindow \<Rightarrow> int \<times> int \<times> nat" where
  "minMaxTimestamps window = minMaxLoop window 0 window MaxInt64 0 0"

text \<open>The block at the index is replaced by the last one, and the window is shortened.\<close>

definition window_remove :: "blockWindow \<Rightarrow> nat \<Rightarrow> blockWindow" where
  "window_remove window n = butlast (window[n := last window])"

definition averageTarget :: "blockWindow \<Rightarrow> int outcome" where
  "averageTarget window =
     (if window = [] then Inl GoPanic
      else Inr (bigDiv (foldl (\<lambda>averageTarget block. averageTarget + CompactToBig (db_Bits block)) 0 window) (int (length window))))"

definition requiredDifficultyFromTargetsWindow :: "difficultyManager \<Rightarrow> blockWindow \<Rightarrow> uint32 outcome" where
  "requiredDifficultyFromTargetsWindow dm targetsWindow =
     (if dm_disableDifficultyAdjustment dm then Inr (dm_genesisBits dm)
      else if length targetsWindow < 2 \<or> int (length targetsWindow) < dm_difficultyAdjustmentWindowSize dm
      then Inr (dm_genesisBits dm)
      else
        let (windowMinTimestamp, windowMaxTimeStamp, windowMinIndex) = minMaxTimestamps targetsWindow;
            targetsWindow = window_remove targetsWindow windowMinIndex
        in bindR (averageTarget targetsWindow) (\<lambda>newTarget.
             if dm_targetTimePerBlock dm = 0 then Inl GoPanic
             else
               let newTarget = newTarget * max (int64 (windowMaxTimeStamp - windowMinTimestamp)) 1;
                   newTarget = bigDiv newTarget (dm_targetTimePerBlock dm);
                   newTarget = bigDiv newTarget (int (length targetsWindow))
               in if newTarget > dm_powMax dm then Inr (BigToCompact (dm_powMax dm))
                  else Inr (BigToCompact newTarget)))"

definition RequiredDifficulty :: "difficultyManager \<Rightarrow> DomainHash \<Rightarrow> uint32 outcome" where
  "RequiredDifficulty dm blockHash =
     bindR (blockWindow dm blockHash (dm_difficultyAdjustmentWindowSize dm)) (\<lambda>(targetsWindow, _).
       requiredDifficultyFromTargetsWindow dm targetsWindow)"

section \<open>DAA scores\<close>

record daaBlocksStore =
  daa_DAAScore :: "DomainHash \<rightharpoonup> uint64"
  daa_DAAAddedBlocks :: "DomainHash \<rightharpoonup> DomainHash list"

text \<open>A store answers with the staged or stored value, or an error when there is none.\<close>

definition fromStore :: "('k \<rightharpoonup> 'v) \<Rightarrow> 'k \<Rightarrow> 'v outcome" where
  "fromStore st k = (case st k of None \<Rightarrow> Inl OtherErr | Some v \<Rightarrow> Inr v)"

text \<open>The loop over the window stops when every block of the merge set has been found.\<close>

fun daaAddedLoop :: "DomainHash list \<Rightarrow> DomainHash list \<Rightarrow> DomainHash list \<Rightarrow> DomainHash list" where
  "daaAddedLoop mergeSet daaAddedBlocks [] = daaAddedBlocks"
| "daaAddedLoop mergeSet daaAddedBlocks (hash # windowHashes) =
     (if hash \<in> set mergeSet
      then (if length (daaAddedBlocks @ [hash]) = length mergeSet then daaAddedBlocks @ [hash]
            else daaAddedLoop mergeSet (daaAddedBlocks @ [hash]) windowHashes)
      else daaAddedLoop mergeSet daaAddedBlocks windowHashes)"

definition calculateDaaScoreAndAddedBlocks ::
  "difficultyManager \<Rightarrow> (DomainHash \<rightharpoonup> BlockGHOSTDAGData) \<Rightarrow> daaBlocksStore \<Rightarrow> DomainHash \<Rightarrow> DomainHash list \<Rightarrow> bool \<Rightarrow>
   (uint64 \<times> DomainHash list) outcome" where
  "calculateDaaScoreAndAddedBlocks dm ghostdagStore daaStore blockHash windowHashes isBlockWithTrustedData =
     (if blockHash = dm_genesisHash dm
      then bindR (dm_headerStore dm (dm_genesisHash dm)) (\<lambda>genesisHeader. Inr (header_DAAScore genesisHeader, []))
      else bindR (fromStore ghostdagStore blockHash) (\<lambda>ghostdagData.
        let mergeSet = remdups (gd_mergeSetBlues ghostdagData @ gd_mergeSetReds ghostdagData);
            daaAddedBlocks = daaAddedLoop mergeSet [] windowHashes
        in if isBlockWithTrustedData
           then bindR (fromStore (daa_DAAScore daaStore) blockHash) (\<lambda>daaScore. Inr (daaScore, daaAddedBlocks))
           else case gd_selectedParent ghostdagData of
                  None \<Rightarrow> Inl GoPanic
                | Some selectedParent \<Rightarrow>
                    bindR (fromStore (daa_DAAScore daaStore) selectedParent) (\<lambda>selectedParentDAAScore.
                      Inr (selectedParentDAAScore + word_of_nat (length daaAddedBlocks), daaAddedBlocks))))"

definition stageDAAScoreAndAddedBlocks ::
  "difficultyManager \<Rightarrow> (DomainHash \<rightharpoonup> BlockGHOSTDAGData) \<Rightarrow> daaBlocksStore \<Rightarrow> DomainHash \<Rightarrow> DomainHash list \<Rightarrow> bool \<Rightarrow>
   daaBlocksStore outcome" where
  "stageDAAScoreAndAddedBlocks dm ghostdagStore daaStore blockHash windowHashes isBlockWithTrustedData =
     bindR (calculateDaaScoreAndAddedBlocks dm ghostdagStore daaStore blockHash windowHashes isBlockWithTrustedData)
       (\<lambda>(daaScore, addedBlocks).
          Inr (daaStore\<lparr>daa_DAAScore := (daa_DAAScore daaStore)(blockHash \<mapsto> daaScore),
                       daa_DAAAddedBlocks := (daa_DAAAddedBlocks daaStore)(blockHash \<mapsto> addedBlocks)\<rparr>))"

definition StageDAADataAndReturnRequiredDifficulty ::
  "difficultyManager \<Rightarrow> (DomainHash \<rightharpoonup> BlockGHOSTDAGData) \<Rightarrow> daaBlocksStore \<Rightarrow> DomainHash \<Rightarrow> bool \<Rightarrow>
   (uint32 \<times> daaBlocksStore) outcome" where
  "StageDAADataAndReturnRequiredDifficulty dm ghostdagStore daaStore blockHash isBlockWithTrustedData =
     bindR (blockWindow dm blockHash (dm_difficultyAdjustmentWindowSize dm)) (\<lambda>(targetsWindow, windowHashes).
       bindR (stageDAAScoreAndAddedBlocks dm ghostdagStore daaStore blockHash windowHashes isBlockWithTrustedData) (\<lambda>daaStore.
         bindR (requiredDifficultyFromTargetsWindow dm targetsWindow) (\<lambda>bits. Inr (bits, daaStore))))"

section \<open>The value of a compact target\<close>

text \<open>The compact form with exponent \<open>e\<close> and mantissa \<open>m\<close>, and the number it stands for.\<close>

definition compact_of :: "nat \<Rightarrow> nat \<Rightarrow> uint32" where
  "compact_of e m = word_of_nat (e * 2 ^ 24 + m)"

definition target_of :: "nat \<Rightarrow> nat \<Rightarrow> nat" where
  "target_of e m = (if e \<le> 3 then m div 256 ^ (3 - e) else m * 256 ^ (e - 3))"

lemma unat_compact_of: "\<lbrakk> e < 256; m < 2 ^ 24 \<rbrakk> \<Longrightarrow> unat (compact_of e m) = e * 2 ^ 24 + m"
  by (simp add: compact_of_def unsigned_of_nat take_bit_nat_eq_self del: of_nat_add of_nat_mult of_nat_power)

lemma CompactToBig_of:
  assumes "e < 256" "m < 2 ^ 23"
  shows "CompactToBig (compact_of e m) = int (target_of e m)"
proof -
  let ?c = "compact_of e m"
  have u: "unat ?c = e * 2 ^ 24 + m" using unat_compact_of [of e m] assms by simp
  have a: "e * 2 ^ 24 + m = m + (2 * e) * 2 ^ 23" by simp
  have "?c AND 0x007fffff = take_bit 23 ?c" by (simp add: take_bit_eq_mask mask_eq_exp_minus_1)
  moreover have "unat (take_bit 23 ?c) = m"
    using assms(2) by (subst unsigned_take_bit_eq) (simp only: u a take_bit_eq_mod mod_mult_self1 mod_less)
  ultimately have m: "unat (?c AND 0x007fffff) = m" by simp
  have e: "unat (drop_bit 24 ?c) = e" using assms(2) by (simp add: unat_drop_bit u)
  have "bit ?c 23 \<longleftrightarrow> odd ((e * 2 ^ 24 + m) div 2 ^ 23)"
    unfolding u [symmetric] bit_iff_odd [symmetric] by (simp add: bit_unsigned_iff)
  moreover have "even ((e * 2 ^ 24 + m) div 2 ^ 23)"
    unfolding a using assms(2) by (simp only: div_mult_self1 div_less) simp
  ultimately have s: "?c AND 0x00800000 = 0" using and_exp_eq_0_iff_not_bit [of ?c 23] by simp
  have "uint (drop_bit k (?c AND 0x007fffff)) = int (m div 2 ^ k)" for k by (simp only: uint_drop_bit m)
  moreover have "uint (?c AND 0x007fffff) = int m" using m by (metis of_nat_unat)
  ultimately show ?thesis
    using e s by (simp add: CompactToBig_def Let_def target_of_def push_bit_eq_mult power_mult)
qed

text \<open>The three leading bytes of a number.\<close>

definition leading :: "nat \<Rightarrow> nat" where
  "leading n = (let e = byteLen n in if e \<le> 3 then n * 256 ^ (3 - e) else n div 256 ^ (e - 3))"

lemma leading_bounds: "0 < n \<Longrightarrow> 2 ^ 16 \<le> leading n \<and> leading n < 2 ^ 24"
proof -
  assume n: "0 < n"
  define e where "e = byteLen n"
  have b: "n < 256 ^ e" "256 ^ (e - 1) \<le> n" "0 < e"
    using byteLen_bound [of n] byteLen_least [OF n] n by (simp_all add: e_def byteLen.simps [of n])
  show ?thesis
  proof (cases "e \<le> 3")
    case True
    then have "e = 1 \<or> e = 2 \<or> e = 3" using b by linarith
    then show ?thesis using b by (auto simp: leading_def e_def [symmetric])
  next
    case False
    define k where "k = e - 3"
    with False have "e = k + 3" "e - 1 = k + 2" by simp_all
    then have "(256 :: nat) ^ e = 256 ^ (e - 3) * 2 ^ 24" "(256 :: nat) ^ (e - 1) = 256 ^ (e - 3) * 2 ^ 16"
      by (simp_all add: power_add k_def [symmetric])
    then show ?thesis using b False
      by (simp add: leading_def e_def [symmetric] less_mult_imp_div_less mult.commute less_eq_div_iff_mult_less_eq)
  qed
qed

lemma pack_compact: "m < 2 ^ 24 \<Longrightarrow> push_bit 24 (word_of_nat e) OR (word_of_nat m :: uint32) = compact_of e m"
proof -
  assume m: "m < 2 ^ 24"
  have "\<not> bit m i" if "24 \<le> i" for i
  proof -
    have "m < 2 ^ i" using m power_increasing [OF that, of "2 :: nat"] by linarith
    then show ?thesis unfolding bit_iff_odd by simp
  qed
  then have "push_bit 24 (word_of_nat e) AND (word_of_nat m :: uint32) = 0"
    by (intro bit_eqI) (auto simp: bit_and_iff bit_push_bit_iff bit_of_nat_iff)
  from disjunctive_add_eq_or [OF this] show ?thesis
    by (simp add: compact_of_def push_bit_eq_mult)
qed

lemma BigToCompact_pos:
  assumes "0 < n"
  shows "BigToCompact (int n) =
    (if 2 ^ 23 \<le> leading n then compact_of (byteLen n + 1) (leading n div 256) else compact_of (byteLen n) (leading n))"
proof -
  let ?M = "leading n" and ?e = "byteLen n"
  note M = leading_bounds [OF assms]
  have w: "(if ?e \<le> 3 then push_bit (8 * (3 - ?e)) (word_of_int \<bar>int n\<bar> :: uint32)
      else word_of_int \<bar>drop_bit (8 * (?e - 3)) (int n)\<bar>) = word_of_nat ?M"
  proof (cases "?e \<le> 3")
    case False
    have "\<bar>int n div 256 ^ (?e - 3)\<bar> = int (n div 256 ^ (?e - 3))" by (simp add: zdiv_int pos_imp_zdiv_nonneg_iff)
    then show ?thesis using False by (simp add: leading_def Let_def drop_bit_eq_div power_mult)
  qed (simp add: leading_def Let_def push_bit_eq_mult power_mult)
  have b: "bit (word_of_nat ?M :: uint32) 23 \<longleftrightarrow> 2 ^ 23 \<le> ?M"
  proof -
    have "?M div 2 ^ 23 = (if 2 ^ 23 \<le> ?M then 1 else 0)" using M by (simp add: div_nat_eqI)
    then have "odd (?M div 2 ^ 23) \<longleftrightarrow> 2 ^ 23 \<le> ?M" by simp
    then show ?thesis by (simp add: bit_of_nat_iff bit_iff_odd [of ?M])
  qed
  have d: "drop_bit 8 (word_of_nat ?M :: uint32) = word_of_nat (?M div 256)"
  proof -
    have "?M div 256 < 2 ^ 32" using M by (intro le_less_trans [OF div_le_dividend]) simp
    then have "take_bit 32 (?M div 256) = ?M div 256" by (rule take_bit_nat_eq_self)
    then show ?thesis using M by (simp add: word_unat_eq_iff unat_drop_bit unsigned_of_nat take_bit_nat_eq_self)
  qed
  have M': "?M div 256 < 2 ^ 24" using M by (intro le_less_trans [OF div_le_dividend]) simp
  have "(word_of_nat ?M :: uint32) AND 0x00800000 \<noteq> 0 \<longleftrightarrow> 2 ^ 23 \<le> ?M"
    using and_exp_eq_0_iff_not_bit [of "word_of_nat ?M :: uint32" 23] b by simp
  then show ?thesis
    using assms M pack_compact [of ?M ?e] pack_compact [OF M', of "?e + 1"]
    by (simp add: BigToCompact_def w d Let_def)
qed

text \<open>The compact form keeps all but the last \<open>dropped n\<close> bytes.\<close>

definition dropped :: "nat \<Rightarrow> nat" where
  "dropped n = (if 2 ^ 23 \<le> leading n then byteLen n - 2 else byteLen n - 3)"

definition rounded :: "nat \<Rightarrow> nat" where
  "rounded n = n div 256 ^ dropped n * 256 ^ dropped n"

lemma CompactToBig_BigToCompact:
  assumes "0 < n" "byteLen n \<le> 254"
  shows "CompactToBig (BigToCompact (int n)) = int (rounded n)"
proof -
  let ?e = "byteLen n" and ?M = "leading n"
  have e: "0 < ?e" using assms by (simp add: byteLen.simps [of n])
  note M = leading_bounds [OF assms(1)]
  consider "?e = 1" | "?e = 2" | "?e = 3" | k where "?e = k + 4"
  proof -
    have "?e = 1 \<or> ?e = 2 \<or> ?e = 3 \<or> (\<exists>k. ?e = k + 4)" using e by presburger
    then show thesis using that by blast
  qed
  then have "target_of ?e ?M = n div 256 ^ (?e - 3) * 256 ^ (?e - 3) \<and>
      target_of (?e + 1) (?M div 256) = n div 256 ^ (?e - 2) * 256 ^ (?e - 2)"
    by cases (simp_all add: target_of_def leading_def div_mult2_eq power_add mult.commute flip: div_mult2_eq)
  then show ?thesis
    using assms M by (simp add: BigToCompact_pos CompactToBig_of rounded_def dropped_def less_mult_imp_div_less)
qed

lemma dropped_bounds:
  assumes "0 < n"
  shows "dropped n < byteLen n" "dropped n = 0 \<or> 2 ^ 15 * 256 ^ dropped n \<le> n"
proof -
  let ?e = "byteLen n"
  have e: "0 < ?e" using assms by (simp add: byteLen.simps [of n])
  note M = leading_bounds [OF assms]
  show "dropped n < ?e" using e by (simp add: dropped_def)
  consider "?e \<le> 2" | "?e = 3" | k where "?e = k + 4"
  proof -
    have "?e \<le> 2 \<or> ?e = 3 \<or> (\<exists>k. ?e = k + 4)" using e by presburger
    then show thesis using that by blast
  qed
  then show "dropped n = 0 \<or> 2 ^ 15 * 256 ^ dropped n \<le> n"
  proof cases
    case (3 k)
    then have "leading n * 256 ^ (k + 1) \<le> n" by (simp add: leading_def)
    moreover have "(if 2 ^ 23 \<le> leading n then 2 ^ 23 else 2 ^ 15) * 256 ^ (k + 1) \<le> leading n * 256 ^ (k + 1)"
      using M by (intro mult_le_mono1) simp
    moreover have "2 ^ 15 * 256 ^ dropped n = (if 2 ^ 23 \<le> leading n then 2 ^ 23 else 2 ^ 15) * (256 :: nat) ^ (k + 1)"
      using 3 by (simp add: dropped_def)
    ultimately show ?thesis by linarith
  qed (auto simp: dropped_def leading_def)
qed

lemma rounded_bounds:
  assumes "0 < n"
  shows "rounded n \<le> n" "2 ^ 15 * (n - rounded n) \<le> n" "byteLen (rounded n) = byteLen n" "0 < rounded n"
proof -
  let ?D = "256 ^ dropped n :: nat"
  have r: "rounded n = n - n mod ?D" by (simp add: rounded_def minus_mod_eq_div_mult)
  then show "rounded n \<le> n" by simp
  have "2 ^ 15 * (n mod ?D) \<le> 2 ^ 15 * ?D" by (intro mult_le_mono2) (simp add: less_imp_le)
  then show "2 ^ 15 * (n - rounded n) \<le> n"
    using dropped_bounds(2) [OF assms] unfolding r diff_diff_cancel [OF mod_less_eq_dividend]
    by (elim disjE) (simp, rule order_trans)
  have e: "0 < byteLen n" using assms by (simp add: byteLen.simps [of n])
  have "?D dvd 256 ^ (byteLen n - 1)" using dropped_bounds(1) [OF assms] by (intro le_imp_power_dvd) linarith
  then obtain c where c: "256 ^ (byteLen n - 1) = ?D * c" by (elim dvdE)
  then have "c \<le> n div ?D" using byteLen_least [OF assms] by (simp add: less_eq_div_iff_mult_less_eq mult.commute)
  then have l: "256 ^ (byteLen n - 1) \<le> rounded n" unfolding c rounded_def by (subst mult.commute) (rule mult_le_mono1)
  then show "0 < rounded n" by (metis gr0I not_le power_not_zero zero_neq_numeral zero_less_numeral)
  from l show "byteLen (rounded n) = byteLen n"
    using byteLen_unique [of "byteLen n - 1" "rounded n"] e byteLen_bound [of n] \<open>rounded n \<le> n\<close> by simp
qed

lemma leading_rounded:
  assumes "0 < n"
  shows "leading (rounded n) = (if 2 ^ 23 \<le> leading n \<and> 3 \<le> byteLen n then leading n div 256 * 256 else leading n)"
proof -
  let ?e = "byteLen n"
  consider "?e \<le> 2" | "?e = 3" | k where "?e = k + 4"
  proof -
    have "?e \<le> 2 \<or> ?e = 3 \<or> (\<exists>k. ?e = k + 4)" by presburger
    then show thesis using that by blast
  qed
  then show ?thesis
  proof cases
    case 1
    then have "rounded n = n" by (simp add: rounded_def dropped_def)
    then show ?thesis using 1 by simp
  next
    case 2
    then show ?thesis using rounded_bounds(3) [OF assms] by (simp add: leading_def rounded_def dropped_def)
  next
    case (3 k)
    have "leading n = n div 256 ^ (k + 1)" "leading (rounded n) = rounded n div 256 ^ (k + 1)"
      using 3 rounded_bounds(3) [OF assms] by (simp_all add: leading_def)
    moreover have "n div 256 ^ (k + 2) = n div 256 ^ (k + 1) div 256"
      using div_mult2_eq [of n "256 ^ (k + 1)" 256] by (simp add: mult.commute mult.assoc)
    moreover have "x * 256 ^ (k + 2) div 256 ^ (k + 1) = x * 256" "x * 256 ^ (k + 1) div 256 ^ (k + 1) = x" for x :: nat
      by simp_all
    ultimately show ?thesis using 3 by (simp only: rounded_def dropped_def split: if_split) simp
  qed
qed

lemma BigToCompact_rounded: "0 < n \<Longrightarrow> BigToCompact (int (rounded n)) = BigToCompact (int n)"
proof -
  assume n: "0 < n"
  have "2 ^ 23 \<le> x \<Longrightarrow> 2 ^ 23 \<le> x div 256 * 256" for x :: nat
    using div_le_mono [of "2 ^ 23" x 256] by simp
  then show ?thesis
    using n by (auto simp: BigToCompact_pos rounded_bounds(3,4) leading_rounded)
qed

section \<open>The oldest block of a window\<close>

text \<open>Blocks are compared by time, then as GHOSTDAG compares them.\<close>

definition block_key :: "difficultyBlock \<Rightarrow> int \<times> int \<times> DomainHash" where
  "block_key b = (db_timeInMilliseconds b, db_blueWork b, db_hash b)"

lemma block_key_less:
  "block_key a < block_key b \<longleftrightarrow> db_timeInMilliseconds a < db_timeInMilliseconds b \<or>
     (db_timeInMilliseconds a = db_timeInMilliseconds b \<and> ghostdagLess a b)"
  by (auto simp: block_key_def ghostdagLess_def Less_hash_def less_prod_def)

text \<open>What the loop has found when it has seen the first \<open>i\<close> blocks.\<close>

definition found :: "blockWindow \<Rightarrow> nat \<Rightarrow> int \<times> int \<times> nat \<Rightarrow> bool" where
  "found w i r \<longleftrightarrow> (case r of (minT, maxT, m) \<Rightarrow>
     m < length w \<and> minT = db_timeInMilliseconds (w ! m) \<and> (\<forall>b\<in>set (take i w). block_key (w ! m) \<le> block_key b) \<and>
     maxT = Max (insert 0 (db_timeInMilliseconds ` set (take i w))))"

lemma minMaxLoop_found:
  "\<lbrakk> found w i (minT, maxT, m); i \<le> length w \<rbrakk> \<Longrightarrow> found w (length w) (minMaxLoop w i (drop i w) minT maxT m)"
proof (induction "length w - i" arbitrary: i minT maxT m)
  case (Suc n)
  then have i: "i < length w" by linarith
  let ?b = "w ! i"
  let ?less = "db_timeInMilliseconds ?b < minT \<or> (db_timeInMilliseconds ?b = minT \<and> ghostdagLess ?b (w ! m))"
  have m: "m < length w" "minT = db_timeInMilliseconds (w ! m)" "\<forall>b\<in>set (take i w). block_key (w ! m) \<le> block_key b"
    "maxT = Max (insert 0 (db_timeInMilliseconds ` set (take i w)))"
    using Suc.prems(1) by (auto simp: found_def)
  have less: "?less \<longleftrightarrow> block_key ?b < block_key (w ! m)" by (simp add: block_key_less m(2))
  have t: "set (take (Suc i) w) = insert ?b (set (take i w))" using i by (simp add: take_Suc_conv_app_nth)
  have mx: "Max (insert 0 (insert x T)) = max x (Max (insert 0 T))" if "finite T" for x :: int and T
    unfolding insert_commute [of 0 x] using that by (subst Max_insert) auto
  have ifx: "(if x > y then x else y) = max x y" for x y :: int by simp
  have "found w (Suc i) (if ?less then db_timeInMilliseconds ?b else minT,
      if db_timeInMilliseconds ?b > maxT then db_timeInMilliseconds ?b else maxT, if ?less then i else m)"
    unfolding found_def less t ifx using i m mx by auto
  from Suc.hyps(1) [OF _ this] Suc.hyps(2) i show ?case
    by (simp add: Cons_nth_drop_Suc [OF i, symmetric] Let_def)
qed simp

lemma minMaxTimestamps_found:
  assumes "w \<noteq> []" "\<forall>b\<in>set w. db_timeInMilliseconds b \<le> MaxInt64"
  shows "found w (length w) (minMaxTimestamps w)"
proof -
  obtain b bs where w: "w = b # bs" using assms(1) by (cases w) auto
  have "\<not> ghostdagLess b b" by (simp add: ghostdagLess_def Less_hash_def)
  moreover have "\<not> db_timeInMilliseconds b < MaxInt64 \<Longrightarrow> db_timeInMilliseconds b = MaxInt64" using assms(2) by (simp add: w)
  ultimately have "minMaxTimestamps w =
      minMaxLoop w (Suc 0) (drop (Suc 0) w) (db_timeInMilliseconds b) (max 0 (db_timeInMilliseconds b)) 0"
    by (auto simp: minMaxTimestamps_def w Let_def max_def)
  then show ?thesis
    using minMaxLoop_found [of w "Suc 0" "db_timeInMilliseconds b" "max 0 (db_timeInMilliseconds b)" 0]
    by (simp add: w found_def max.commute)
qed

lemma window_remove_mset: "n < length w \<Longrightarrow> mset (window_remove w n) = mset w - {#w ! n#}"
proof -
  assume n: "n < length w"
  then have "w \<noteq> []" by auto
  let ?u = "w[n := last w]"
  have "last ?u = last w" using \<open>w \<noteq> []\<close> by (cases "n = length w - 1") (simp_all add: last_list_update last_conv_nth)
  have "?u \<noteq> []" using \<open>w \<noteq> []\<close> by simp
  then have "mset (butlast ?u) = mset ?u - {#last ?u#}"
    by (metis add_diff_cancel_right' append_butlast_last_id mset.simps(1,2) mset_append)
  also have "\<dots> = mset w - {#w ! n#} + {#last w#} - {#last w#}"
    using n \<open>last ?u = last w\<close> by (simp add: mset_update)
  finally show ?thesis by (simp add: window_remove_def)
qed

section \<open>The required difficulty of a window\<close>

definition target :: "difficultyBlock \<Rightarrow> int" where
  "target b = CompactToBig (db_Bits b)"

text \<open>
  The new target of a window \<open>w\<close> with oldest block \<open>b\<close>: the average target of the other
  blocks, scaled by the time the window took over the time it should have taken.
\<close>

definition new_target :: "int \<Rightarrow> difficultyBlock \<Rightarrow> blockWindow \<Rightarrow> int" where
  "new_target targetTime b w =
     (let n = int (length w) - 1;
          average = (sum_list (map target w) - target b) div n;
          time = Max (db_timeInMilliseconds ` set w) - db_timeInMilliseconds b
      in average * max time 1 div targetTime div n)"

definition oldest :: "difficultyBlock \<Rightarrow> blockWindow \<Rightarrow> bool" where
  "oldest b w \<longleftrightarrow> b \<in> set w \<and> (\<forall>c\<in>set w. block_key b \<le> block_key c)"

definition adjusts :: "difficultyManager \<Rightarrow> blockWindow \<Rightarrow> bool" where
  "adjusts dm w \<longleftrightarrow> \<not> dm_disableDifficultyAdjustment dm \<and> 2 \<le> length w \<and> dm_difficultyAdjustmentWindowSize dm \<le> int (length w)"

definition valid_times :: "blockWindow \<Rightarrow> bool" where
  "valid_times w \<longleftrightarrow> (\<forall>b\<in>set w. 0 \<le> db_timeInMilliseconds b \<and> db_timeInMilliseconds b \<le> MaxInt64)"

lemma sum_list_mset_eq: "mset xs = mset ys \<Longrightarrow> sum_list (map f xs) = (sum_list (map f ys) :: int)"
  by (metis mset_map sum_mset_sum_list)

lemma sum_window_remove:
  assumes "n < length w"
  shows "sum_list (map target (window_remove w n)) = sum_list (map target w) - target (w ! n)"
proof -
  have "mset (w ! n # window_remove w n) = mset w" using assms by (simp add: window_remove_mset)
  from sum_list_mset_eq [OF this, of target] show ?thesis by simp
qed

lemma averageTarget_sum:
  "w \<noteq> [] \<Longrightarrow> averageTarget w = Inr (sum_list (map target w) div int (length w))"
proof -
  have "foldl (\<lambda>a b. a + CompactToBig (db_Bits b)) x w = x + sum_list (map target w)" for x
    by (induction w arbitrary: x) (simp_all add: target_def)
  then show "w \<noteq> [] \<Longrightarrow> ?thesis" by (simp add: averageTarget_def bigDiv_def)
qed

lemma required_difficulty_new_target:
  assumes a: "adjusts dm w" and t: "valid_times w" and p: "0 < dm_targetTimePerBlock dm"
  shows "\<exists>b. oldest b w \<and>
    requiredDifficultyFromTargetsWindow dm w = Inr (BigToCompact (min (dm_powMax dm) (new_target (dm_targetTimePerBlock dm) b w)))"
proof -
  obtain minT maxT m where r: "minMaxTimestamps w = (minT, maxT, m)" by (metis surj_pair)
  have w: "w \<noteq> []" "1 < length w" using a by (auto simp: adjusts_def)
  have f: "m < length w" "minT = db_timeInMilliseconds (w ! m)" "\<forall>b\<in>set w. block_key (w ! m) \<le> block_key b"
    "maxT = Max (insert 0 (db_timeInMilliseconds ` set w))"
    using minMaxTimestamps_found [OF w(1)] t by (auto simp: r found_def valid_times_def)
  have M: "Max (db_timeInMilliseconds ` set w) \<in> db_timeInMilliseconds ` set w" using w(1) by (intro Max_in) auto
  then have "0 \<le> Max (db_timeInMilliseconds ` set w)" using t by (auto simp: valid_times_def)
  then have m: "maxT = Max (db_timeInMilliseconds ` set w)" using w(1) f(4) by (simp add: Max_insert)
  have "0 \<le> maxT \<and> maxT \<le> MaxInt64" using t M unfolding m valid_times_def by fastforce
  moreover have "0 \<le> minT \<and> minT \<le> MaxInt64" using t f(1) unfolding f(2) valid_times_def by simp
  ultimately have d: "int64 (maxT - minT) = maxT - minT" by (intro int64_id) (simp_all add: MaxInt64_def)
  have l: "length (window_remove w m) = length w - 1" "window_remove w m \<noteq> []"
    using w by (auto simp: window_remove_def simp flip: length_0_conv)
  have "requiredDifficultyFromTargetsWindow dm w = Inr (BigToCompact (min (dm_powMax dm) (new_target (dm_targetTimePerBlock dm) (w ! m) w)))"
  proof -
    have n: "int (length w - 1) = int (length w) - 1" using w(2) by simp
    have "averageTarget (window_remove w m) = Inr ((sum_list (map target w) - target (w ! m)) div (int (length w) - 1))"
      using averageTarget_sum [OF l(2)] sum_window_remove [OF f(1)] n l(1) by simp
    moreover have "\<not> (length w < 2 \<or> int (length w) < dm_difficultyAdjustmentWindowSize dm)" "\<not> dm_disableDifficultyAdjustment dm"
      using a by (auto simp: adjusts_def)
    moreover have "bigDiv x (dm_targetTimePerBlock dm) = x div dm_targetTimePerBlock dm" "bigDiv x (int (length w) - 1) = x div (int (length w) - 1)" for x
      using p w(2) by (simp_all add: bigDiv_def)
    ultimately show ?thesis
      using p by (simp add: requiredDifficultyFromTargetsWindow_def r n l(1) d [unfolded f(2)] new_target_def f(2) m [symmetric] Let_def min_def)
  qed
  moreover have "oldest (w ! m) w" using f by (simp add: oldest_def)
  ultimately show ?thesis by blast
qed

lemma oldest_unique:
  assumes "oldest b w" "oldest c v" "set v = set w" "\<And>x y. \<lbrakk> x \<in> set w; y \<in> set w; db_hash x = db_hash y \<rbrakk> \<Longrightarrow> x = y"
  shows "b = c"
proof -
  have "block_key b = block_key c" using assms(1-3) by (auto simp: oldest_def intro: antisym)
  then show ?thesis using assms by (auto simp: oldest_def block_key_def)
qed

lemma required_difficulty_mset:
  assumes "mset w = mset v" "adjusts dm w" "valid_times w" "0 < dm_targetTimePerBlock dm"
    "\<And>x y. \<lbrakk> x \<in> set w; y \<in> set w; db_hash x = db_hash y \<rbrakk> \<Longrightarrow> x = y"
  shows "requiredDifficultyFromTargetsWindow dm w = requiredDifficultyFromTargetsWindow dm v"
proof -
  have s: "set v = set w" "length v = length w" using assms(1) by (metis mset_eq_setD, metis mset_eq_length)
  then have v: "adjusts dm v" "valid_times v" using assms by (simp_all add: adjusts_def valid_times_def)
  obtain b c where b: "oldest b w" "requiredDifficultyFromTargetsWindow dm w = Inr (BigToCompact (min (dm_powMax dm) (new_target (dm_targetTimePerBlock dm) b w)))"
    and c: "oldest c v" "requiredDifficultyFromTargetsWindow dm v = Inr (BigToCompact (min (dm_powMax dm) (new_target (dm_targetTimePerBlock dm) c v)))"
    using required_difficulty_new_target [OF assms(2,3,4)] required_difficulty_new_target [OF v assms(4)] by blast
  have "b = c" by (rule oldest_unique [OF b(1) c(1) s(1) assms(5)])
  then show ?thesis using b c s sum_list_mset_eq [OF assms(1), of target] by (simp add: new_target_def)
qed

lemma getDifficultyBlocks_map:
  "getDifficultyBlocks dm hs = Inr w \<Longrightarrow> \<exists>f. w = map f hs \<and> (\<forall>h\<in>set hs. getDifficultyBlock dm h = Inr (f h)) \<and> (\<forall>h. db_hash (f h) = h)"
proof (intro exI conjI ballI allI)
  define f where "f h = (case getDifficultyBlock dm h of Inr b \<Rightarrow> b | Inl _ \<Rightarrow> \<lparr>db_timeInMilliseconds = 0, db_Bits = 0, db_hash = h, db_blueWork = 0\<rparr>)" for h
  assume g: "getDifficultyBlocks dm hs = Inr w"
  show "w = map f hs" using g by (induction hs arbitrary: w) (auto simp: bindR_Inr_iff f_def)
  show "getDifficultyBlock dm h = Inr (f h)" if "h \<in> set hs" for h
    using g that by (induction hs arbitrary: w) (auto simp: bindR_Inr_iff f_def)
  show "db_hash (f h) = h" for h by (auto simp: f_def getDifficultyBlock_def bindR_def split: sum.split)
qed

lemma getDifficultyBlocks_mapI: "\<forall>h\<in>set hs. getDifficultyBlock dm h = Inr (f h) \<Longrightarrow> getDifficultyBlocks dm hs = Inr (map f hs)"
  by (induction hs) auto

lemma CompactToBig_BigToCompact_le:
  assumes "0 \<le> x" "x < 256 ^ 254"
  shows "0 \<le> CompactToBig (BigToCompact x) \<and> CompactToBig (BigToCompact x) \<le> x \<and>
    2 ^ 15 * (x - CompactToBig (BigToCompact x)) \<le> x \<and> BigToCompact (CompactToBig (BigToCompact x)) = BigToCompact x"
proof (cases "x = 0")
  case True
  then show ?thesis by (simp add: BigToCompact_def CompactToBig_def)
next
  case False
  define n where "n = nat x"
  have x: "x = int n" "0 < n" using False assms(1) by (simp_all add: n_def)
  have "256 ^ (byteLen n - 1) < (256 :: nat) ^ 254"
  proof -
    have "int n < int (256 ^ 254)" using assms(2) by (simp add: x(1))
    then have "n < 256 ^ 254" by (simp only: of_nat_less_iff)
    then show ?thesis using byteLen_least [OF x(2)] by (rule le_less_trans [rotated])
  qed
  then have "byteLen n - 1 < 254" by (meson nat_power_less_imp_less zero_less_numeral)
  then have c: "CompactToBig (BigToCompact x) = int (rounded n)"
    unfolding x(1) by (intro CompactToBig_BigToCompact [OF x(2)]) linarith
  have "int (2 ^ 15 * (n - rounded n)) \<le> int n" using rounded_bounds(2) [OF x(2)] by (simp only: of_nat_le_iff)
  then show ?thesis
    using rounded_bounds(1) [OF x(2)] BigToCompact_rounded [OF x(2)] unfolding c unfolding x(1) by (simp add: of_nat_diff)
qed

lemma new_target_nonneg:
  assumes "0 < t" "oldest b w" "\<forall>c\<in>set w. 0 \<le> target c"
  shows "0 \<le> new_target t b w"
proof -
  have b: "b \<in> set w" using assms(2) by (simp add: oldest_def)
  then obtain n where n: "n < length w" "b = w ! n" by (auto simp: in_set_conv_nth)
  have "set (window_remove w n) \<subseteq> set w"
    using window_remove_mset [OF n(1)] by (metis in_diffD set_mset_mset subsetI)
  then have "0 \<le> sum_list (map target (window_remove w n))" using assms(3) by (intro sum_list_nonneg) auto
  then have "0 \<le> sum_list (map target w) - target b" using sum_window_remove [OF n(1)] n(2) by simp
  moreover have "0 \<le> int (length w) - 1" using b by (cases w) auto
  moreover have "0 \<le> x div y" if "0 \<le> x" "0 \<le> y" for x y :: int using that by (simp add: div_int_pos_iff)
  ultimately show ?thesis using assms(1) unfolding new_target_def Let_def by (meson max.coboundedI2 mult_nonneg_nonneg zero_le_one less_imp_le)
qed

section \<open>The DAA score\<close>

lemma daaAddedLoop_filter:
  assumes "distinct hs" "set acc \<subseteq> set mergeSet" "distinct acc" "set acc \<inter> set hs = {}" "distinct mergeSet"
  shows "daaAddedLoop mergeSet acc hs = acc @ filter (\<lambda>h. h \<in> set mergeSet) hs"
  using assms
proof (induction hs arbitrary: acc)
  case (Cons h hs)
  show ?case
  proof (cases "h \<in> set mergeSet \<and> length (acc @ [h]) = length mergeSet")
    case True
    have "set (acc @ [h]) = set mergeSet"
      using True Cons.prems by (intro card_subset_eq) (auto simp: distinct_card)
    then have "filter (\<lambda>h. h \<in> set mergeSet) hs = []"
      using Cons.prems by (auto simp: filter_empty_conv)
    then show ?thesis using True by simp
  next
    case False
    then show ?thesis using Cons.IH [of "acc @ [h]"] Cons.IH [of acc] Cons.prems by auto
  qed
qed simp

section \<open>Properties\<close>

text \<open>Headers and a manager with a window of three blocks.\<close>

definition sample_header :: "int \<Rightarrow> uint32 \<Rightarrow> BlockHeader" where
  "sample_header time bits = \<lparr>header_Version = 0, header_Parents = [], header_HashMerkleRoot = [], header_AcceptedIDMerkleRoot = [],
     header_UTXOCommitment = [], header_TimeInMilliseconds = time, header_Bits = bits, header_Nonce = 0, header_DAAScore = 0,
     header_BlueScore = 0, header_BlueWork = 0, header_PruningPoint = []\<rparr>"

definition sample_manager :: difficultyManager where
  "sample_manager = \<lparr>dm_genesisHash = [], dm_powMax = 2 ^ 255 - 1, dm_difficultyAdjustmentWindowSize = 3,
     dm_disableDifficultyAdjustment = False, dm_targetTimePerBlock = 1000, dm_genesisBits = 0x207fffff,
     dm_headerStore = (\<lambda>h. if h = [1] then Inr (sample_header 5000 0x1e7fffff) else if h = [2] then Inr (sample_header 6000 0x1e7fffff)
       else if h = [3] then Inr (sample_header 9000 0x1e7fffff) else Inl OtherErr),
     dm_BlockWindow = (\<lambda>_ _. Inr [[1], [2], [3]])\<rparr>"

definition sample_window :: blockWindow where
  "sample_window = map (\<lambda>(h, t). \<lparr>db_timeInMilliseconds = t, db_Bits = 0x1e7fffff, db_hash = h, db_blueWork = 0\<rparr>)
     [([1], 5000), ([2], 6000), ([3], 9000)]"

text \<open>
  C26: The compact form of a target keeps its value up to a relative error of \<open>2\<^sup>-\<^sup>1\<^sup>5\<close> and
  only rounds down. Encoding the decoded value gives the same compact form again.
\<close>

theorem compact_target_roundtrip:
  assumes "0 \<le> x" "x < 256 ^ 254"
  shows "0 \<le> CompactToBig (BigToCompact x) \<and> CompactToBig (BigToCompact x) \<le> x \<and>
    2 ^ 15 * (x - CompactToBig (BigToCompact x)) \<le> x \<and> BigToCompact (CompactToBig (BigToCompact x)) = BigToCompact x"
  using assms by (rule CompactToBig_BigToCompact_le)

theorem compact_target_roundtrip_witness:
  "BigToCompact 0x12345678 = 0x04123456 \<and> CompactToBig 0x04123456 = 0x12345600 \<and>
   2 ^ 15 * (0x12345678 - CompactToBig (BigToCompact 0x12345678)) \<le> 0x12345678"
proof -
  have "BigToCompact 0x12345678 = 0x04123456" by (simp add: BigToCompact_def byteLen.simps)
  moreover have "CompactToBig 0x04123456 = 0x12345600" by (simp add: CompactToBig_def)
  ultimately show ?thesis using compact_target_roundtrip [of "0x12345678"] by simp
qed

text \<open>
  C18: The required difficulty depends only on which blocks are in the window. For a full window in
  any order, it is the compact form of the average target of all blocks but the oldest, scaled by the
  time the window took over the target time and cut off at the highest allowed target; so the target
  it stands for is never above that limit.
\<close>

theorem required_difficulty_of_window:
  assumes g: "getDifficultyBlocks dm hs = Inr w" and p: "mset hs' = mset hs" and a: "adjusts dm w" and t: "valid_times w"
    and "0 < dm_targetTimePerBlock dm" "0 \<le> dm_powMax dm" "dm_powMax dm < 256 ^ 254" "\<forall>b\<in>set w. 0 \<le> target b"
  shows "\<exists>w' b bits. getDifficultyBlocks dm hs' = Inr w' \<and> requiredDifficultyFromTargetsWindow dm w' = Inr bits \<and> oldest b w \<and>
    bits = BigToCompact (min (dm_powMax dm) (new_target (dm_targetTimePerBlock dm) b w)) \<and>
    0 \<le> CompactToBig bits \<and> CompactToBig bits \<le> min (dm_powMax dm) (new_target (dm_targetTimePerBlock dm) b w)"
proof -
  obtain f where f: "w = map f hs" "\<forall>h\<in>set hs. getDifficultyBlock dm h = Inr (f h)" "\<forall>h. db_hash (f h) = h"
    using getDifficultyBlocks_map [OF g] by blast
  have s: "set hs' = set hs" using p by (metis mset_eq_setD)
  have g': "getDifficultyBlocks dm hs' = Inr (map f hs')" using f(2) s by (intro getDifficultyBlocks_mapI) simp
  have "requiredDifficultyFromTargetsWindow dm w = requiredDifficultyFromTargetsWindow dm (map f hs')"
  proof (rule required_difficulty_mset [OF _ a t assms(5)])
    show "x = y" if "x \<in> set w" "y \<in> set w" "db_hash x = db_hash y" for x y using that f(1,3) by auto
  qed (simp add: f(1) p)
  moreover obtain b where b: "oldest b w"
    "requiredDifficultyFromTargetsWindow dm w = Inr (BigToCompact (min (dm_powMax dm) (new_target (dm_targetTimePerBlock dm) b w)))"
    using required_difficulty_new_target [OF a t assms(5)] by blast
  moreover have "0 \<le> min (dm_powMax dm) (new_target (dm_targetTimePerBlock dm) b w)"
    "min (dm_powMax dm) (new_target (dm_targetTimePerBlock dm) b w) < 256 ^ 254"
    using new_target_nonneg [OF assms(5) b(1) assms(8)] assms(6,7) by (simp_all add: min_less_iff_disj)
  ultimately show ?thesis using g' CompactToBig_BigToCompact_le by metis
qed

theorem required_difficulty_of_window_witness:
  "\<exists>w' b bits. getDifficultyBlocks sample_manager [[3], [1], [2]] = Inr w' \<and>
    requiredDifficultyFromTargetsWindow sample_manager w' = Inr bits \<and> oldest b sample_window \<and>
    bits = BigToCompact (min (dm_powMax sample_manager) (new_target (dm_targetTimePerBlock sample_manager) b sample_window)) \<and>
    0 \<le> CompactToBig bits \<and> CompactToBig bits \<le> min (dm_powMax sample_manager) (new_target (dm_targetTimePerBlock sample_manager) b sample_window)"
proof (rule required_difficulty_of_window)
  show "getDifficultyBlocks sample_manager [[1], [2], [3]] = Inr sample_window"
    by (simp add: sample_manager_def sample_window_def getDifficultyBlock_def sample_header_def)
  show "\<forall>b\<in>set sample_window. 0 \<le> target b" by (simp add: sample_window_def target_def CompactToBig_def)
  show "adjusts sample_manager sample_window" "valid_times sample_window"
    by (simp_all add: adjusts_def valid_times_def sample_manager_def sample_window_def MaxInt64_def)
qed (simp_all add: sample_manager_def)



end
