(* ===== verification/TxValidator.thy ===== *)
theory TxValidator
  imports RuleErrors TxMass ScriptSpends Difficulty
begin

text \<open>
  The transaction validator (\<^verbatim>\<open>domain/consensus/processes/transactionvalidator\<close>): the checks of a
  transaction alone, and those against the UTXO entries it spends, which end with the execution of
  its scripts. The signature caches of the validator are passed on; a call that fails leaves them
  out, since what it adds to a cache changes no answer.
\<close>

section \<open>The validator\<close>

definition SompiPerC4ex :: uint64 where "SompiPerC4ex = 100000000"
definition MaxSompi :: uint64 where "MaxSompi = 29000000000 * SompiPerC4ex"
definition MaxTransactionVersion :: uint16 where "MaxTransactionVersion = 0"

record ('k, 's) transactionValidator =
  tv_blockCoinbaseMaturity :: uint64
  tv_enableNonNativeSubnetworks :: bool
  tv_maxCoinbasePayloadLength :: uint64
  tv_ghostdagK :: KType
  tv_coinbasePayloadScriptPublicKeyMaxLength :: byte
  tv_sigCache :: "('k, 's) SigCache option"
  tv_sigCacheECDSA :: "('k, 's) SigCacheECDSA option"
  tv_txMassCalculator :: Calculator

definition PopulateMass :: "('k, 's) transactionValidator \<Rightarrow> DomainTransaction \<Rightarrow> DomainTransaction" where
  "PopulateMass v transaction =
     (if tx_Mass transaction \<noteq> 0 then transaction
      else transaction\<lparr>tx_Mass := CalculateTransactionMass (tv_txMassCalculator v) transaction\<rparr>)"

section \<open>Validation in isolation\<close>

definition checkTransactionInputCount :: "DomainTransaction \<Rightarrow> unit validated" where
  "checkTransactionInputCount tx =
     (if \<not> IsCoinBase tx \<and> length (tx_Inputs tx) = 0 then ruleErr ErrNoTxInputs else Inr ())"

fun amountRangesLoop :: "uint64 \<Rightarrow> DomainTransactionOutput list \<Rightarrow> unit validated" where
  "amountRangesLoop totalSompi [] = Inr ()"
| "amountRangesLoop totalSompi (txOut # txOuts) =
     (let sompi = out_Value txOut
      in if sompi = 0 then ruleErr ErrTxOutValueZero
         else if sompi > MaxSompi then ruleErr ErrBadTxOutValue
         else let newTotalSompi = totalSompi + sompi
              in if newTotalSompi < totalSompi then ruleErr ErrBadTxOutValue
                 else if newTotalSompi > MaxSompi then ruleErr ErrBadTxOutValue
                 else amountRangesLoop newTotalSompi txOuts)"

definition checkTransactionAmountRanges :: "DomainTransaction \<Rightarrow> unit validated" where
  "checkTransactionAmountRanges tx = amountRangesLoop 0 (tx_Outputs tx)"

fun duplicateInputsLoop :: "DomainOutpoint list \<Rightarrow> DomainTransactionInput list \<Rightarrow> unit validated" where
  "duplicateInputsLoop existingTxOut [] = Inr ()"
| "duplicateInputsLoop existingTxOut (txIn # txIns) =
     (if in_PreviousOutpoint txIn \<in> set existingTxOut then ruleErr ErrDuplicateTxInputs
      else duplicateInputsLoop (in_PreviousOutpoint txIn # existingTxOut) txIns)"

definition checkDuplicateTransactionInputs :: "DomainTransaction \<Rightarrow> unit validated" where
  "checkDuplicateTransactionInputs tx = duplicateInputsLoop [] (tx_Inputs tx)"

definition checkCoinbaseInIsolation :: "('k, 's) transactionValidator \<Rightarrow> DomainTransaction \<Rightarrow> unit validated" where
  "checkCoinbaseInIsolation v tx =
     (if \<not> IsCoinBase tx then Inr ()
      else if len64 (tx_Payload tx) > tv_maxCoinbasePayloadLength v then ruleErr ErrBadCoinbasePayloadLen
      else if length (tx_Inputs tx) \<noteq> 0 then ruleErr ErrCoinbaseWithInputs
      else let outputsLimit = ucast (tv_ghostdagK v) + 2
           in if len64 (tx_Outputs tx) > outputsLimit then ruleErr ErrCoinbaseTooManyOutputs
              else if list_ex (\<lambda>output. length (spk_Script (out_ScriptPublicKey output)) > unat (tv_coinbasePayloadScriptPublicKeyMaxLength v)) (tx_Outputs tx)
              then ruleErr ErrCoinbaseTooLongScriptPublicKey
              else Inr ())"

definition IsBuiltInOrNative :: "bytes \<Rightarrow> bool" where
  "IsBuiltInOrNative subnetworkID \<longleftrightarrow> subnetworkID = SubnetworkIDNative \<or> IsBuiltIn subnetworkID"

definition checkGasInBuiltInOrNativeTransactions :: "DomainTransaction \<Rightarrow> unit validated" where
  "checkGasInBuiltInOrNativeTransactions tx =
     (if IsBuiltInOrNative (tx_SubnetworkID tx) \<and> tx_Gas tx > 0 then ruleErr ErrInvalidGas else Inr ())"

definition checkSubnetworkRegistryTransaction :: "DomainTransaction \<Rightarrow> unit validated" where
  "checkSubnetworkRegistryTransaction tx =
     (if tx_SubnetworkID tx \<noteq> SubnetworkIDRegistry then Inr ()
      else if length (tx_Payload tx) \<noteq> 8 then ruleErr ErrSubnetworkRegistry else Inr ())"

definition checkNativeTransactionPayload :: "DomainTransaction \<Rightarrow> unit validated" where
  "checkNativeTransactionPayload tx =
     (if tx_SubnetworkID tx = SubnetworkIDNative \<and> length (tx_Payload tx) > 0 then ruleErr ErrInvalidPayload else Inr ())"

definition checkTransactionSubnetwork ::
  "('k, 's) transactionValidator \<Rightarrow> DomainTransaction \<Rightarrow> bytes option \<Rightarrow> unit validated" where
  "checkTransactionSubnetwork v tx localNodeSubnetworkID =
     (if \<not> tv_enableNonNativeSubnetworks v \<and> tx_SubnetworkID tx \<noteq> SubnetworkIDNative \<and> tx_SubnetworkID tx \<noteq> SubnetworkIDCoinbase
      then ruleErr ErrSubnetworksDisabled
      else let isLocalNodeFull = (localNodeSubnetworkID = None);
               shouldTxBeFull = (IsBuiltIn (tx_SubnetworkID tx) \<or> Some (tx_SubnetworkID tx) = localNodeSubnetworkID)
           in if \<not> isLocalNodeFull \<and> \<not> shouldTxBeFull \<and> length (tx_Payload tx) > 0 then ruleErr ErrInvalidPayload
              else Inr ())"

definition ValidateTransactionInIsolation ::
  "('k, 's) transactionValidator \<Rightarrow> DomainTransaction \<Rightarrow> uint64 \<Rightarrow> unit validated" where
  "ValidateTransactionInIsolation v tx povDAAScore =
     bindR (checkTransactionInputCount tx) (\<lambda>_.
     bindR (checkTransactionAmountRanges tx) (\<lambda>_.
     bindR (checkDuplicateTransactionInputs tx) (\<lambda>_.
     bindR (checkCoinbaseInIsolation v tx) (\<lambda>_.
     bindR (checkGasInBuiltInOrNativeTransactions tx) (\<lambda>_.
     bindR (checkSubnetworkRegistryTransaction tx) (\<lambda>_.
     bindR (checkNativeTransactionPayload tx) (\<lambda>_.
     bindR (checkTransactionSubnetwork v tx None) (\<lambda>_.
       if tx_Version tx > MaxTransactionVersion then ruleErr ErrTransactionVersionIsUnknown else Inr ()))))))))"

section \<open>Validation in context\<close>

definition IsFinalizedTransaction :: "DomainTransaction \<Rightarrow> uint64 \<Rightarrow> int \<Rightarrow> bool" where
  "IsFinalizedTransaction tx blockDAAScore blockTime =
     (let lockTime = tx_LockTime tx
      in if lockTime = 0 then True
         else let blockTimeOrBlueScore = (if lockTime < LockTimeThreshold then blockDAAScore else word_of_int blockTime)
              in if lockTime < blockTimeOrBlueScore then True
                 else list_all (\<lambda>input. in_Sequence input = MaxTxInSequenceNum) (tx_Inputs tx))"

definition ValidateTransactionInContextIgnoringUTXO ::
  "daaBlocksStore \<Rightarrow> DomainTransaction \<Rightarrow> DomainHash \<Rightarrow> int \<Rightarrow> unit validated" where
  "ValidateTransactionInContextIgnoringUTXO daaStore tx povBlockHash povBlockPastMedianTime =
     bindR (passOn (fromStore (daa_DAAScore daaStore) povBlockHash)) (\<lambda>povBlockDAAScore.
       if \<not> IsFinalizedTransaction tx povBlockDAAScore povBlockPastMedianTime then ruleErr ErrUnfinalizedTx else Inr ())"

text \<open>The outpoints of the inputs without an entry; a check that ends with some fails with them.\<close>

definition missing :: "DomainTransactionInput list \<Rightarrow> DomainOutpoint list" where
  "missing inputs = map in_PreviousOutpoint (filter (\<lambda>input. in_UTXOEntry input = None) inputs)"

definition failMissing :: "DomainTransactionInput list \<Rightarrow> 'a \<Rightarrow> 'a validated" where
  "failMissing inputs x = (if length (missing inputs) > 0 then ruleErr (ErrMissingTxOut (missing inputs)) else Inr x)"

definition immature :: "('k, 's) transactionValidator \<Rightarrow> uint64 \<Rightarrow> DomainTransactionInput \<Rightarrow> bool" where
  "immature v povDAAScore input =
     (case in_UTXOEntry input of
        None \<Rightarrow> False
      | Some utxoEntry \<Rightarrow> utxo_IsCoinbase utxoEntry \<and> utxo_BlockDAAScore utxoEntry + tv_blockCoinbaseMaturity v > povDAAScore)"

definition checkTransactionCoinbaseMaturity ::
  "('k, 's) transactionValidator \<Rightarrow> daaBlocksStore \<Rightarrow> DomainHash \<Rightarrow> DomainTransaction \<Rightarrow> unit validated" where
  "checkTransactionCoinbaseMaturity v daaStore povBlockHash tx =
     bindR (passOn (fromStore (daa_DAAScore daaStore) povBlockHash)) (\<lambda>povDAAScore.
       if list_ex (immature v povDAAScore) (tx_Inputs tx) then ruleErr ErrImmatureSpend
       else failMissing (tx_Inputs tx) ())"

definition checkEntryAmounts :: "UTXOEntry \<Rightarrow> uint64 \<Rightarrow> uint64 validated" where
  "checkEntryAmounts entry totalSompiInBefore =
     (let totalSompiInAfter = totalSompiInBefore + utxo_Amount entry
      in if totalSompiInAfter < totalSompiInBefore \<or> totalSompiInAfter > MaxSompi then ruleErr ErrBadTxOutValue
         else Inr totalSompiInAfter)"

fun inputAmountsLoop :: "uint64 \<Rightarrow> DomainTransactionInput list \<Rightarrow> uint64 validated" where
  "inputAmountsLoop totalSompiIn [] = Inr totalSompiIn"
| "inputAmountsLoop totalSompiIn (input # inputs) =
     (case in_UTXOEntry input of
        None \<Rightarrow> inputAmountsLoop totalSompiIn inputs
      | Some utxoEntry \<Rightarrow> bindR (checkEntryAmounts utxoEntry totalSompiIn) (\<lambda>totalSompiIn. inputAmountsLoop totalSompiIn inputs))"

definition checkTransactionInputAmounts :: "DomainTransaction \<Rightarrow> uint64 validated" where
  "checkTransactionInputAmounts tx =
     bindR (inputAmountsLoop 0 (tx_Inputs tx)) (\<lambda>totalSompiIn. failMissing (tx_Inputs tx) totalSompiIn)"

definition checkTransactionOutputAmounts :: "DomainTransaction \<Rightarrow> uint64 \<Rightarrow> uint64 validated" where
  "checkTransactionOutputAmounts tx totalSompiIn =
     (let totalSompiOut = foldl (\<lambda>totalSompiOut output. totalSompiOut + out_Value output) 0 (tx_Outputs tx)
      in if totalSompiIn < totalSompiOut then ruleErr ErrSpendTooHigh else Inr totalSompiOut)"

text \<open>The lock is the highest DAA score of an input; scores are converted to \<^verbatim>\<open>int64\<close>.\<close>

definition inputLock :: "DomainTransactionInput \<Rightarrow> int option" where
  "inputLock input =
     (case in_UTXOEntry input of
        None \<Rightarrow> None
      | Some utxoEntry \<Rightarrow>
          let sequenceNum = in_Sequence input;
              relativeLock = sint (sequenceNum AND SequenceLockTimeMask)
          in if sequenceNum AND SequenceLockTimeDisabled = SequenceLockTimeDisabled then None
             else Some (int64 (int64 (sint (utxo_BlockDAAScore utxoEntry) + relativeLock) - 1)))"

definition calcTxSequenceLockFromReferencedUTXOEntries :: "DomainTransaction \<Rightarrow> int validated" where
  "calcTxSequenceLockFromReferencedUTXOEntries tx =
     (if IsCoinBase tx then Inr (- 1)
      else failMissing (tx_Inputs tx)
        (foldl (\<lambda>lock input. case inputLock input of None \<Rightarrow> lock | Some blockDAAScore \<Rightarrow> if blockDAAScore > lock then blockDAAScore else lock)
           (- 1) (tx_Inputs tx)))"

definition sequenceLockActive :: "int \<Rightarrow> uint64 \<Rightarrow> bool" where
  "sequenceLockActive sequenceLock blockDAAScore \<longleftrightarrow> \<not> sequenceLock \<ge> sint blockDAAScore"

definition checkTransactionSequenceLock :: "daaBlocksStore \<Rightarrow> DomainHash \<Rightarrow> DomainTransaction \<Rightarrow> unit validated" where
  "checkTransactionSequenceLock daaStore povBlockHash tx =
     bindR (calcTxSequenceLockFromReferencedUTXOEntries tx) (\<lambda>sequenceLock.
     bindR (passOn (fromStore (daa_DAAScore daaStore) povBlockHash)) (\<lambda>daaScore.
       if \<not> sequenceLockActive sequenceLock daaScore then ruleErr ErrUnfinalizedTx else Inr ()))"

fun validateTransactionSigOpCounts :: "DomainTransactionInput list \<Rightarrow> unit validated" where
  "validateTransactionSigOpCounts [] = Inr ()"
| "validateTransactionSigOpCounts (input # inputs) =
     (case in_UTXOEntry input of
        None \<Rightarrow> Inl Panicked
      | Some utxoEntry \<Rightarrow>
          let script = spk_Script (utxo_ScriptPublicKey utxoEntry);
              isP2SH = IsPayToScriptHash script;
              sigOpCount = GetPreciseSigOpCount (in_SignatureScript input) script isP2SH
          in if sigOpCount \<noteq> int (unat (in_SigOpCount input)) then ruleErr ErrWrongSigOpCount
             else validateTransactionSigOpCounts inputs)"

text \<open>The caches and the reused hash values that the engines of the inputs share.\<close>

type_synonym ('k, 's) shared = "('k, 's) SigCache option \<times> ('k, 's) SigCacheECDSA option \<times> SighashReusedValues"

text \<open>An engine for a script version above the maximum leaves them alone.\<close>

definition runInput ::
  "('k, 's) sigLib \<Rightarrow> DomainTransaction \<Rightarrow> nat \<Rightarrow> UTXOEntry \<Rightarrow> ('k, 's) shared \<Rightarrow> ('k, 's) shared validated" where
  "runInput env tx i utxoEntry shared =
     (case shared of (cache, cacheECDSA, reused) \<Rightarrow>
        let scriptPubKey = utxo_ScriptPublicKey utxoEntry
        in bindR (wrapAs ErrScriptMalformed (NewEngine scriptPubKey tx (int i) 0 cache cacheECDSA reused)) (\<lambda>vm.
             bindR (wrapAs ErrScriptValidation (Execute env vm)) (\<lambda>vm.
               Inr (if spk_Version scriptPubKey > MaxScriptPublicKeyVersion then shared
                    else (sigCache vm, sigCacheECDSA vm, sigHashReusedValues vm)))))"

fun scriptsLoop ::
  "('k, 's) sigLib \<Rightarrow> DomainTransaction \<Rightarrow> nat \<Rightarrow> DomainTransactionInput list \<Rightarrow> ('k, 's) shared \<Rightarrow> ('k, 's) shared validated" where
  "scriptsLoop env tx i [] shared = Inr shared"
| "scriptsLoop env tx i (input # inputs) shared =
     (case in_UTXOEntry input of
        None \<Rightarrow> scriptsLoop env tx (Suc i) inputs shared
      | Some utxoEntry \<Rightarrow> bindR (runInput env tx i utxoEntry shared) (\<lambda>shared. scriptsLoop env tx (Suc i) inputs shared))"

definition validateTransactionScripts ::
  "('k, 's) sigLib \<Rightarrow> ('k, 's) transactionValidator \<Rightarrow> DomainTransaction \<Rightarrow> ('k, 's) transactionValidator validated" where
  "validateTransactionScripts env v tx =
     bindR (scriptsLoop env tx 0 (tx_Inputs tx) (tv_sigCache v, tv_sigCacheECDSA v, noReusedValues)) (\<lambda>(cache, cacheECDSA, _).
       failMissing (tx_Inputs tx) (v\<lparr>tv_sigCache := cache, tv_sigCacheECDSA := cacheECDSA\<rparr>))"

definition ValidateTransactionInContextAndPopulateFee ::
  "('k, 's) sigLib \<Rightarrow> ('k, 's) transactionValidator \<Rightarrow> daaBlocksStore \<Rightarrow> DomainTransaction \<Rightarrow> DomainHash \<Rightarrow>
     (DomainTransaction \<times> ('k, 's) transactionValidator) validated" where
  "ValidateTransactionInContextAndPopulateFee env v daaStore tx povBlockHash =
     bindR (checkTransactionCoinbaseMaturity v daaStore povBlockHash tx) (\<lambda>_.
     bindR (checkTransactionInputAmounts tx) (\<lambda>totalSompiIn.
     bindR (checkTransactionOutputAmounts tx totalSompiIn) (\<lambda>totalSompiOut.
       let tx = tx\<lparr>tx_Fee := totalSompiIn - totalSompiOut\<rparr>
       in bindR (checkTransactionSequenceLock daaStore povBlockHash tx) (\<lambda>_.
          bindR (validateTransactionSigOpCounts (tx_Inputs tx)) (\<lambda>_.
          bindR (validateTransactionScripts env v tx) (\<lambda>v. Inr (tx, v)))))))"

section \<open>Amounts\<close>

text \<open>The sums of the checks are those of the integers: a sum that wraps around is noticed.\<close>

lemma unat_add_no_wrap:
  fixes a b :: "'a::len word"
  assumes "a \<le> a + b"
  shows "unat (a + b) = unat a + unat b"
  using assms by (simp add: no_olen_add_nat unat_word_ariths(1))

definition totalIn :: "DomainTransaction \<Rightarrow> nat" where
  "totalIn tx = (\<Sum>input\<leftarrow>tx_Inputs tx. case in_UTXOEntry input of None \<Rightarrow> 0 | Some e \<Rightarrow> unat (utxo_Amount e))"

definition totalOut :: "DomainTransaction \<Rightarrow> nat" where
  "totalOut tx = (\<Sum>output\<leftarrow>tx_Outputs tx. unat (out_Value output))"

lemma word_add_limit:
  fixes t s m :: uint64
  shows "t \<le> t + s \<and> t + s \<le> m \<longleftrightarrow> unat t + unat s \<le> unat m"
proof
  assume "unat t + unat s \<le> unat m"
  moreover have "unat m < 2 ^ 64" using unsigned_less [of m] by simp
  ultimately show "t \<le> t + s \<and> t + s \<le> m"
    by (simp add: no_olen_add_nat word_le_nat_alt unat_word_ariths(1))
qed (simp add: unat_add_no_wrap [symmetric] word_le_nat_alt)

lemma amountRangesLoop_iff:
  "t \<le> MaxSompi \<Longrightarrow> amountRangesLoop t outs = Inr () \<longleftrightarrow>
     (\<forall>out \<in> set outs. out_Value out \<noteq> 0) \<and> unat t + (\<Sum>out\<leftarrow>outs. unat (out_Value out)) \<le> unat MaxSompi"
proof (induction outs arbitrary: t)
  case (Cons out outs)
  let ?v = "out_Value out"
  show ?case
  proof (cases "?v \<noteq> 0 \<and> t \<le> t + ?v \<and> t + ?v \<le> MaxSompi")
    case True
    then have sum: "unat (t + ?v) = unat t + unat ?v" by (simp add: unat_add_no_wrap)
    with True have "?v \<le> MaxSompi" by (simp add: word_le_nat_alt)
    with True sum Cons.IH [of "t + ?v"] show ?thesis by (auto simp: Let_def add.assoc not_less)
  next
    case False
    then have "amountRangesLoop t (out # outs) \<noteq> Inr ()" by (auto simp: Let_def not_le)
    moreover from False word_add_limit [of t ?v MaxSompi] have "?v = 0 \<or> \<not> unat t + unat ?v \<le> unat MaxSompi" by blast
    ultimately show ?thesis by auto
  qed
qed (simp add: word_le_nat_alt)

lemma inputAmountsLoop_iff:
  "t \<le> MaxSompi \<Longrightarrow> inputAmountsLoop t ins = Inr r \<longleftrightarrow>
     unat r = unat t + (\<Sum>input\<leftarrow>ins. case in_UTXOEntry input of None \<Rightarrow> 0 | Some e \<Rightarrow> unat (utxo_Amount e)) \<and> r \<le> MaxSompi"
proof (induction ins arbitrary: t)
  case Nil
  then show ?case by (auto simp: word_unat_eq_iff word_le_nat_alt)
next
  case (Cons input ins)
  show ?case
  proof (cases "in_UTXOEntry input")
    case (Some e)
    let ?v = "utxo_Amount e"
    show ?thesis
    proof (cases "t \<le> t + ?v \<and> t + ?v \<le> MaxSompi")
      case True
      then show ?thesis using Some Cons.IH [of "t + ?v"]
        by (simp add: checkEntryAmounts_def Let_def unat_add_no_wrap add.assoc not_less [symmetric])
    next
      case False
      with word_add_limit [of t ?v MaxSompi] have "\<not> unat t + unat ?v \<le> unat MaxSompi" by blast
      with False Some show ?thesis by (auto simp: checkEntryAmounts_def Let_def word_le_nat_alt word_less_nat_alt not_le)
    qed
  qed (use Cons in simp)
qed

lemma foldl_values:
  "unat (t::uint64) + (\<Sum>out\<leftarrow>outs. unat (out_Value out)) < 2 ^ 64 \<Longrightarrow>
     unat (foldl (\<lambda>t out. t + out_Value out) t outs) = unat t + (\<Sum>out\<leftarrow>outs. unat (out_Value out))"
proof (induction outs arbitrary: t)
  case (Cons out outs)
  then have "unat (t + out_Value out) = unat t + unat (out_Value out)" by (simp add: unat_word_ariths(1))
  with Cons show ?case by simp
qed simp

lemma MaxSompi_limit: "unat MaxSompi = 2900000000000000000"
  by (simp add: MaxSompi_def SompiPerC4ex_def)

section \<open>What isolation accepts\<close>

lemma duplicateInputsLoop_iff:
  "duplicateInputsLoop seen ins = Inr () \<longleftrightarrow>
     distinct (map in_PreviousOutpoint ins) \<and> set seen \<inter> in_PreviousOutpoint ` set ins = {}"
  by (induction ins arbitrary: seen) auto

lemma built_in_distinct:
  "SubnetworkIDNative \<noteq> SubnetworkIDRegistry" "SubnetworkIDNative \<noteq> SubnetworkIDCoinbase" "SubnetworkIDRegistry \<noteq> SubnetworkIDCoinbase"
  by (simp_all add: SubnetworkIDNative_def SubnetworkIDRegistry_def SubnetworkIDCoinbase_def DomainSubnetworkIDSize_def numeral_eq_Suc)

lemma checks_iff:
  "checkTransactionInputCount tx = Inr () \<longleftrightarrow> IsCoinBase tx \<or> tx_Inputs tx \<noteq> []"
  "checkTransactionAmountRanges tx = Inr () \<longleftrightarrow> 0 \<notin> out_Value ` set (tx_Outputs tx) \<and> totalOut tx \<le> 29 * 10 ^ 17"
  "checkDuplicateTransactionInputs tx = Inr () \<longleftrightarrow> distinct (map in_PreviousOutpoint (tx_Inputs tx))"
  "checkCoinbaseInIsolation v tx = Inr () \<longleftrightarrow>
     (\<not> IsCoinBase tx \<or>
        tx_Inputs tx = [] \<and> len64 (tx_Payload tx) \<le> tv_maxCoinbasePayloadLength v \<and>
        len64 (tx_Outputs tx) \<le> ucast (tv_ghostdagK v) + 2 \<and>
        list_all (\<lambda>out. length (spk_Script (out_ScriptPublicKey out)) \<le> unat (tv_coinbasePayloadScriptPublicKeyMaxLength v)) (tx_Outputs tx))"
  "checkGasInBuiltInOrNativeTransactions tx = Inr () \<longleftrightarrow>
     tx_Gas tx = 0 \<or> tx_SubnetworkID tx \<notin> {SubnetworkIDNative, SubnetworkIDCoinbase, SubnetworkIDRegistry}"
  "checkSubnetworkRegistryTransaction tx = Inr () \<longleftrightarrow> tx_SubnetworkID tx \<noteq> SubnetworkIDRegistry \<or> length (tx_Payload tx) = 8"
  "checkNativeTransactionPayload tx = Inr () \<longleftrightarrow> tx_SubnetworkID tx \<noteq> SubnetworkIDNative \<or> tx_Payload tx = []"
  "checkTransactionSubnetwork v tx None = Inr () \<longleftrightarrow>
     tv_enableNonNativeSubnetworks v \<or> tx_SubnetworkID tx = SubnetworkIDNative \<or> tx_SubnetworkID tx = SubnetworkIDCoinbase"
         apply (auto simp: checkTransactionInputCount_def)[1]
        apply (auto simp: checkTransactionAmountRanges_def amountRangesLoop_iff totalOut_def MaxSompi_limit image_iff)[1]
       apply (auto simp: checkDuplicateTransactionInputs_def duplicateInputsLoop_iff)[1]
      apply (auto simp: checkCoinbaseInIsolation_def Let_def list_all_iff list_ex_iff not_less not_le)[1]
     apply (auto simp: checkGasInBuiltInOrNativeTransactions_def IsBuiltInOrNative_def IsBuiltIn_def word_neq_0_conv)[1]
    apply (auto simp: checkSubnetworkRegistryTransaction_def)[1]
   apply (auto simp: checkNativeTransactionPayload_def)[1]
  apply (auto simp: checkTransactionSubnetwork_def)
  done

text \<open>
  C19: Validation in isolation accepts exactly the transactions with these properties: a transaction other
  than a coinbase has inputs; no output is worth nothing, and the true sum of the outputs, without
  wrap-around, is within the supply; no outpoint is spent twice; a coinbase has no inputs, at most
  \<open>k + 2\<close> outputs with scripts within the limit and a payload within the limit; the gas, the
  payload and the subnetwork fit together; the version is known.
\<close>

theorem isolation_accepts:
  "ValidateTransactionInIsolation v tx d = Inr () \<longleftrightarrow>
     (IsCoinBase tx \<or> tx_Inputs tx \<noteq> []) \<and>
     0 \<notin> out_Value ` set (tx_Outputs tx) \<and> totalOut tx \<le> 29 * 10 ^ 17 \<and>
     distinct (map in_PreviousOutpoint (tx_Inputs tx)) \<and>
     (\<not> IsCoinBase tx \<or>
        tx_Inputs tx = [] \<and> len64 (tx_Payload tx) \<le> tv_maxCoinbasePayloadLength v \<and>
        len64 (tx_Outputs tx) \<le> ucast (tv_ghostdagK v) + 2 \<and>
        list_all (\<lambda>out. length (spk_Script (out_ScriptPublicKey out)) \<le> unat (tv_coinbasePayloadScriptPublicKeyMaxLength v)) (tx_Outputs tx)) \<and>
     (tx_Gas tx = 0 \<or> tx_SubnetworkID tx \<notin> {SubnetworkIDNative, SubnetworkIDCoinbase, SubnetworkIDRegistry}) \<and>
     (tx_SubnetworkID tx = SubnetworkIDNative \<and> tx_Payload tx = [] \<or>
      tx_SubnetworkID tx = SubnetworkIDRegistry \<and> length (tx_Payload tx) = 8 \<and> tv_enableNonNativeSubnetworks v \<or>
      tx_SubnetworkID tx = SubnetworkIDCoinbase \<or>
      tx_SubnetworkID tx \<notin> {SubnetworkIDNative, SubnetworkIDCoinbase, SubnetworkIDRegistry} \<and> tv_enableNonNativeSubnetworks v) \<and>
     tx_Version tx = 0"
proof -
  have final: "(if b then ruleErr e else Inr ()) = Inr () \<longleftrightarrow> \<not> b" for b e by simp
  have one: "(\<exists>x::unit. P x) \<longleftrightarrow> P ()" for P by (metis (full_types) old.unit.exhaust)
  have v: "\<not> tx_Version tx > MaxTransactionVersion \<longleftrightarrow> tx_Version tx = 0" by (simp add: MaxTransactionVersion_def word_gt_0)
  have sub: "(i \<noteq> SubnetworkIDRegistry \<or> r) \<and> (i \<noteq> SubnetworkIDNative \<or> p) \<and>
      (e \<or> i = SubnetworkIDNative \<or> i = SubnetworkIDCoinbase) \<and> w \<longleftrightarrow>
    (i = SubnetworkIDNative \<and> p \<or> i = SubnetworkIDRegistry \<and> r \<and> e \<or> i = SubnetworkIDCoinbase \<or>
      i \<notin> {SubnetworkIDNative, SubnetworkIDCoinbase, SubnetworkIDRegistry} \<and> e) \<and> w" for i r p e w
    using built_in_distinct by (cases e) auto
  show ?thesis
    by (simp only: ValidateTransactionInIsolation_def bindR_Inr_iff one checks_iff final v sub conj_assoc)
qed

section \<open>What the context accepts\<close>

lemma failMissing_grants [simp]: "grants Q (failMissing ins x) \<longleftrightarrow> list_all (\<lambda>i. in_UTXOEntry i \<noteq> None) ins \<longrightarrow> Q x"
  by (auto simp: failMissing_def missing_def list_all_iff filter_empty_conv)

lemma fromStore_ensures [simp]: "ensures Q (fromStore st k) \<longleftrightarrow> (\<forall>x. st k = Some x \<longrightarrow> Q x)"
  by (auto simp: fromStore_def split: option.split)

definition mature :: "('k, 's) transactionValidator \<Rightarrow> daaBlocksStore \<Rightarrow> DomainHash \<Rightarrow> DomainTransaction \<Rightarrow> bool" where
  "mature v daaStore povBlockHash tx \<longleftrightarrow>
     (\<exists>povDAAScore. daa_DAAScore daaStore povBlockHash = Some povDAAScore \<and> \<not> list_ex (immature v povDAAScore) (tx_Inputs tx))"

lemma checkTransactionCoinbaseMaturity_grants:
  "grants (\<lambda>_. populated tx \<and> mature v daaStore pov tx) (checkTransactionCoinbaseMaturity v daaStore pov tx)"
  by (auto simp: checkTransactionCoinbaseMaturity_def populated_def mature_def)

lemma inputAmountsLoop_no_panic: "inputAmountsLoop t ins \<noteq> Inl Panicked"
  by (induction t ins rule: inputAmountsLoop.induct)
    (auto simp: checkEntryAmounts_def Let_def ruleErr_def bindR_Inl_iff split: option.split if_splits)

lemma checkTransactionInputAmounts_grants:
  "grants (\<lambda>total. unat total = totalIn tx \<and> total \<le> MaxSompi) (checkTransactionInputAmounts tx)"
proof -
  have "grants (\<lambda>total. unat total = totalIn tx \<and> total \<le> MaxSompi) (inputAmountsLoop 0 (tx_Inputs tx))"
    using inputAmountsLoop_no_panic by (auto simp: grants_def inputAmountsLoop_iff totalIn_def)
  then show ?thesis by (auto simp: checkTransactionInputAmounts_def elim: grants_mono)
qed

lemma checkTransactionOutputAmounts_grants:
  assumes "totalOut tx < 2 ^ 64"
  shows "grants (\<lambda>t. unat t = totalOut tx \<and> t \<le> totalSompiIn) (checkTransactionOutputAmounts tx totalSompiIn)"
  using assms foldl_values [of 0 "tx_Outputs tx"]
  by (simp add: checkTransactionOutputAmounts_def Let_def totalOut_def not_less)

lemma checkTransactionOutputAmounts_no_panic: "grants (\<lambda>_. True) (checkTransactionOutputAmounts tx totalSompiIn)"
  by (simp add: checkTransactionOutputAmounts_def Let_def)

lemma checkTransactionSequenceLock_no_panic: "grants (\<lambda>_. True) (checkTransactionSequenceLock daaStore pov tx)"
  by (simp add: checkTransactionSequenceLock_def calcTxSequenceLockFromReferencedUTXOEntries_def)

definition counted :: "DomainTransactionInput \<Rightarrow> bool" where
  "counted input \<longleftrightarrow> (\<forall>e. in_UTXOEntry input = Some e \<longrightarrow>
     GetPreciseSigOpCount (in_SignatureScript input) (spk_Script (utxo_ScriptPublicKey e))
       (IsPayToScriptHash (spk_Script (utxo_ScriptPublicKey e))) = int (unat (in_SigOpCount input)))"

lemma validateTransactionSigOpCounts_grants:
  "list_all (\<lambda>i. in_UTXOEntry i \<noteq> None) ins \<Longrightarrow> grants (\<lambda>_. list_all counted ins) (validateTransactionSigOpCounts ins)"
  by (induction ins rule: validateTransactionSigOpCounts.induct) (auto simp: counted_def Let_def)

text \<open>An input is unlocked when the engine accepts its scripts, with some sound caches.\<close>

definition unlocked :: "('k, 's) sigLib \<Rightarrow> DomainTransaction \<Rightarrow> nat \<Rightarrow> ScriptPublicKey \<Rightarrow> bool" where
  "unlocked env tx i spk \<longleftrightarrow> (\<exists>c ce rv vm. caches_ok env tx c ce rv \<and>
     bindR (NewEngine spk tx (int i) 0 c ce rv) (Execute env) = Inr vm)"

definition shared_ok :: "('k, 's) sigLib \<Rightarrow> DomainTransaction \<Rightarrow> ('k, 's) shared \<Rightarrow> bool" where
  "shared_ok env tx sh \<longleftrightarrow> (case sh of (c, ce, rv) \<Rightarrow> caches_ok env tx c ce rv)"

lemma runInput_grants:
  assumes "digests_ok env" "shared_ok env tx sh" "populated tx"
  shows "grants (\<lambda>sh'. shared_ok env tx sh' \<and> unlocked env tx i (utxo_ScriptPublicKey e)) (runInput env tx i e sh)"
proof -
  obtain c ce rv where sh: "sh = (c, ce, rv)" by (cases sh)
  with assms(2) have ok: "caches_ok env tx c ce rv" by (simp add: shared_ok_def)
  let ?spk = "utxo_ScriptPublicKey e"
  let ?run = "bindR (NewEngine ?spk tx (int i) 0 c ce rv) (Execute env)"
  have "ensures (\<lambda>vm. shared_ok env tx (if spk_Version ?spk > MaxScriptPublicKeyVersion then sh
      else (sigCache vm, sigCacheECDSA vm, sigHashReusedValues vm)) \<and> unlocked env tx i ?spk) ?run"
    by (rule ensures_mono [OF engine_run_ok [OF assms(1) ok assms(3)]])
      (use ok sh in \<open>auto simp: unlocked_def shared_ok_def good_def caches_ok_def simp del: ensures_simps\<close>)
  then show ?thesis unfolding sh by (simp add: runInput_def Let_def split del: if_split)
qed

lemma scriptsLoop_grants:
  assumes "digests_ok env" "populated tx"
  shows "shared_ok env tx sh \<Longrightarrow> grants (\<lambda>sh'. shared_ok env tx sh' \<and>
      (\<forall>j<length ins. \<forall>e. in_UTXOEntry (ins ! j) = Some e \<longrightarrow> unlocked env tx (i + j) (utxo_ScriptPublicKey e)))
    (scriptsLoop env tx i ins sh)"
proof (induction ins arbitrary: i sh)
  case (Cons input ins)
  have step: "grants (\<lambda>sh'. shared_ok env tx sh' \<and>
      (\<forall>j<length (input # ins). \<forall>e. in_UTXOEntry ((input # ins) ! j) = Some e \<longrightarrow> unlocked env tx (i + j) (utxo_ScriptPublicKey e)))
    (scriptsLoop env tx (Suc i) ins sh')"
    if "shared_ok env tx sh'" "\<forall>e. in_UTXOEntry input = Some e \<longrightarrow> unlocked env tx i (utxo_ScriptPublicKey e)" for sh'
    by (rule grants_mono [OF Cons.IH [OF that(1)]]) (use that(2) in \<open>auto simp: nth_Cons split: nat.split\<close>)
  show ?case
  proof (cases "in_UTXOEntry input")
    case (Some e)
    from runInput_grants [OF assms(1) Cons.prems assms(2), of i e] step Some show ?thesis
      by (auto elim!: grants_mono)
  qed (use step Cons.prems in simp)
qed simp

definition validator_ok :: "('k, 's) sigLib \<Rightarrow> ('k, 's) transactionValidator \<Rightarrow> bool" where
  "validator_ok env v \<longleftrightarrow> pred_option (sigCache_ok (SchnorrVerify env)) (tv_sigCache v) \<and>
     pred_option (sigCache_ok (ECDSAVerify env)) (tv_sigCacheECDSA v)"

lemma validateTransactionScripts_grants:
  assumes "digests_ok env" "populated tx" "validator_ok env v"
  shows "grants (\<lambda>v'. validator_ok env v' \<and>
      (\<forall>j<length (tx_Inputs tx). \<forall>e. in_UTXOEntry (tx_Inputs tx ! j) = Some e \<longrightarrow> unlocked env tx j (utxo_ScriptPublicKey e)))
    (validateTransactionScripts env v tx)"
proof -
  have "shared_ok env tx (tv_sigCache v, tv_sigCacheECDSA v, noReusedValues)"
    using assms(3) by (simp add: shared_ok_def validator_ok_def caches_ok_def)
  from scriptsLoop_grants [OF assms(1,2) this, where i = 0 and ins = "tx_Inputs tx"] show ?thesis
    unfolding validateTransactionScripts_def grants_simps
    by (rule grants_mono) (auto simp: shared_ok_def validator_ok_def caches_ok_def)
qed

section \<open>Properties\<close>

text \<open>What acceptance in context says of the transaction.\<close>

definition accepted ::
  "('k, 's) sigLib \<Rightarrow> ('k, 's) transactionValidator \<Rightarrow> daaBlocksStore \<Rightarrow> DomainHash \<Rightarrow> DomainTransaction \<Rightarrow> DomainTransaction \<Rightarrow> bool" where
  "accepted env v daaStore pov tx tx' \<longleftrightarrow>
     tx' = tx\<lparr>tx_Fee := tx_Fee tx'\<rparr> \<and> populated tx \<and> mature v daaStore pov tx \<and> list_all counted (tx_Inputs tx) \<and>
     (\<forall>j<length (tx_Inputs tx). \<forall>e. in_UTXOEntry (tx_Inputs tx ! j) = Some e \<longrightarrow> unlocked env tx' j (utxo_ScriptPublicKey e)) \<and>
     totalIn tx \<le> 29 * 10 ^ 17 \<and> (totalOut tx < 2 ^ 64 \<longrightarrow> totalIn tx = totalOut tx + unat (tx_Fee tx'))"

lemma context_scripts_grants:
  assumes "digests_ok env" "validator_ok env v" "populated tx" "mature v daaStore pov tx" "totalIn tx \<le> 29 * 10 ^ 17"
    "totalOut tx < 2 ^ 64 \<Longrightarrow> totalIn tx = totalOut tx + unat fee"
  shows "grants (\<lambda>(tx', v'). validator_ok env v' \<and> accepted env v daaStore pov tx tx')
      (bindR (checkTransactionSequenceLock daaStore pov (tx\<lparr>tx_Fee := fee\<rparr>)) (\<lambda>_.
       bindR (validateTransactionSigOpCounts (tx_Inputs tx)) (\<lambda>_.
       bindR (validateTransactionScripts env v (tx\<lparr>tx_Fee := fee\<rparr>)) (\<lambda>v'. Inr (tx\<lparr>tx_Fee := fee\<rparr>, v')))))"
proof (rule grants_bind [OF checkTransactionSequenceLock_no_panic], rule grants_bind [OF validateTransactionSigOpCounts_grants])
  show "list_all (\<lambda>i. in_UTXOEntry i \<noteq> None) (tx_Inputs tx)" using assms(3) by (simp add: populated_def)
  assume counted: "list_all counted (tx_Inputs tx)"
  have "populated (tx\<lparr>tx_Fee := fee\<rparr>)" using assms(3) by (simp add: populated_def)
  from validateTransactionScripts_grants [OF assms(1) this assms(2)]
  show "grants (\<lambda>(tx', v'). validator_ok env v' \<and> accepted env v daaStore pov tx tx')
      (bindR (validateTransactionScripts env v (tx\<lparr>tx_Fee := fee\<rparr>)) (\<lambda>v'. Inr (tx\<lparr>tx_Fee := fee\<rparr>, v')))"
    by (rule grants_bind) (use counted assms(3-) in \<open>auto simp: accepted_def\<close>)
qed

lemma ValidateTransactionInContext_grants:
  assumes "digests_ok env" "validator_ok env v"
  shows "grants (\<lambda>(tx', v'). validator_ok env v' \<and> accepted env v daaStore pov tx tx')
    (ValidateTransactionInContextAndPopulateFee env v daaStore tx pov)"
  unfolding ValidateTransactionInContextAndPopulateFee_def Let_def
proof (rule grants_bind [OF checkTransactionCoinbaseMaturity_grants], rule grants_bind [OF checkTransactionInputAmounts_grants])
  fix total assume pre: "populated tx \<and> mature v daaStore pov tx" "unat total = totalIn tx \<and> total \<le> MaxSompi"
  then have limit: "totalIn tx \<le> 29 * 10 ^ 17" by (simp add: word_le_nat_alt MaxSompi_limit)
  have out: "grants (\<lambda>t. totalOut tx < 2 ^ 64 \<longrightarrow> totalIn tx = totalOut tx + unat (total - t)) (checkTransactionOutputAmounts tx total)"
  proof (cases "totalOut tx < 2 ^ 64")
    case True
    from checkTransactionOutputAmounts_grants [OF this] show ?thesis
      by (rule grants_mono) (use pre(2) in \<open>auto simp: unat_sub word_le_nat_alt\<close>)
  qed (use checkTransactionOutputAmounts_no_panic in simp)
  from pre limit show "grants (\<lambda>(tx', v'). validator_ok env v' \<and> accepted env v daaStore pov tx tx')
      (bindR (checkTransactionOutputAmounts tx total) (\<lambda>t.
       bindR (checkTransactionSequenceLock daaStore pov (tx\<lparr>tx_Fee := total - t\<rparr>)) (\<lambda>_.
       bindR (validateTransactionSigOpCounts (tx_Inputs (tx\<lparr>tx_Fee := total - t\<rparr>))) (\<lambda>_.
       bindR (validateTransactionScripts env v (tx\<lparr>tx_Fee := total - t\<rparr>)) (\<lambda>v'. Inr (tx\<lparr>tx_Fee := total - t\<rparr>, v'))))))"
    using context_scripts_grants [OF assms, of tx daaStore pov] by (intro grants_bind [OF out]) (simp del: grants_simps)
qed

text \<open>
  C2: A transaction that passes validation in isolation and in context is sound: the fields other than the fee
  are left alone; no outpoint is spent twice; the amounts spent, as integers, are the amounts created
  plus the populated fee, within the supply; and each input has its UTXO entry, which is mature if
  it is of a coinbase, declares its true number of signature operations and is unlocked, that is,
  the script engine accepts its scripts.
\<close>

theorem validated_transaction_sound:
  assumes "digests_ok env" "validator_ok env v" "ValidateTransactionInIsolation v tx d = Inr ()"
    and "ValidateTransactionInContextAndPopulateFee env v daaStore tx pov = Inr (tx', v')"
  shows "tx' = tx\<lparr>tx_Fee := tx_Fee tx'\<rparr> \<and> distinct (map in_PreviousOutpoint (tx_Inputs tx)) \<and>
    totalIn tx = totalOut tx + unat (tx_Fee tx') \<and> totalIn tx \<le> 29 * 10 ^ 17 \<and>
    (\<exists>score. daa_DAAScore daaStore pov = Some score \<and>
      (\<forall>j<length (tx_Inputs tx). let input = tx_Inputs tx ! j in
         \<exists>e. in_UTXOEntry input = Some e \<and> \<not> immature v score input \<and> counted input \<and> unlocked env tx' j (utxo_ScriptPublicKey e)))"
proof -
  from grantsD [OF ValidateTransactionInContext_grants [OF assms(1,2)] assms(4)] have acc: "accepted env v daaStore pov tx tx'" by simp
  from assms(3) have iso: "distinct (map in_PreviousOutpoint (tx_Inputs tx))" "totalOut tx \<le> 29 * 10 ^ 17"
    by (auto simp: ValidateTransactionInIsolation_def bindR_Inr_iff checks_iff)
  from acc obtain score where "daa_DAAScore daaStore pov = Some score" "\<not> list_ex (immature v score) (tx_Inputs tx)"
    by (auto simp: accepted_def mature_def)
  with acc iso show ?thesis
    by (auto simp: accepted_def populated_def list_all_length list_ex_length)
qed

text \<open>
  C11: Validation in context never panics, with any transaction, whether or not its UTXO entries are filled
  in, any store and whatever the signature library answers, provided that the digests have their
  documented size and the caches of the validator are sound; and it leaves sound caches, so that
  this holds of every further validation too.
\<close>

theorem validation_never_panics:
  assumes "digests_ok env" "validator_ok env v"
  shows "ValidateTransactionInContextAndPopulateFee env v daaStore tx pov \<noteq> Inl Panicked \<and>
    (\<forall>tx' v'. ValidateTransactionInContextAndPopulateFee env v daaStore tx pov = Inr (tx', v') \<longrightarrow> validator_ok env v')"
  using ValidateTransactionInContext_grants [OF assms, of daaStore pov tx] by (auto simp: grants_def)

lemma sint_uint64: "uint (w :: uint64) < 2 ^ 63 \<Longrightarrow> sint w = uint w"
proof -
  have "- (2 ^ 63) \<le> uint w" by (rule order_trans [of _ 0]) simp_all
  then show "uint w < 2 ^ 63 \<Longrightarrow> sint w = uint w" by (simp add: sint_uint signed_take_bit_int_eq_self_iff)
qed

lemma and_disabled: "x AND SequenceLockTimeDisabled = SequenceLockTimeDisabled \<longleftrightarrow> uint x \<ge> 2 ^ 63"
proof -
  have d: "bit SequenceLockTimeDisabled n \<longleftrightarrow> n = 63" for n
    by (simp only: SequenceLockTimeDisabled_def bit_push_bit_iff bit_1_iff) auto
  have "x AND SequenceLockTimeDisabled = SequenceLockTimeDisabled \<longleftrightarrow> x AND SequenceLockTimeDisabled \<noteq> 0"
    by (auto simp: bit_eq_iff [where 'a = "64 word"] bit_and_iff d dest: spec [of _ 63])
  then show ?thesis by (simp only: sequence_disabled)
qed

lemma int64_lock: "\<lbrakk> 0 \<le> a; a < 2 ^ 62; 0 \<le> b; b < 2 ^ 32 \<rbrakk> \<Longrightarrow> int64 (int64 (a + b) - 1) = a + b - 1"
  by (subst int64_id; simp)+

lemma inputLock_eq:
  assumes "in_UTXOEntry input = Some e" "utxo_BlockDAAScore e < 2 ^ 62"
  shows "inputLock input =
    (if uint (in_Sequence input) \<ge> 2 ^ 63 then None
     else Some (uint (utxo_BlockDAAScore e) + uint (in_Sequence input) mod 2 ^ 32 - 1))"
proof -
  let ?m = "in_Sequence input AND SequenceLockTimeMask"
  have "uint ?m < 2 ^ 32" by (simp add: sequence_mask)
  then have m: "sint ?m = uint (in_Sequence input) mod 2 ^ 32" by (subst sint_uint64) (simp_all add: sequence_mask)
  have e: "uint (utxo_BlockDAAScore e) < 2 ^ 62" using assms(2) by (simp add: word_less_def)
  then have s: "sint (utxo_BlockDAAScore e) = uint (utxo_BlockDAAScore e)" by (subst sint_uint64) simp_all
  have "0 \<le> uint (in_Sequence input) mod 2 ^ 32" "uint (in_Sequence input) mod 2 ^ 32 < 2 ^ 32" by simp_all
  moreover have "0 \<le> uint (utxo_BlockDAAScore e)" by simp
  ultimately have "int64 (int64 (uint (utxo_BlockDAAScore e) + uint (in_Sequence input) mod 2 ^ 32) - 1) =
      uint (utxo_BlockDAAScore e) + uint (in_Sequence input) mod 2 ^ 32 - 1"
    using e by (intro int64_lock)
  then show ?thesis using assms(1) by (simp add: inputLock_def Let_def m s and_disabled)
qed

lemma foldl_lock:
  "foldl (\<lambda>lock input. case f input of None \<Rightarrow> lock | Some b \<Rightarrow> if b > lock then b else lock) l ins < (x :: int) \<longleftrightarrow>
     l < x \<and> (\<forall>input \<in> set ins. \<forall>b. f input = Some b \<longrightarrow> b < x)"
  by (induction ins arbitrary: l) (auto split: option.split)

text \<open>
  C22: The sequence locks of a transaction hold exactly when each input that has not disabled its lock (the
  top bit of the sequence number) is old enough: the DAA score of the block is at least that of
  the spent output plus the low 32 bits of the sequence number. This is for scores below \<open>2\<^sup>6\<^sup>2\<close>,
  where the conversions to \<^verbatim>\<open>int64\<close> lose nothing.
\<close>

theorem sequence_locks_expired:
  assumes "\<not> IsCoinBase tx" "populated tx" "daa_DAAScore daaStore pov = Some score" "score < 2 ^ 63"
    and "\<forall>input \<in> set (tx_Inputs tx). utxo_BlockDAAScore (the (in_UTXOEntry input)) < 2 ^ 62"
  shows "checkTransactionSequenceLock daaStore pov tx =
    (if \<forall>input \<in> set (tx_Inputs tx). uint (in_Sequence input) \<ge> 2 ^ 63 \<or>
          uint (utxo_BlockDAAScore (the (in_UTXOEntry input))) + uint (in_Sequence input) mod 2 ^ 32 \<le> uint score
     then Inr () else ruleErr ErrUnfinalizedTx)"
proof -
  have s: "sint score = uint score" using assms(4) by (subst sint_uint64) (simp_all add: word_less_def)
  have "missing (tx_Inputs tx) = []" using assms(2) by (auto simp: missing_def populated_def list_all_iff filter_empty_conv)
  moreover have "foldl (\<lambda>lock input. case inputLock input of None \<Rightarrow> lock | Some b \<Rightarrow> if b > lock then b else lock) (- 1) (tx_Inputs tx) < sint score \<longleftrightarrow>
    (\<forall>input \<in> set (tx_Inputs tx). uint (in_Sequence input) \<ge> 2 ^ 63 \<or>
       uint (utxo_BlockDAAScore (the (in_UTXOEntry input))) + uint (in_Sequence input) mod 2 ^ 32 \<le> uint score)"
  proof -
    have "(\<forall>b. inputLock input = Some b \<longrightarrow> b < uint score) \<longleftrightarrow> uint (in_Sequence input) \<ge> 2 ^ 63 \<or>
        uint (utxo_BlockDAAScore (the (in_UTXOEntry input))) + uint (in_Sequence input) mod 2 ^ 32 \<le> uint score"
      if "input \<in> set (tx_Inputs tx)" for input
    proof -
      from that obtain e where e: "in_UTXOEntry input = Some e" using assms(2) by (auto simp: populated_def list_all_iff)
      with assms(5) that have "utxo_BlockDAAScore e < 2 ^ 62" by force
      with e show ?thesis by (auto simp: inputLock_eq)
    qed
    moreover have "- 1 < uint score" by (rule less_le_trans [of _ 0]) simp_all
    ultimately show ?thesis unfolding foldl_lock s by simp
  qed
  ultimately show ?thesis using assms(1,3)
    by (simp add: checkTransactionSequenceLock_def calcTxSequenceLockFromReferencedUTXOEntries_def failMissing_def
        sequenceLockActive_def fromStore_def passOn_def not_le)
qed

section \<open>Examples\<close>

text \<open>A transaction that spends 12 sompi locked by \<^verbatim>\<open>OP_TRUE\<close> for an output of 9.\<close>

definition sample_validator :: "(bytes, bytes) transactionValidator" where
  "sample_validator = \<lparr>tv_blockCoinbaseMaturity = 100, tv_enableNonNativeSubnetworks = False, tv_maxCoinbasePayloadLength = 204,
     tv_ghostdagK = 18, tv_coinbasePayloadScriptPublicKeyMaxLength = 150, tv_sigCache = None, tv_sigCacheECDSA = None,
     tv_txMassCalculator = \<lparr>massPerTxByte = 1, massPerScriptPubKeyByte = 10, massPerSigOp = 1000\<rparr>\<rparr>"

definition sample_input :: DomainTransactionInput where
  "sample_input = \<lparr>in_PreviousOutpoint = \<lparr>outpoint_TransactionID = replicate 32 7, outpoint_Index = 1\<rparr>,
     in_SignatureScript = [], in_Sequence = 0, in_SigOpCount = 0,
     in_UTXOEntry = Some \<lparr>utxo_Amount = 12, utxo_ScriptPublicKey = \<lparr>spk_Script = [0x51], spk_Version = 0\<rparr>,
       utxo_BlockDAAScore = 5, utxo_IsCoinbase = True\<rparr>\<rparr>"

definition valid_spend :: DomainTransaction where
  "valid_spend = (sample_spend [0x51])\<lparr>tx_Inputs := [sample_input], tx_Payload := []\<rparr>"

definition sample_daa :: daaBlocksStore where
  "sample_daa = \<lparr>daa_DAAScore = (\<lambda>_. Some 200), daa_DAAAddedBlocks = (\<lambda>_. None)\<rparr>"

lemma sample_validator_ok: "validator_ok sample_env sample_validator"
  by (simp add: validator_ok_def sample_validator_def)

lemma valid_spend_accepted:
  "ValidateTransactionInIsolation sample_validator valid_spend 0 = Inr ()"
  "\<exists>tx' v'. ValidateTransactionInContextAndPopulateFee sample_env sample_validator sample_daa valid_spend [] = Inr (tx', v')"
proof -
  show "ValidateTransactionInIsolation sample_validator valid_spend 0 = Inr ()" by code_simp
  have "(case ValidateTransactionInContextAndPopulateFee sample_env sample_validator sample_daa valid_spend [] of
      Inl e \<Rightarrow> False | Inr (tx', v') \<Rightarrow> True)"
    by code_simp
  then show "\<exists>tx' v'. ValidateTransactionInContextAndPopulateFee sample_env sample_validator sample_daa valid_spend [] = Inr (tx', v')"
    by (auto split: sum.splits)
qed

theorem isolation_accepts_witness:
  "ValidateTransactionInIsolation sample_validator valid_spend 0 = Inr () \<and> tx_Inputs valid_spend \<noteq> [] \<and> totalOut valid_spend \<le> 29 * 10 ^ 17"
  using isolation_accepts [of sample_validator valid_spend 0] valid_spend_accepted(1) by (simp add: valid_spend_def)

theorem validated_transaction_sound_witness:
  "\<exists>tx' v'. ValidateTransactionInContextAndPopulateFee sample_env sample_validator sample_daa valid_spend [] = Inr (tx', v') \<and>
     tx_Fee tx' = 3 \<and> unlocked sample_env tx' 0 \<lparr>spk_Script = [0x51], spk_Version = 0\<rparr>"
proof -
  obtain tx' v' where v: "ValidateTransactionInContextAndPopulateFee sample_env sample_validator sample_daa valid_spend [] = Inr (tx', v')"
    using valid_spend_accepted(2) by blast
  have t: "totalIn valid_spend = 12" "totalOut valid_spend = 9" by code_simp+
  from validated_transaction_sound [OF sample_env_ok sample_validator_ok valid_spend_accepted(1) v]
  have "unat (tx_Fee tx') = 3" "unlocked sample_env tx' 0 \<lparr>spk_Script = [0x51], spk_Version = 0\<rparr>"
    unfolding t by (auto simp: Let_def valid_spend_def sample_input_def)
  then have "tx_Fee tx' = 3" by (simp add: word_unat_eq_iff)
  with v \<open>unlocked sample_env tx' 0 _\<close> show ?thesis by blast
qed

theorem validation_never_panics_witness:
  "ValidateTransactionInContextAndPopulateFee sample_env sample_validator sample_daa (valid_spend\<lparr>tx_Inputs := [sample_input\<lparr>in_UTXOEntry := None\<rparr>]\<rparr>) [] \<noteq> Inl Panicked"
  using validation_never_panics [OF sample_env_ok sample_validator_ok] by blast

theorem sequence_locks_expired_witness:
  "checkTransactionSequenceLock sample_daa [] (valid_spend\<lparr>tx_Inputs := [sample_input\<lparr>in_Sequence := 195\<rparr>]\<rparr>) = Inr () \<and>
   checkTransactionSequenceLock sample_daa [] (valid_spend\<lparr>tx_Inputs := [sample_input\<lparr>in_Sequence := 196\<rparr>]\<rparr>) = ruleErr ErrUnfinalizedTx"
proof -
  have c: "\<not> IsCoinBase (valid_spend\<lparr>tx_Inputs := ins\<rparr>)" for ins by code_simp
  have p: "populated (valid_spend\<lparr>tx_Inputs := [sample_input\<lparr>in_Sequence := s\<rparr>]\<rparr>)" for s by (simp add: populated_def sample_input_def)
  have d: "daa_DAAScore sample_daa [] = Some 200" by (simp add: sample_daa_def)
  show ?thesis
    using sequence_locks_expired [OF c p d, of 195] sequence_locks_expired [OF c p d, of 196] by (simp add: sample_input_def)
qed

end
