(* ===== verification/Coinbase.thy ===== *)
theory Coinbase
  imports TxValidator
begin

text \<open>
  The coinbase manager (\<^verbatim>\<open>domain/consensus/processes/coinbasemanager\<close>): the payload of a coinbase
  transaction, the block subsidy and the coinbase transaction that a block has to have. The stores
  are maps from block hashes, which fail only when they have no data for the hash. The calculation of
  a subsidy with floating-point numbers is used only to build the table and is not modelled.
\<close>

section \<open>Data\<close>

record DomainCoinbaseData =
  cb_ScriptPublicKey :: ScriptPublicKey
  cb_ExtraData :: bytes

record TransactionAcceptanceData =
  ta_Transaction :: DomainTransaction
  ta_Fee :: uint64
  ta_IsAccepted :: bool
  ta_TransactionInputUTXOEntries :: "UTXOEntry list"

record BlockAcceptanceData =
  ba_BlockHash :: DomainHash
  ba_TransactionAcceptanceData :: "TransactionAcceptanceData list"

type_synonym AcceptanceData = "BlockAcceptanceData list"

text \<open>The GHOSTDAG data is stored apart for blocks with trusted data, which is the boolean.\<close>

record coinbaseManager =
  cm_subsidyGenesisReward :: uint64
  cm_preDeflationaryPhaseBaseSubsidy :: uint64
  cm_coinbasePayloadScriptPublicKeyMaxLength :: byte
  cm_genesisHash :: DomainHash
  cm_deflationaryPhaseDaaScore :: uint64
  cm_deflationaryPhaseBaseSubsidy :: uint64
  cm_ghostdagDataStore :: "bool \<Rightarrow> DomainHash \<rightharpoonup> BlockGHOSTDAGData"
  cm_acceptanceDataStore :: "DomainHash \<rightharpoonup> AcceptanceData"
  cm_daaBlocksStore :: daaBlocksStore
  cm_blockStore :: "DomainHash \<rightharpoonup> DomainBlock"

section \<open>The payload\<close>

definition payloadTail :: "DomainCoinbaseData \<Rightarrow> bytes" where
  "payloadTail coinbaseData =
     PutUint16 (spk_Version (cb_ScriptPublicKey coinbaseData)) @
     [word_of_nat (length (spk_Script (cb_ScriptPublicKey coinbaseData)))] @
     spk_Script (cb_ScriptPublicKey coinbaseData) @ cb_ExtraData coinbaseData"

definition serializeCoinbasePayload :: "coinbaseManager \<Rightarrow> uint64 \<Rightarrow> DomainCoinbaseData \<Rightarrow> uint64 \<Rightarrow> bytes validated" where
  "serializeCoinbasePayload c blueScore coinbaseData subsidy =
     (if length (spk_Script (cb_ScriptPublicKey coinbaseData)) > unat (cm_coinbasePayloadScriptPublicKeyMaxLength c)
      then ruleErr ErrBadCoinbasePayloadLen
      else Inr (PutUint64 blueScore @ PutUint64 subsidy @ payloadTail coinbaseData))"

text \<open>
  The payload keeps its first 16 bytes; when its length changes they are copied, which panics if
  there are fewer of them.
\<close>

definition ModifyCoinbasePayload :: "bytes \<Rightarrow> DomainCoinbaseData \<Rightarrow> byte \<Rightarrow> bytes validated" where
  "ModifyCoinbasePayload payload coinbaseData coinbasePayloadScriptPublicKeyMaxLength =
     (let scriptLength = length (spk_Script (cb_ScriptPublicKey coinbaseData));
          newPayloadLen = 8 + 2 + 1 + scriptLength + length (cb_ExtraData coinbaseData) + 8
      in if scriptLength > unat coinbasePayloadScriptPublicKeyMaxLength then ruleErr ErrBadCoinbasePayloadLen
         else if length payload \<noteq> newPayloadLen \<and> length payload < 16 then Inl Panicked
         else Inr (take 16 payload @ payloadTail coinbaseData))"

text \<open>The end of the script is computed in \<^verbatim>\<open>uint8\<close>, as the length of the script is one.\<close>

definition ExtractCoinbaseDataBlueScoreAndSubsidy ::
  "coinbaseManager \<Rightarrow> DomainTransaction \<Rightarrow> (uint64 \<times> DomainCoinbaseData \<times> uint64) validated" where
  "ExtractCoinbaseDataBlueScoreAndSubsidy c coinbaseTx =
     (let payload = tx_Payload coinbaseTx; minLength = 8 + 8 + 2 + 1
      in if length payload < minLength then ruleErr ErrBadCoinbasePayloadLen
         else let blueScore = word_of_nat (getLE (take 8 payload));
                  subsidy = word_of_nat (getLE (slice 8 16 payload));
                  scriptPubKeyVersion = word_of_nat (getLE (slice 16 18 payload));
                  scriptPubKeyScriptLength = payload ! 18
              in if scriptPubKeyScriptLength > cm_coinbasePayloadScriptPublicKeyMaxLength c then ruleErr ErrBadCoinbasePayloadLen
                 else if length payload < minLength + unat scriptPubKeyScriptLength then ruleErr ErrBadCoinbasePayloadLen
                 else let scriptEnd = unat (19 + scriptPubKeyScriptLength :: byte)
                      in if scriptEnd < 19 \<or> length payload < scriptEnd then Inl Panicked
                         else Inr (blueScore,
                           \<lparr>cb_ScriptPublicKey = \<lparr>spk_Script = slice 19 scriptEnd payload, spk_Version = scriptPubKeyVersion\<rparr>,
                            cb_ExtraData = drop scriptEnd payload\<rparr>, subsidy))"

section \<open>The subsidy\<close>

definition subsidyByDeflationaryMonthTable :: "uint64 list" where
  "subsidyByDeflationaryMonthTable =
    [44000000000, 41530469757, 39199543598, 36999442271, 34922823143, 32962755691, 31112698372, 29366476791,
     27718263097, 26162556530, 24694165062, 23308188075, 22000000000, 20765234878, 19599771799, 18499721135,
     17461411571, 16481377845, 15556349186, 14683238395, 13859131548, 13081278265, 12347082531, 11654094037,
     11000000000,
     10382617439, 9799885899, 9249860567, 8730705785, 8240688922, 7778174593, 7341619197, 6929565774, 6540639132,
     6173541265, 5827047018, 5500000000, 5191308719, 4899942949, 4624930283, 4365352892, 4120344461, 3889087296,
     3670809598, 3464782887, 3270319566, 3086770632, 2913523509, 2750000000, 2595654359,
     2449971474, 2312465141, 2182676446, 2060172230, 1944543648, 1835404799, 1732391443, 1635159783, 1543385316,
     1456761754, 1375000000, 1297827179, 1224985737, 1156232570, 1091338223, 1030086115, 972271824, 917702399,
     866195721, 817579891, 771692658, 728380877, 687500000, 648913589, 612492868,
     578116285, 545669111, 515043057, 486135912, 458851199, 433097860, 408789945, 385846329, 364190438, 343750000,
     324456794, 306246434, 289058142, 272834555, 257521528, 243067956, 229425599, 216548930, 204394972, 192923164,
     182095219, 171875000, 162228397, 153123217, 144529071,
     136417277, 128760764, 121533978, 114712799, 108274465, 102197486, 96461582, 91047609, 85937500, 81114198,
     76561608, 72264535, 68208638, 64380382, 60766989, 57356399, 54137232, 51098743, 48230791, 45523804, 42968750,
     40557099, 38280804, 36132267, 34104319,
     32190191, 30383494, 28678199, 27068616, 25549371, 24115395, 22761902, 21484375, 20278549, 19140402, 18066133,
     17052159, 16095095, 15191747, 14339099, 13534308, 12774685, 12057697, 11380951, 10742187, 10139274, 9570201,
     9033066, 8526079, 8047547,
     7595873, 7169549, 6767154, 6387342, 6028848, 5690475, 5371093, 5069637, 4785100, 4516533, 4263039, 4023773,
     3797936, 3584774, 3383577, 3193671, 3014424, 2845237, 2685546, 2534818, 2392550, 2258266, 2131519, 2011886,
     1898968,
     1792387, 1691788, 1596835, 1507212, 1422618, 1342773, 1267409, 1196275, 1129133, 1065759, 1005943, 949484,
     896193, 845894, 798417, 753606, 711309, 671386, 633704, 598137, 564566, 532879, 502971, 474742, 448096,
     422947, 399208, 376803, 355654, 335693, 316852, 299068, 282283, 266439, 251485, 237371, 224048, 211473, 199604,
     188401, 177827, 167846, 158426, 149534, 141141, 133219, 125742, 118685, 112024, 105736,
     99802, 94200, 88913, 83923, 79213, 74767, 70570, 66609, 62871, 59342, 56012, 52868, 49901, 47100, 44456, 41961,
     39606, 37383, 35285, 33304, 31435, 29671, 28006, 26434, 24950,
     23550, 22228, 20980, 19803, 18691, 17642, 16652, 15717, 14835, 14003, 13217, 12475, 11775, 11114, 10490, 9901,
     9345, 8821, 8326, 7858, 7417, 7001, 6608, 6237, 5887,
     5557, 5245, 4950, 4672, 4410, 4163, 3929, 3708, 3500, 3304, 3118, 2943, 2778, 2622, 2475, 2336, 2205, 2081,
     1964, 1854, 1750, 1652, 1559, 1471, 1389,
     1311, 1237, 1168, 1102, 1040, 982, 927, 875, 826, 779, 735, 694, 655, 618, 584, 551, 520, 491, 463, 437, 413,
     389, 367, 347, 327,
     309, 292, 275, 260, 245, 231, 218, 206, 194, 183, 173, 163, 154, 146, 137, 130, 122, 115, 109, 103, 97, 91, 86,
     81, 77,
     73, 68, 65, 61, 57, 54, 51, 48, 45, 43, 40, 38, 36, 34, 32, 30, 28, 27, 25, 24, 22, 21, 20, 19, 18,
     17, 16, 15, 14, 13, 12, 12, 11, 10, 10, 9, 9, 8, 8, 7, 7, 6, 6, 6, 5, 5, 5, 4, 4, 4,
     4, 3, 3, 3, 3, 3, 2, 2, 2, 2, 2, 2, 2, 1, 1, 1, 1, 1, 1, 1, 1, 1, 1, 1, 1,
     0]"

definition getDeflationaryPeriodBlockSubsidyFromTable :: "uint64 \<Rightarrow> uint64" where
  "getDeflationaryPeriodBlockSubsidyFromTable month =
     (let month = (if month \<ge> len64 subsidyByDeflationaryMonthTable then word_of_nat (length subsidyByDeflationaryMonthTable - 1) else month)
      in subsidyByDeflationaryMonthTable ! unat month)"

definition secondsPerMonth :: uint64 where "secondsPerMonth = 2629800"

definition calcDeflationaryPeriodBlockSubsidy :: "coinbaseManager \<Rightarrow> uint64 \<Rightarrow> uint64" where
  "calcDeflationaryPeriodBlockSubsidy c blockDaaScore =
     (let monthsSinceDeflationaryPhaseStarted = (blockDaaScore - cm_deflationaryPhaseDaaScore c) div secondsPerMonth
      in getDeflationaryPeriodBlockSubsidyFromTable monthsSinceDeflationaryPhaseStarted)"

definition CalcBlockSubsidy :: "coinbaseManager \<Rightarrow> DomainHash \<Rightarrow> uint64 validated" where
  "CalcBlockSubsidy c blockHash =
     (if blockHash = cm_genesisHash c then Inr (cm_subsidyGenesisReward c)
      else bindR (passOn (fromStore (daa_DAAScore (cm_daaBlocksStore c)) blockHash)) (\<lambda>blockDaaScore.
        if blockDaaScore < cm_deflationaryPhaseDaaScore c then Inr (cm_preDeflationaryPhaseBaseSubsidy c)
        else Inr (calcDeflationaryPeriodBlockSubsidy c blockDaaScore)))"

text \<open>The parameters of the network (\<^verbatim>\<open>domain/dagconfig/consensus_defaults.go\<close>).\<close>

definition defaultPreDeflationaryPhaseBaseSubsidy :: uint64 where "defaultPreDeflationaryPhaseBaseSubsidy = 500 * SompiPerC4ex"
definition defaultDeflationaryPhaseDaaScore :: uint64 where "defaultDeflationaryPhaseDaaScore = 15778800 - 259200"

section \<open>The expected coinbase transaction\<close>

definition daaAddedBlocksSet :: "coinbaseManager \<Rightarrow> DomainHash \<Rightarrow> DomainHash list validated" where
  "daaAddedBlocksSet c blockHash = passOn (fromStore (daa_DAAAddedBlocks (cm_daaBlocksStore c)) blockHash)"

text \<open>A later element of the array replaces an earlier one with the same block hash.\<close>

definition acceptanceDataFromArrayToMap :: "AcceptanceData \<Rightarrow> DomainHash \<rightharpoonup> BlockAcceptanceData" where
  "acceptanceDataFromArrayToMap acceptanceData = foldl (\<lambda>m d. m(ba_BlockHash d \<mapsto> d)) Map.empty acceptanceData"

definition calcMergedBlockReward ::
  "coinbaseManager \<Rightarrow> DomainHash \<Rightarrow> BlockAcceptanceData option \<Rightarrow> DomainHash list \<Rightarrow> uint64 validated" where
  "calcMergedBlockReward c blockHash blockAcceptanceData mergingBlockDAAAddedBlocksSet =
     (case blockAcceptanceData of
        None \<Rightarrow> Inl Panicked
      | Some acceptance \<Rightarrow>
          if blockHash \<noteq> ba_BlockHash acceptance then Inl OtherError
          else if blockHash \<notin> set mergingBlockDAAAddedBlocksSet then Inr 0
          else let totalFees = foldl (\<lambda>totalFees txAcceptanceData.
                     if ta_IsAccepted txAcceptanceData then totalFees + ta_Fee txAcceptanceData else totalFees)
                     0 (ba_TransactionAcceptanceData acceptance)
               in bindR (passOn (fromStore (cm_blockStore c) blockHash)) (\<lambda>block.
                    case block_Transactions block of
                      [] \<Rightarrow> Inl Panicked
                    | coinbaseTx # _ \<Rightarrow> bindR (ExtractCoinbaseDataBlueScoreAndSubsidy c coinbaseTx) (\<lambda>(_, _, subsidy).
                        Inr (subsidy + totalFees))))"

definition coinbaseOutputForBlueBlock ::
  "coinbaseManager \<Rightarrow> DomainHash \<Rightarrow> BlockAcceptanceData option \<Rightarrow> DomainHash list \<Rightarrow> DomainTransactionOutput option validated" where
  "coinbaseOutputForBlueBlock c blueBlock blockAcceptanceData mergingBlockDAAAddedBlocksSet =
     bindR (calcMergedBlockReward c blueBlock blockAcceptanceData mergingBlockDAAAddedBlocksSet) (\<lambda>blockReward.
       if blockReward = 0 then Inr None
       else case ba_TransactionAcceptanceData (the blockAcceptanceData) of
              [] \<Rightarrow> Inl Panicked
            | first # _ \<Rightarrow> bindR (ExtractCoinbaseDataBlueScoreAndSubsidy c (ta_Transaction first)) (\<lambda>(_, coinbaseData, _).
                Inr (Some \<lparr>out_Value = blockReward, out_ScriptPublicKey = cb_ScriptPublicKey coinbaseData\<rparr>)))"

fun redRewardsLoop ::
  "coinbaseManager \<Rightarrow> (DomainHash \<rightharpoonup> BlockAcceptanceData) \<Rightarrow> DomainHash list \<Rightarrow> uint64 \<Rightarrow> DomainHash list \<Rightarrow> uint64 validated" where
  "redRewardsLoop c acceptanceDataMap daaAdded totalReward [] = Inr totalReward"
| "redRewardsLoop c acceptanceDataMap daaAdded totalReward (red # reds) =
     bindR (calcMergedBlockReward c red (acceptanceDataMap red) daaAdded) (\<lambda>reward.
       redRewardsLoop c acceptanceDataMap daaAdded (totalReward + reward) reds)"

definition coinbaseOutputForRewardFromRedBlocks ::
  "coinbaseManager \<Rightarrow> BlockGHOSTDAGData \<Rightarrow> AcceptanceData \<Rightarrow> DomainHash list \<Rightarrow> DomainCoinbaseData \<Rightarrow> DomainTransactionOutput option validated" where
  "coinbaseOutputForRewardFromRedBlocks c ghostdagData acceptanceData daaAdded coinbaseData =
     bindR (redRewardsLoop c (acceptanceDataFromArrayToMap acceptanceData) daaAdded 0 (gd_mergeSetReds ghostdagData)) (\<lambda>totalReward.
       Inr (if totalReward = 0 then None
            else Some \<lparr>out_Value = totalReward, out_ScriptPublicKey = cb_ScriptPublicKey coinbaseData\<rparr>))"

fun blueOutputsLoop ::
  "coinbaseManager \<Rightarrow> (DomainHash \<rightharpoonup> BlockAcceptanceData) \<Rightarrow> DomainHash list \<Rightarrow> DomainTransactionOutput list \<Rightarrow> DomainHash list \<Rightarrow>
     DomainTransactionOutput list validated" where
  "blueOutputsLoop c acceptanceDataMap daaAdded txOuts [] = Inr txOuts"
| "blueOutputsLoop c acceptanceDataMap daaAdded txOuts (blue # blues) =
     bindR (coinbaseOutputForBlueBlock c blue (acceptanceDataMap blue) daaAdded) (\<lambda>txOut.
       blueOutputsLoop c acceptanceDataMap daaAdded (case txOut of None \<Rightarrow> txOuts | Some out \<Rightarrow> txOuts @ [out]) blues)"

text \<open>GHOSTDAG data with trusted data is preferred.\<close>

definition coinbaseGHOSTDAGData :: "coinbaseManager \<Rightarrow> DomainHash \<Rightarrow> BlockGHOSTDAGData validated" where
  "coinbaseGHOSTDAGData c blockHash =
     (case cm_ghostdagDataStore c True blockHash of
        Some ghostdagData \<Rightarrow> Inr ghostdagData
      | None \<Rightarrow> passOn (fromStore (cm_ghostdagDataStore c False) blockHash))"

definition ExpectedCoinbaseTransaction ::
  "coinbaseManager \<Rightarrow> DomainHash \<Rightarrow> DomainCoinbaseData \<Rightarrow> (DomainTransaction \<times> bool) validated" where
  "ExpectedCoinbaseTransaction c blockHash coinbaseData =
     bindR (coinbaseGHOSTDAGData c blockHash) (\<lambda>ghostdagData.
     bindR (passOn (fromStore (cm_acceptanceDataStore c) blockHash)) (\<lambda>acceptanceData.
     bindR (daaAddedBlocksSet c blockHash) (\<lambda>daaAdded.
     bindR (blueOutputsLoop c (acceptanceDataFromArrayToMap acceptanceData) daaAdded [] (gd_mergeSetBlues ghostdagData)) (\<lambda>txOuts.
     bindR (coinbaseOutputForRewardFromRedBlocks c ghostdagData acceptanceData daaAdded coinbaseData) (\<lambda>redOut.
     bindR (CalcBlockSubsidy c blockHash) (\<lambda>subsidy.
     bindR (serializeCoinbasePayload c (gd_blueScore ghostdagData) coinbaseData subsidy) (\<lambda>payload.
       Inr (\<lparr>tx_Version = MaxTransactionVersion, tx_Inputs = [],
             tx_Outputs = (case redOut of None \<Rightarrow> txOuts | Some out \<Rightarrow> txOuts @ [out]),
             tx_LockTime = 0, tx_SubnetworkID = SubnetworkIDCoinbase, tx_Gas = 0, tx_Payload = payload,
             tx_Fee = 0, tx_Mass = 0, tx_ID = None\<rparr>, redOut \<noteq> None))))))))"

section \<open>The payload reads back\<close>

lemma payload_split:
  assumes "length payload \<ge> 19"
  obtains a b c d r where "payload = a @ b @ c @ d # r" "length a = 8" "length b = 8" "length c = 2"
proof -
  have "drop 16 payload = drop 8 (drop 8 payload)" "drop 18 payload = drop 2 (drop 16 payload)" by simp_all
  then have "payload = take 8 payload @ take 8 (drop 8 payload) @ take 2 (drop 16 payload) @ drop 18 payload"
    by (metis append_take_drop_id)
  moreover obtain d r where "drop 18 payload = d # r" using assms by (cases "drop 18 payload") auto
  ultimately show thesis using assms by (intro that [of "take 8 payload" "take 8 (drop 8 payload)" "take 2 (drop 16 payload)" d r]) simp_all
qed

text \<open>Lengths up to 236 do not wrap around.\<close>

lemma script_end: "d \<le> 236 \<Longrightarrow> unat (19 + d :: byte) = 19 + unat d"
  by (simp add: unat_word_ariths(1) word_le_nat_alt)

lemma Extract_split:
  assumes "tx_Payload tx = a @ b @ c @ d # r" "length a = 8" "length b = 8" "length c = 2"
    and "cm_coinbasePayloadScriptPublicKeyMaxLength cm \<le> 236"
  shows "ExtractCoinbaseDataBlueScoreAndSubsidy cm tx =
    (if d > cm_coinbasePayloadScriptPublicKeyMaxLength cm \<or> length r < unat d then ruleErr ErrBadCoinbasePayloadLen
     else Inr (word_of_nat (getLE a), \<lparr>cb_ScriptPublicKey = \<lparr>spk_Script = take (unat d) r, spk_Version = word_of_nat (getLE c)\<rparr>,
       cb_ExtraData = drop (unat d) r\<rparr>, word_of_nat (getLE b)))"
proof (cases "d > cm_coinbasePayloadScriptPublicKeyMaxLength cm")
  case False
  then have e: "unat (19 + d :: byte) = 19 + unat d" using assms(5) by (intro script_end) simp
  have d: "tx_Payload tx ! 18 = d" using assms(1-4) by (simp add: nth_append)
  have s: "slice 8 16 (tx_Payload tx) = b" "slice 16 18 (tx_Payload tx) = c" "slice 19 (19 + unat d) (tx_Payload tx) = take (unat d) r"
    "drop (19 + unat d) (tx_Payload tx) = drop (unat d) r" "take 8 (tx_Payload tx) = a" "length (tx_Payload tx) = 19 + length r"
    using assms(1-4) by (simp_all add: slice_def)
  show ?thesis using False by (simp add: ExtractCoinbaseDataBlueScoreAndSubsidy_def Let_def d e s)
next
  case True
  have "tx_Payload tx ! 18 = d" using assms(1-4) by (simp add: nth_append)
  with True show ?thesis using assms(1-4) by (simp add: ExtractCoinbaseDataBlueScoreAndSubsidy_def Let_def)
qed

lemma Extract_short: "length (tx_Payload tx) < 19 \<Longrightarrow> ExtractCoinbaseDataBlueScoreAndSubsidy cm tx = ruleErr ErrBadCoinbasePayloadLen"
  by (simp add: ExtractCoinbaseDataBlueScoreAndSubsidy_def)

lemma payload_iff:
  assumes "cm_coinbasePayloadScriptPublicKeyMaxLength cm \<le> 236"
  shows "(serializeCoinbasePayload cm blueScore coinbaseData subsidy = Inr (tx_Payload tx) \<longleftrightarrow>
      ExtractCoinbaseDataBlueScoreAndSubsidy cm tx = Inr (blueScore, coinbaseData, subsidy)) \<and>
    ExtractCoinbaseDataBlueScoreAndSubsidy cm tx \<noteq> Inl Panicked"
proof (cases "length (tx_Payload tx) < 19")
  case True
  then have "serializeCoinbasePayload cm blueScore coinbaseData subsidy \<noteq> Inr (tx_Payload tx)"
    by (auto simp: serializeCoinbasePayload_def payloadTail_def dest: arg_cong [of _ "tx_Payload tx" length])
  with True show ?thesis by (simp add: Extract_short)
next
  case False
  then obtain a b c d r where p: "tx_Payload tx = a @ b @ c @ d # r" and l: "length a = 8" "length b = 8" "length c = 2"
    by (auto elim: payload_split [OF leI])
  note ex = Extract_split [OF p l assms]
  let ?s = "spk_Script (cb_ScriptPublicKey coinbaseData)"
  have len: "length ?s \<le> unat (cm_coinbasePayloadScriptPublicKeyMaxLength cm) \<Longrightarrow> unat (word_of_nat (length ?s) :: byte) = length ?s"
    by (drule le_less_trans [OF _ unat_byte_less]) (simp add: unat_of_nat)
  have "serializeCoinbasePayload cm blueScore coinbaseData subsidy = Inr (tx_Payload tx) \<longleftrightarrow>
      length ?s \<le> unat (cm_coinbasePayloadScriptPublicKeyMaxLength cm) \<and> a = PutUint64 blueScore \<and> b = PutUint64 subsidy \<and>
      c = PutUint16 (spk_Version (cb_ScriptPublicKey coinbaseData)) \<and> d = word_of_nat (length ?s) \<and> r = ?s @ cb_ExtraData coinbaseData"
    using l by (auto simp: serializeCoinbasePayload_def payloadTail_def p)
  also have "\<dots> \<longleftrightarrow> ExtractCoinbaseDataBlueScoreAndSubsidy cm tx = Inr (blueScore, coinbaseData, subsidy)"
  proof -
    have put: "x = PutUint64 y \<longleftrightarrow> word_of_nat (getLE x) = y" if "length x = 8" for x y using put_word_of_getLE(3) [OF that] by auto
    have put2: "c = PutUint16 y \<longleftrightarrow> word_of_nat (getLE c) = y" for y using put_word_of_getLE(1) [OF l(3)] by auto
    have eq: "\<lparr>cb_ScriptPublicKey = \<lparr>spk_Script = x, spk_Version = y\<rparr>, cb_ExtraData = z\<rparr> = coinbaseData \<longleftrightarrow>
        x = ?s \<and> y = spk_Version (cb_ScriptPublicKey coinbaseData) \<and> z = cb_ExtraData coinbaseData" for x y z
      by (auto intro!: DomainCoinbaseData.equality ScriptPublicKey.equality)
    have "length ?s \<le> unat (cm_coinbasePayloadScriptPublicKeyMaxLength cm) \<and> d = word_of_nat (length ?s) \<and> r = ?s @ cb_ExtraData coinbaseData \<longleftrightarrow>
        d \<le> cm_coinbasePayloadScriptPublicKeyMaxLength cm \<and> unat d \<le> length r \<and> take (unat d) r = ?s \<and> drop (unat d) r = cb_ExtraData coinbaseData"
      (is "?l \<longleftrightarrow> ?r")
    proof
      assume ?l
      with len show ?r by (auto simp: word_le_nat_alt)
    next
      assume r: ?r
      then have "length ?s = unat d" by (metis length_take min.absorb2)
      moreover from r have "r = ?s @ cb_ExtraData coinbaseData" by (metis append_take_drop_id)
      ultimately show ?l using r by (simp add: word_le_nat_alt)
    qed
    then show ?thesis unfolding ex put [OF l(1)] put [OF l(2)] put2 by (auto simp: eq not_less)
  qed
  finally show ?thesis by (simp add: ex)
qed

text \<open>
  C17: The payload of a coinbase is read exactly as it was written: with a maximal script length of at most
  236, a payload is the serialization of a blue score, coinbase data and a subsidy if and only if
  extraction returns these. So the payloads that are accepted are those that serialization makes,
  and extraction never panics on any payload.
\<close>

theorem coinbase_payload_roundtrip:
  assumes "cm_coinbasePayloadScriptPublicKeyMaxLength cm \<le> 236"
  shows "(serializeCoinbasePayload cm blueScore coinbaseData subsidy = Inr (tx_Payload tx) \<longleftrightarrow>
      ExtractCoinbaseDataBlueScoreAndSubsidy cm tx = Inr (blueScore, coinbaseData, subsidy)) \<and>
    ExtractCoinbaseDataBlueScoreAndSubsidy cm tx \<noteq> Inl Panicked"
  using assms by (rule payload_iff)

section \<open>Emission\<close>

lemma table_length: "length subsidyByDeflationaryMonthTable = 426"
  by (simp add: subsidyByDeflationaryMonthTable_def)

lemma table_halves: "list_all2 (\<lambda>x y. unat x = 2 * unat y \<or> unat x = 2 * unat y + 1)
    (take 414 subsidyByDeflationaryMonthTable) (drop 12 subsidyByDeflationaryMonthTable)"
  by (simp add: subsidyByDeflationaryMonthTable_def)

lemma table_sum: "(\<Sum>x\<leftarrow>subsidyByDeflationaryMonthTable. unat x) = 783954764543"
  by (simp add: subsidyByDeflationaryMonthTable_def)

lemma table_end: "list_all (\<lambda>x. unat x \<le> 1) (drop 413 subsidyByDeflationaryMonthTable)" "subsidyByDeflationaryMonthTable ! 425 = 0"
  by (simp_all add: subsidyByDeflationaryMonthTable_def)

text \<open>The subsidy of a month and of a DAA score, as natural numbers.\<close>

definition monthSubsidy :: "nat \<Rightarrow> nat" where
  "monthSubsidy m = (if m < 426 then unat (subsidyByDeflationaryMonthTable ! m) else 0)"

definition scoreSubsidy :: "nat \<Rightarrow> nat" where
  "scoreSubsidy n = (if n < 15519600 then 50000000000 else monthSubsidy ((n - 15519600) div 2629800))"

lemma getDeflationaryPeriodBlockSubsidyFromTable_month: "unat (getDeflationaryPeriodBlockSubsidyFromTable m) = monthSubsidy (unat m)"
  using table_end(2)
  by (auto simp: getDeflationaryPeriodBlockSubsidyFromTable_def monthSubsidy_def table_length len64_def word_le_nat_alt)

lemma monthSubsidy_year: "monthSubsidy (m + 12) = monthSubsidy m div 2"
proof (cases "m < 414")
  case True
  then have "unat (subsidyByDeflationaryMonthTable ! m) div 2 = unat (subsidyByDeflationaryMonthTable ! (m + 12))"
    using list_all2_nthD [OF table_halves, of m] by (auto simp: table_length add.commute)
  with True show ?thesis by (simp add: monthSubsidy_def)
next
  case False
  then have "m < 426 \<longrightarrow> unat (subsidyByDeflationaryMonthTable ! m) < 2"
    using table_end(1) by (auto simp: list_all_length table_length dest!: spec [of _ "m - 413"])
  with False show ?thesis by (simp add: monthSubsidy_def)
qed

lemma sum_monthSubsidy: "(\<Sum>m<426. monthSubsidy m) = 783954764543"
proof -
  have "(\<Sum>m<426. monthSubsidy m) = (\<Sum>m<426. unat (subsidyByDeflationaryMonthTable ! m))" by (simp add: monthSubsidy_def)
  also have "\<dots> = (\<Sum>x\<leftarrow>subsidyByDeflationaryMonthTable. unat x)"
    by (simp add: sum_list_sum_nth table_length atLeast0LessThan)
  finally show ?thesis by (simp only: table_sum)
qed

lemma sum_lessThan_split: "(\<Sum>n<a + b. f n) = (\<Sum>n<a. f n) + (\<Sum>n<b. f (a + n))" for f :: "nat \<Rightarrow> nat"
  by (induction b) simp_all

lemma sum_scoreSubsidy:
  assumes "finite S"
  shows "(\<Sum>n\<in>S. scoreSubsidy n) \<le> 15519600 * 50000000000 + 2629800 * 783954764543"
proof -
  let ?N = "426 * 2629800 :: nat"
  have zero: "scoreSubsidy n = 0" if "\<not> n < 15519600 + ?N" for n
    using that by (auto simp: scoreSubsidy_def monthSubsidy_def div_less_iff_less_mult)
  have "(\<Sum>n\<in>S. scoreSubsidy n) \<le> (\<Sum>n\<in>{..<15519600 + ?N}. scoreSubsidy n)"
  proof -
    have "(\<Sum>n\<in>S. scoreSubsidy n) = (\<Sum>n\<in>S \<inter> {..<15519600 + ?N}. scoreSubsidy n)"
      using assms zero by (intro sum.mono_neutral_right) auto
    also have "\<dots> \<le> (\<Sum>n\<in>{..<15519600 + ?N}. scoreSubsidy n)" by (intro sum_mono2) auto
    finally show ?thesis .
  qed
  also have "\<dots> = (\<Sum>n<15519600. scoreSubsidy n) + (\<Sum>n<?N. scoreSubsidy (15519600 + n))"
    by (rule sum_lessThan_split)
  also have "(\<Sum>n<15519600. scoreSubsidy n) = 15519600 * 50000000000" by (simp add: scoreSubsidy_def)
  also have "(\<Sum>n<?N. scoreSubsidy (15519600 + n)) = (\<Sum>n<?N. monthSubsidy (n div 2629800))" by (simp only: scoreSubsidy_def) simp
  also have "\<dots> = (\<Sum>m<426. \<Sum>n\<in>{m * 2629800..<m * 2629800 + 2629800}. monthSubsidy (n div 2629800))"
    by (rule sum.nat_group [symmetric])
  also have "\<dots> = (\<Sum>m<426. 2629800 * monthSubsidy m)"
  proof (intro sum.cong refl)
    fix m :: nat
    have "(\<Sum>n\<in>{m * 2629800..<m * 2629800 + 2629800}. monthSubsidy (n div 2629800)) = (\<Sum>n\<in>{m * 2629800..<m * 2629800 + 2629800}. monthSubsidy m)"
      by (intro sum.cong refl arg_cong [of _ _ monthSubsidy]) (simp add: div_nat_eqI mult.commute)
    then show "(\<Sum>n\<in>{m * 2629800..<m * 2629800 + 2629800}. monthSubsidy (n div 2629800)) = 2629800 * monthSubsidy m" by simp
  qed
  also have "\<dots> = 2629800 * 783954764543" by (simp only: sum_distrib_left [symmetric] sum_monthSubsidy)
  finally show ?thesis .
qed

lemma CalcBlockSubsidy_score:
  assumes "cm_preDeflationaryPhaseBaseSubsidy c = defaultPreDeflationaryPhaseBaseSubsidy"
    and "cm_deflationaryPhaseDaaScore c = defaultDeflationaryPhaseDaaScore"
    and "CalcBlockSubsidy c b = Inr x" "b \<noteq> cm_genesisHash c"
  shows "\<exists>s. daa_DAAScore (cm_daaBlocksStore c) b = Some s \<and> unat x = scoreSubsidy (unat s)"
proof -
  from assms(3,4) obtain s where s: "daa_DAAScore (cm_daaBlocksStore c) b = Some s"
    and x: "x = (if s < cm_deflationaryPhaseDaaScore c then cm_preDeflationaryPhaseBaseSubsidy c else calcDeflationaryPeriodBlockSubsidy c s)"
    by (auto simp: CalcBlockSubsidy_def bindR_Inr_iff fromStore_def split: option.splits if_splits)
  have "unat x = scoreSubsidy (unat s)"
    unfolding x assms(1,2)
    by (auto simp: scoreSubsidy_def defaultPreDeflationaryPhaseBaseSubsidy_def defaultDeflationaryPhaseDaaScore_def SompiPerC4ex_def
        calcDeflationaryPeriodBlockSubsidy_def getDeflationaryPeriodBlockSubsidyFromTable_month assms(2) secondsPerMonth_def
        word_less_nat_alt unat_div unat_sub word_le_nat_alt)
  with s show ?thesis by blast
qed

lemma months_year:
  assumes "D \<le> score" "score < 2 ^ 63"
  shows "unat ((score + 12 * secondsPerMonth - D) div secondsPerMonth) = unat ((score - D) div secondsPerMonth) + 12"
proof -
  have M: "unat secondsPerMonth = 2629800" "unat (12 * secondsPerMonth) = 12 * 2629800" by (simp_all add: secondsPerMonth_def)
  have s: "unat (score + 12 * secondsPerMonth) = unat score + 12 * 2629800"
    by (subst unat_add_no_wrap) (use assms(2) in \<open>simp_all add: no_olen_add_nat M word_less_nat_alt\<close>)
  have le: "unat D \<le> unat score" using assms(1) by (simp add: word_le_nat_alt)
  have "unat (score + 12 * secondsPerMonth - D) = unat score - unat D + 12 * 2629800"
    by (subst unat_sub) (use le s in \<open>simp_all add: word_le_nat_alt\<close>)
  then show ?thesis using assms(1) by (simp only: unat_div unat_sub M div_mult_self3)
qed

lemma calc_year:
  assumes "cm_deflationaryPhaseDaaScore c = D" "D \<le> score" "score < 2 ^ 63"
  shows "calcDeflationaryPeriodBlockSubsidy c (score + 12 * secondsPerMonth) = calcDeflationaryPeriodBlockSubsidy c score div 2"
proof -
  have "unat (calcDeflationaryPeriodBlockSubsidy c (score + 12 * secondsPerMonth)) = unat (calcDeflationaryPeriodBlockSubsidy c score) div 2"
    unfolding calcDeflationaryPeriodBlockSubsidy_def assms(1) Let_def getDeflationaryPeriodBlockSubsidyFromTable_month
      months_year [OF assms(2,3)] monthSubsidy_year ..
  then show ?thesis by (simp add: word_unat_eq_iff unat_div)
qed

lemma distinct_scores:
  assumes "distinct (map f bs)" "\<forall>b \<in> set bs. f b \<noteq> None"
  shows "distinct (map (\<lambda>b. unat (the (f b))) bs)"
  using assms by (induction bs) (auto simp: word_unat_eq_iff [symmetric])

text \<open>
  C10: The emission of the network is bounded by the supply that validation allows. With the parameters of
  the network, the subsidies of any blocks other than the genesis with pairwise different DAA scores
  add up to at most \<^verbatim>\<open>MaxSompi\<close>, however many blocks there are; and in the deflationary phase the
  subsidy halves every twelve months.
\<close>

theorem emission_within_supply:
  assumes "cm_preDeflationaryPhaseBaseSubsidy c = defaultPreDeflationaryPhaseBaseSubsidy"
    and "cm_deflationaryPhaseDaaScore c = defaultDeflationaryPhaseDaaScore"
    and "cm_genesisHash c \<notin> set blocks" "distinct (map (daa_DAAScore (cm_daaBlocksStore c)) blocks)"
    and "map (CalcBlockSubsidy c) blocks = map Inr subsidies"
    and "defaultDeflationaryPhaseDaaScore \<le> score" "score < 2 ^ 63"
  shows "(\<Sum>x\<leftarrow>subsidies. unat x) \<le> unat MaxSompi \<and>
    calcDeflationaryPeriodBlockSubsidy c (score + 12 * secondsPerMonth) = calcDeflationaryPeriodBlockSubsidy c score div 2"
proof
  let ?score = "\<lambda>b. unat (the (daa_DAAScore (cm_daaBlocksStore c) b))"
  have len: "length subsidies = length blocks" using assms(5) by (metis length_map)
  have each: "daa_DAAScore (cm_daaBlocksStore c) (blocks ! i) \<noteq> None \<and> unat (subsidies ! i) = scoreSubsidy (?score (blocks ! i))"
    if "i < length blocks" for i
  proof -
    have "CalcBlockSubsidy c (blocks ! i) = Inr (subsidies ! i)"
      using arg_cong [OF assms(5), of "\<lambda>l. l ! i"] that len by simp
    moreover have "blocks ! i \<noteq> cm_genesisHash c" using assms(3) that nth_mem by metis
    ultimately show ?thesis using CalcBlockSubsidy_score [OF assms(1,2)] by fastforce
  qed
  have "(\<Sum>x\<leftarrow>subsidies. unat x) = (\<Sum>b\<leftarrow>blocks. scoreSubsidy (?score b))"
    by (intro arg_cong [of _ _ sum_list] nth_equalityI) (simp_all add: len each)
  also have "\<dots> = (\<Sum>n\<leftarrow>map ?score blocks. scoreSubsidy n)" by (simp add: comp_def)
  also have "\<dots> = (\<Sum>n\<in>?score ` set blocks. scoreSubsidy n)"
  proof (subst sum_list_distinct_conv_sum_set)
    show "distinct (map ?score blocks)"
      using assms(4) each by (intro distinct_scores) (auto simp: in_set_conv_nth)
  qed simp
  also have "\<dots> \<le> 15519600 * 50000000000 + 2629800 * 783954764543" by (rule sum_scoreSubsidy) simp
  finally show "(\<Sum>x\<leftarrow>subsidies. unat x) \<le> unat MaxSompi" by (simp add: MaxSompi_limit)
qed (rule calc_year [OF assms(2,6,7)])

section \<open>The outputs of the expected coinbase\<close>

lemma Extract_script_length:
  assumes "ExtractCoinbaseDataBlueScoreAndSubsidy c tx = Inr (blueScore, coinbaseData, subsidy)"
  shows "length (spk_Script (cb_ScriptPublicKey coinbaseData)) \<le> unat (cm_coinbasePayloadScriptPublicKeyMaxLength c)"
proof -
  let ?d = "tx_Payload tx ! 18"
  from assms have d: "?d \<le> cm_coinbasePayloadScriptPublicKeyMaxLength c"
    and e: "length (spk_Script (cb_ScriptPublicKey coinbaseData)) = unat (19 + ?d :: byte) - 19"
    by (auto simp: ExtractCoinbaseDataBlueScoreAndSubsidy_def Let_def split: if_splits)
  have "unat (19 + ?d :: byte) \<le> 19 + unat ?d" by (simp add: unat_word_ariths(1))
  with d e show ?thesis by (simp add: word_le_nat_alt)
qed

lemma len64_le: "length xs \<le> unat w \<Longrightarrow> len64 xs \<le> w"
  by (simp add: len64_def word_le_nat_alt unsigned_of_nat le_trans [OF take_bit_nat_less_eq_self])

definition goodOut :: "coinbaseManager \<Rightarrow> DomainTransactionOutput \<Rightarrow> bool" where
  "goodOut c out \<longleftrightarrow> out_Value out \<noteq> 0 \<and>
     length (spk_Script (out_ScriptPublicKey out)) \<le> unat (cm_coinbasePayloadScriptPublicKeyMaxLength c)"

lemma coinbaseOutputForBlueBlock_out:
  assumes "coinbaseOutputForBlueBlock c b acc added = Inr txOut"
  shows "\<exists>r. calcMergedBlockReward c b acc added = Inr r \<and>
    (case txOut of None \<Rightarrow> r = 0 | Some out \<Rightarrow> out_Value out = r \<and> goodOut c out)"
  using assms Extract_script_length
  by (fastforce simp: coinbaseOutputForBlueBlock_def bindR_Inr_iff goodOut_def split: if_splits list.splits)

definition rewarded :: "coinbaseManager \<Rightarrow> (DomainHash \<rightharpoonup> BlockAcceptanceData) \<Rightarrow> DomainHash list \<Rightarrow> DomainHash list \<Rightarrow> uint64 list \<Rightarrow> bool" where
  "rewarded c acceptance added = list_all2 (\<lambda>b r. calcMergedBlockReward c b (acceptance b) added = Inr r)"

lemma blueOutputsLoop_outs:
  "blueOutputsLoop c acceptance added outs blues = Inr outs' \<Longrightarrow>
     \<exists>new rewards. outs' = outs @ new \<and> length new \<le> length blues \<and> list_all (goodOut c) new \<and>
       rewarded c acceptance added blues rewards \<and> sum_list (map out_Value new) = sum_list rewards"
proof (induction blues arbitrary: outs)
  case (Cons b blues)
  from Cons.prems obtain txOut where b: "coinbaseOutputForBlueBlock c b (acceptance b) added = Inr txOut"
    and rest: "blueOutputsLoop c acceptance added (case txOut of None \<Rightarrow> outs | Some out \<Rightarrow> outs @ [out]) blues = Inr outs'"
    by (auto simp: bindR_Inr_iff)
  from coinbaseOutputForBlueBlock_out [OF b] obtain r where r: "calcMergedBlockReward c b (acceptance b) added = Inr r"
    "case txOut of None \<Rightarrow> r = 0 | Some out \<Rightarrow> out_Value out = r \<and> goodOut c out" by blast
  from Cons.IH [OF rest] obtain new rewards where n: "outs' = (case txOut of None \<Rightarrow> outs | Some out \<Rightarrow> outs @ [out]) @ new"
    "length new \<le> length blues" "list_all (goodOut c) new" "rewarded c acceptance added blues rewards"
    "sum_list (map out_Value new) = sum_list rewards" by blast
  show ?case
    by (intro exI [of _ "(case txOut of None \<Rightarrow> [] | Some out \<Rightarrow> [out]) @ new"] exI [of _ "r # rewards"])
      (use n r in \<open>auto simp: rewarded_def split: option.splits\<close>)
qed (simp add: rewarded_def)

lemma redRewardsLoop_sum:
  "redRewardsLoop c acceptance added t reds = Inr t' \<Longrightarrow>
     \<exists>rewards. rewarded c acceptance added reds rewards \<and> t' = t + sum_list rewards"
proof (induction reds arbitrary: t)
  case (Cons b reds)
  then obtain r where "calcMergedBlockReward c b (acceptance b) added = Inr r"
    "redRewardsLoop c acceptance added (t + r) reds = Inr t'" by (auto simp: bindR_Inr_iff)
  with Cons.IH [of "t + r"] show ?case by (force simp: rewarded_def list_all2_Cons1 add.assoc)
qed (simp add: rewarded_def)

text \<open>What the success of \<open>ExpectedCoinbaseTransaction\<close> says, for the data it reads.\<close>

lemma ExpectedCoinbaseTransaction_out:
  assumes "ExpectedCoinbaseTransaction c b cd = Inr (tx, hasRed)"
  obtains gd acceptance added subsidy rewards where "coinbaseGHOSTDAGData c b = Inr gd" "cm_acceptanceDataStore c b = Some acceptance"
    "daa_DAAAddedBlocks (cm_daaBlocksStore c) b = Some added" "CalcBlockSubsidy c b = Inr subsidy"
    "rewarded c (acceptanceDataFromArrayToMap acceptance) added (gd_mergeSetBlues gd @ gd_mergeSetReds gd) rewards"
    "sum_list (map out_Value (tx_Outputs tx)) = sum_list rewards" "list_all (goodOut c) (tx_Outputs tx)"
    "length (tx_Outputs tx) \<le> Suc (length (gd_mergeSetBlues gd))"
    "serializeCoinbasePayload c (gd_blueScore gd) cd subsidy = Inr (tx_Payload tx)"
    "tx_Version tx = 0" "tx_Inputs tx = []" "tx_SubnetworkID tx = SubnetworkIDCoinbase" "tx_Gas tx = 0"
proof -
  from assms obtain gd acceptance added outs redOut subsidy payload where g: "coinbaseGHOSTDAGData c b = Inr gd"
    "cm_acceptanceDataStore c b = Some acceptance" "daa_DAAAddedBlocks (cm_daaBlocksStore c) b = Some added" "CalcBlockSubsidy c b = Inr subsidy"
    and blue: "blueOutputsLoop c (acceptanceDataFromArrayToMap acceptance) added [] (gd_mergeSetBlues gd) = Inr outs"
    and red: "coinbaseOutputForRewardFromRedBlocks c gd acceptance added cd = Inr redOut"
    and pay: "serializeCoinbasePayload c (gd_blueScore gd) cd subsidy = Inr payload"
    and tx: "tx = \<lparr>tx_Version = MaxTransactionVersion, tx_Inputs = [],
             tx_Outputs = (case redOut of None \<Rightarrow> outs | Some out \<Rightarrow> outs @ [out]),
             tx_LockTime = 0, tx_SubnetworkID = SubnetworkIDCoinbase, tx_Gas = 0, tx_Payload = payload,
             tx_Fee = 0, tx_Mass = 0, tx_ID = None\<rparr>"
    by (auto simp: ExpectedCoinbaseTransaction_def bindR_Inr_iff daaAddedBlocksSet_def fromStore_def split: option.splits)
  from blueOutputsLoop_outs [OF blue] obtain rs where rs: "length outs \<le> length (gd_mergeSetBlues gd)" "list_all (goodOut c) outs"
    "rewarded c (acceptanceDataFromArrayToMap acceptance) added (gd_mergeSetBlues gd) rs" "sum_list (map out_Value outs) = sum_list rs" by auto
  from red obtain t where t: "redRewardsLoop c (acceptanceDataFromArrayToMap acceptance) added 0 (gd_mergeSetReds gd) = Inr t"
    and out: "redOut = (if t = 0 then None else Some \<lparr>out_Value = t, out_ScriptPublicKey = cb_ScriptPublicKey cd\<rparr>)"
    by (auto simp: coinbaseOutputForRewardFromRedBlocks_def bindR_Inr_iff)
  from redRewardsLoop_sum [OF t] obtain rs' where rs': "rewarded c (acceptanceDataFromArrayToMap acceptance) added (gd_mergeSetReds gd) rs'"
    "t = sum_list rs'" by auto
  have "length (spk_Script (cb_ScriptPublicKey cd)) \<le> unat (cm_coinbasePayloadScriptPublicKeyMaxLength c)"
    using pay by (auto simp: serializeCoinbasePayload_def split: if_splits)
  then show thesis
    by (intro that [OF g, of "rs @ rs'"])
      (use rs rs' pay out in \<open>auto simp: tx rewarded_def goodOut_def MaxTransactionVersion_def intro: list_all2_appendI\<close>)
qed


text \<open>
  C15: The coinbase that the node expects is one that it accepts. If the merge set has at most \<open>k + 1\<close> blue
  blocks, the coinbase data fits into the maximal payload and the outputs are worth at most
  \<^verbatim>\<open>MaxSompi\<close>, the expected coinbase transaction passes validation in isolation.
\<close>

theorem expected_coinbase_is_valid:
  assumes "ExpectedCoinbaseTransaction c b coinbaseData = Inr (tx, hasRed)" "coinbaseGHOSTDAGData c b = Inr gd"
    and "tv_coinbasePayloadScriptPublicKeyMaxLength v = cm_coinbasePayloadScriptPublicKeyMaxLength c"
    and "length (gd_mergeSetBlues gd) \<le> unat (tv_ghostdagK v) + 1"
    and "19 + length (spk_Script (cb_ScriptPublicKey coinbaseData)) + length (cb_ExtraData coinbaseData) \<le> unat (tv_maxCoinbasePayloadLength v)"
    and "totalOut tx \<le> unat MaxSompi"
  shows "ValidateTransactionInIsolation v tx d = Inr ()"
  using assms(1)
proof (rule ExpectedCoinbaseTransaction_out)
  fix gd' acceptance added subsidy rewards
  assume gd: "coinbaseGHOSTDAGData c b = Inr gd'" and outs: "list_all (goodOut c) (tx_Outputs tx)"
    "length (tx_Outputs tx) \<le> Suc (length (gd_mergeSetBlues gd'))"
    and pay: "serializeCoinbasePayload c (gd_blueScore gd') coinbaseData subsidy = Inr (tx_Payload tx)"
    and tx: "tx_Version tx = 0" "tx_Inputs tx = []" "tx_SubnetworkID tx = SubnetworkIDCoinbase" "tx_Gas tx = 0"
  have "length (tx_Payload tx) = 19 + length (spk_Script (cb_ScriptPublicKey coinbaseData)) + length (cb_ExtraData coinbaseData)"
    using pay by (auto simp: serializeCoinbasePayload_def payloadTail_def dest: arg_cong [of _ _ length] split: if_splits)
  with assms(5) have "len64 (tx_Payload tx) \<le> tv_maxCoinbasePayloadLength v"
    by (intro len64_le) simp
  moreover have "len64 (tx_Outputs tx) \<le> ucast (tv_ghostdagK v) + 2"
  proof -
    have "length (tx_Outputs tx) \<le> unat (tv_ghostdagK v) + 2" using outs(2) assms(2,4) gd by simp
    moreover have "unat (ucast (tv_ghostdagK v) + 2 :: uint64) = unat (tv_ghostdagK v) + 2"
    proof -
      have k: "unat (tv_ghostdagK v) < 256" by simp
      then have "take_bit 64 (unat (tv_ghostdagK v)) = unat (tv_ghostdagK v)" by (intro take_bit_nat_eq_self) (simp del: unat_byte_less)
      with k show ?thesis by (simp add: unat_word_ariths(1) unsigned_ucast_eq del: unat_byte_less)
    qed
    ultimately show ?thesis by (intro len64_le) simp
  qed
  moreover have "0 \<notin> out_Value ` set (tx_Outputs tx)" "list_all (\<lambda>out. length (spk_Script (out_ScriptPublicKey out)) \<le>
      unat (tv_coinbasePayloadScriptPublicKeyMaxLength v)) (tx_Outputs tx)"
    using outs(1) assms(3) by (auto simp: list_all_iff goodOut_def)
  ultimately show ?thesis using tx assms(6) built_in_distinct
    by (simp add: ValidateTransactionInIsolation_def bindR_Inr_iff checks_iff IsCoinBase_def MaxSompi_limit MaxTransactionVersion_def)
qed

section \<open>Examples\<close>

text \<open>A block that merges a blue and a red block, both in the DAA window.\<close>

definition sample_coinbase :: "uint64 \<Rightarrow> DomainTransaction" where
  "sample_coinbase subsidy = valid_spend\<lparr>tx_Inputs := [], tx_SubnetworkID := SubnetworkIDCoinbase,
     tx_Payload := PutUint64 3 @ PutUint64 subsidy @ PutUint16 0 @ [1, 0x51]\<rparr>"

definition sample_acceptance :: "DomainHash \<Rightarrow> uint64 \<Rightarrow> BlockAcceptanceData" where
  "sample_acceptance h subsidy = \<lparr>ba_BlockHash = h, ba_TransactionAcceptanceData =
     [\<lparr>ta_Transaction = sample_coinbase subsidy, ta_Fee = 0, ta_IsAccepted = True, ta_TransactionInputUTXOEntries = []\<rparr>,
      \<lparr>ta_Transaction = valid_spend, ta_Fee = 3, ta_IsAccepted = True, ta_TransactionInputUTXOEntries = []\<rparr>]\<rparr>"

definition sample_gd :: BlockGHOSTDAGData where
  "sample_gd = \<lparr>gd_blueScore = 7, gd_blueWork = 1, gd_selectedParent = Some [2], gd_mergeSetBlues = [[2]], gd_mergeSetReds = [[3]],
     gd_bluesAnticoneSizes = []\<rparr>"

definition sample_cbm :: "uint64 \<Rightarrow> coinbaseManager" where
  "sample_cbm subsidy = \<lparr>cm_subsidyGenesisReward = 1, cm_preDeflationaryPhaseBaseSubsidy = subsidy,
     cm_coinbasePayloadScriptPublicKeyMaxLength = 150, cm_genesisHash = [0],
     cm_deflationaryPhaseDaaScore = defaultDeflationaryPhaseDaaScore, cm_deflationaryPhaseBaseSubsidy = 44000000000,
     cm_ghostdagDataStore = (\<lambda>trusted h. if trusted then None else Some sample_gd),
     cm_acceptanceDataStore = (\<lambda>_. Some [sample_acceptance [2] 100, sample_acceptance [3] 200]),
     cm_daaBlocksStore = \<lparr>daa_DAAScore = (\<lambda>h. Some (if h = [2] then 9 else 10)), daa_DAAAddedBlocks = (\<lambda>_. Some [[2], [3]])\<rparr>,
     cm_blockStore = (\<lambda>h. Some \<lparr>block_Header = plain_header 0, block_Transactions = [sample_coinbase (if h = [2] then 100 else 200)]\<rparr>)\<rparr>"

definition sample_miner :: DomainCoinbaseData where
  "sample_miner = \<lparr>cb_ScriptPublicKey = \<lparr>spk_Script = [0x52], spk_Version = 0\<rparr>, cb_ExtraData = [9, 9]\<rparr>"

lemma sample_cbm_simps:
  "cm_acceptanceDataStore (sample_cbm s) b = Some [sample_acceptance [2] 100, sample_acceptance [3] 200]"
  "daa_DAAAddedBlocks (cm_daaBlocksStore (sample_cbm s)) b = Some [[2], [3]]"
  "cm_blockStore (sample_cbm s) b = Some \<lparr>block_Header = plain_header 0, block_Transactions = [sample_coinbase (if b = [2] then 100 else 200)]\<rparr>"
  "cm_coinbasePayloadScriptPublicKeyMaxLength (sample_cbm s) = 150"
  "coinbaseGHOSTDAGData (sample_cbm s) b = Inr sample_gd"
  by (simp_all add: sample_cbm_def coinbaseGHOSTDAGData_def fromStore_def passOn_def)

lemma sample_payload:
  "serializeCoinbasePayload (sample_cbm s) 3 \<lparr>cb_ScriptPublicKey = \<lparr>spk_Script = [0x51], spk_Version = 0\<rparr>, cb_ExtraData = []\<rparr> x =
     Inr (tx_Payload (sample_coinbase x))"
  by (simp add: serializeCoinbasePayload_def payloadTail_def sample_coinbase_def sample_cbm_simps)

lemma sample_extract:
  "ExtractCoinbaseDataBlueScoreAndSubsidy (sample_cbm s) (sample_coinbase x) =
     Inr (3, \<lparr>cb_ScriptPublicKey = \<lparr>spk_Script = [0x51], spk_Version = 0\<rparr>, cb_ExtraData = []\<rparr>, x)"
proof -
  have "cm_coinbasePayloadScriptPublicKeyMaxLength (sample_cbm s) \<le> 236" by (simp add: sample_cbm_simps)
  from payload_iff [OF this] sample_payload show ?thesis by blast
qed

lemma sample_reward:
  "calcMergedBlockReward (sample_cbm s) [2] (Some (sample_acceptance [2] 100)) [[2], [3]] = Inr 103"
  "calcMergedBlockReward (sample_cbm s) [3] (Some (sample_acceptance [3] 200)) [[2], [3]] = Inr 203"
  by (simp_all add: calcMergedBlockReward_def sample_acceptance_def fromStore_def passOn_def sample_cbm_simps sample_extract)

lemma sample_cbm_coinbase:
  "\<exists>tx. ExpectedCoinbaseTransaction (sample_cbm 5) [1] sample_miner = Inr (tx, True) \<and> map out_Value (tx_Outputs tx) = [103, 203]"
proof -
  have m: "acceptanceDataFromArrayToMap [sample_acceptance [2] 100, sample_acceptance [3] 200] [2] = Some (sample_acceptance [2] 100)"
    "acceptanceDataFromArrayToMap [sample_acceptance [2] 100, sample_acceptance [3] 200] [3] = Some (sample_acceptance [3] 200)"
    by (simp_all add: acceptanceDataFromArrayToMap_def sample_acceptance_def)
  have t: "ba_TransactionAcceptanceData (sample_acceptance h x) \<noteq> []"
    "ta_Transaction (hd (ba_TransactionAcceptanceData (sample_acceptance h x))) = sample_coinbase x" for h x
    by (simp_all add: sample_acceptance_def)
  have "CalcBlockSubsidy (sample_cbm 5) [1] = Inr 5"
    by (simp add: CalcBlockSubsidy_def sample_cbm_def fromStore_def passOn_def defaultDeflationaryPhaseDaaScore_def)
  with m sample_reward t show ?thesis
    by (simp add: ExpectedCoinbaseTransaction_def sample_cbm_simps daaAddedBlocksSet_def fromStore_def passOn_def sample_gd_def
        coinbaseOutputForBlueBlock_def coinbaseOutputForRewardFromRedBlocks_def sample_extract serializeCoinbasePayload_def sample_miner_def
        sample_acceptance_def split: list.split)
qed

theorem coinbase_payload_roundtrip_witness:
  "ExtractCoinbaseDataBlueScoreAndSubsidy (sample_cbm 5) (sample_coinbase 100) =
     Inr (3, \<lparr>cb_ScriptPublicKey = \<lparr>spk_Script = [0x51], spk_Version = 0\<rparr>, cb_ExtraData = []\<rparr>, 100)"
proof -
  have "cm_coinbasePayloadScriptPublicKeyMaxLength (sample_cbm 5) \<le> 236" by (simp add: sample_cbm_simps)
  from coinbase_payload_roundtrip [OF this] sample_payload show ?thesis by blast
qed

theorem emission_within_supply_witness:
  "map (CalcBlockSubsidy (sample_cbm defaultPreDeflationaryPhaseBaseSubsidy)) [[1], [2]] = map Inr [50000000000, 50000000000] \<and>
   calcDeflationaryPeriodBlockSubsidy (sample_cbm defaultPreDeflationaryPhaseBaseSubsidy) (defaultDeflationaryPhaseDaaScore + 12 * secondsPerMonth) =
     calcDeflationaryPeriodBlockSubsidy (sample_cbm defaultPreDeflationaryPhaseBaseSubsidy) defaultDeflationaryPhaseDaaScore div 2"
proof -
  have m: "map (CalcBlockSubsidy (sample_cbm defaultPreDeflationaryPhaseBaseSubsidy)) [[1], [2]] = map Inr [50000000000, 50000000000]"
    by (simp add: CalcBlockSubsidy_def sample_cbm_def fromStore_def passOn_def defaultDeflationaryPhaseDaaScore_def
        defaultPreDeflationaryPhaseBaseSubsidy_def SompiPerC4ex_def)
  have "cm_preDeflationaryPhaseBaseSubsidy (sample_cbm defaultPreDeflationaryPhaseBaseSubsidy) = defaultPreDeflationaryPhaseBaseSubsidy"
    "cm_deflationaryPhaseDaaScore (sample_cbm defaultPreDeflationaryPhaseBaseSubsidy) = defaultDeflationaryPhaseDaaScore"
    "cm_genesisHash (sample_cbm defaultPreDeflationaryPhaseBaseSubsidy) \<notin> set [[1], [2]]" "distinct (map (daa_DAAScore (cm_daaBlocksStore (sample_cbm defaultPreDeflationaryPhaseBaseSubsidy))) [[1], [2]])"
    by (simp_all add: sample_cbm_def)
  from emission_within_supply [OF this m, of defaultDeflationaryPhaseDaaScore] m show ?thesis
    by (simp add: defaultDeflationaryPhaseDaaScore_def)
qed


theorem expected_coinbase_is_valid_witness:
  "\<exists>tx. ExpectedCoinbaseTransaction (sample_cbm 5) [1] sample_miner = Inr (tx, True) \<and> ValidateTransactionInIsolation sample_validator tx 0 = Inr ()"
proof -
  obtain tx where tx: "ExpectedCoinbaseTransaction (sample_cbm 5) [1] sample_miner = Inr (tx, True)" "map out_Value (tx_Outputs tx) = [103, 203]"
    using sample_cbm_coinbase by auto
  have "totalOut tx = (\<Sum>x\<leftarrow>map out_Value (tx_Outputs tx). unat x)" by (simp add: totalOut_def comp_def)
  then have "totalOut tx \<le> unat MaxSompi" by (simp add: tx(2) MaxSompi_limit)
  moreover have "coinbaseGHOSTDAGData (sample_cbm 5) [1] = Inr sample_gd"
    "tv_coinbasePayloadScriptPublicKeyMaxLength sample_validator = cm_coinbasePayloadScriptPublicKeyMaxLength (sample_cbm 5)"
    "length (gd_mergeSetBlues sample_gd) \<le> unat (tv_ghostdagK sample_validator) + 1"
    "19 + length (spk_Script (cb_ScriptPublicKey sample_miner)) + length (cb_ExtraData sample_miner) \<le> unat (tv_maxCoinbasePayloadLength sample_validator)"
    by (simp_all add: sample_cbm_def sample_validator_def sample_gd_def sample_miner_def coinbaseGHOSTDAGData_def fromStore_def passOn_def)
  ultimately show ?thesis using expected_coinbase_is_valid [OF tx(1)] tx(1) by blast
qed

end
