(* ===== verification/Merkle.thy ===== *)
theory Merkle
  imports SigHash DomainHash "HOL-Library.Log_Nat"
begin

text \<open>
  Merkle roots (\<^verbatim>\<open>domain/consensus/utils/merkle\<close>). The tree is an array of optional hashes that is filled
  from the front, as in the code; the reference for it is the tree built level by level. The base-2
  logarithm of a length is exact in the code as long as it is for the conversion to a floating-point
  number, which covers the lengths of lists in memory.
\<close>

section \<open>The computation\<close>

definition nextPowerOfTwo :: "nat \<Rightarrow> nat" where
  "nextPowerOfTwo n = (if n = 0 \<or> n AND (n - 1) = 0 then n else 2 ^ floorlog 2 n)"

definition merkleBranchHashWriter :: "hashLib \<Rightarrow> bytes \<Rightarrow> bytes" where
  "merkleBranchHashWriter lib = blake2b_New256 lib (strBytes ''MerkleBranchHash'')"

definition hashMerkleBranches :: "hashLib \<Rightarrow> DomainHash \<Rightarrow> DomainHash \<Rightarrow> DomainHash" where
  "hashMerkleBranches lib left right = merkleBranchHashWriter lib (left @ right)"

definition merkleParent :: "hashLib \<Rightarrow> DomainHash option \<Rightarrow> DomainHash option \<Rightarrow> DomainHash option" where
  "merkleParent lib left right =
     (case left of
        None \<Rightarrow> None
      | Some l \<Rightarrow> (case right of None \<Rightarrow> Some (hashMerkleBranches lib l zeroHash) | Some r \<Rightarrow> Some (hashMerkleBranches lib l r)))"

function merkleLoop :: "hashLib \<Rightarrow> nat \<Rightarrow> nat \<Rightarrow> DomainHash option list \<Rightarrow> DomainHash option list" where
  "merkleLoop lib i offset merkles =
     (if i < length merkles - 1
      then merkleLoop lib (i + 2) (offset + 1) (merkles[offset := merkleParent lib (merkles ! i) (merkles ! (i + 1))])
      else merkles)"
  by pat_completeness auto
termination by (relation "measure (\<lambda>(lib, i, offset, merkles). length merkles - i)") auto

declare merkleLoop.simps [simp del]

text \<open>Without hashes the array has a negative size, which panics.\<close>

definition merkleRoot :: "hashLib \<Rightarrow> DomainHash list \<Rightarrow> DomainHash option outcome" where
  "merkleRoot lib hashes =
     (let nextPoT = nextPowerOfTwo (length hashes); arraySize = int nextPoT * 2 - 1
      in if arraySize < 0 then Inl GoPanic
         else let merkles = map Some hashes @ replicate (nat arraySize - length hashes) None
              in Inr (last (merkleLoop lib 0 nextPoT merkles)))"

definition CalculateHashMerkleRoot :: "hashLib \<Rightarrow> DomainTransaction list \<Rightarrow> DomainHash option outcome" where
  "CalculateHashMerkleRoot lib transactions = merkleRoot lib (map (TransactionHash lib) transactions)"

text \<open>The transactions are returned with their IDs cached.\<close>

definition CalculateIDMerkleRoot :: "hashLib \<Rightarrow> DomainTransaction list \<Rightarrow> (DomainHash option \<times> DomainTransaction list) outcome" where
  "CalculateIDMerkleRoot lib transactions =
     (if length transactions = 0 then Inr (Some zeroHash, transactions)
      else case TransactionIDs lib transactions of (txIDs, transactions) \<Rightarrow>
        bindR (merkleRoot lib txIDs) (\<lambda>root. Inr (root, transactions)))"

section \<open>The tree, level by level\<close>

fun level :: "hashLib \<Rightarrow> DomainHash option list \<Rightarrow> DomainHash option list" where
  "level lib (l # r # hs) = merkleParent lib l r # level lib hs"
| "level lib hs = []"

fun treeRoot :: "hashLib \<Rightarrow> nat \<Rightarrow> DomainHash option list \<Rightarrow> DomainHash option" where
  "treeRoot lib 0 hs = hd hs"
| "treeRoot lib (Suc n) hs = treeRoot lib n (level lib hs)"

text \<open>
  The loop is a queue: it takes two nodes from the front and puts their parent at the end, where
  the array has free entries.
\<close>

fun runQueue :: "hashLib \<Rightarrow> nat \<Rightarrow> DomainHash option list \<Rightarrow> DomainHash option list" where
  "runQueue lib (Suc n) (l # r # q) = runQueue lib n (q @ [merkleParent lib l r])"
| "runQueue lib n q = q"

lemma merkleLoop_queue:
  "length q = Suc (length free) \<Longrightarrow>
     last (merkleLoop lib (length done) (length done + length q) (done @ q @ free)) = last (runQueue lib (length free) q)"
proof (induction free arbitrary: "done" q)
  case Nil
  then obtain x where "q = [x]" by (cases q) auto
  then show ?case by (subst merkleLoop.simps) simp
next
  case (Cons x free)
  then obtain l r q' where q: "q = l # r # q'" by (cases q; cases "tl q") auto
  let ?a = "done @ q @ x # free" and ?p = "merkleParent lib l r"
  have "merkleLoop lib (length done) (length done + length q) ?a =
      merkleLoop lib (length (done @ [l, r])) (length (done @ [l, r]) + length (q' @ [?p])) ((done @ [l, r]) @ (q' @ [?p]) @ free)"
    by (subst merkleLoop.simps) (simp add: q nth_append list_update_append)
  then show ?case using Cons.IH [of "q' @ [?p]" "done @ [l, r]"] Cons.prems by (simp add: q)
qed

lemma runQueue_level:
  "even (length xs) \<Longrightarrow> runQueue lib (length xs div 2 + n) (xs @ ys) = runQueue lib n (ys @ level lib xs)"
proof (induction xs arbitrary: ys rule: level.induct)
  case (1 lib l r hs)
  then show ?case using "1.IH" [of "ys @ [merkleParent lib l r]"] by simp
qed simp_all

lemma length_level: "length (level lib hs) = length hs div 2"
  by (induction lib hs rule: level.induct) simp_all

lemma runQueue_tree: "length hs = 2 ^ n \<Longrightarrow> last (runQueue lib (2 ^ n - 1) hs) = treeRoot lib n hs"
proof (induction n arbitrary: hs)
  case 0
  then show ?case by (cases hs) auto
next
  case (Suc n)
  have e: "(2::nat) ^ Suc n - 1 = length hs div 2 + (2 ^ n - 1)" using Suc.prems by simp
  show ?case
    unfolding e using runQueue_level [of hs lib "2 ^ n - 1" "[]"] Suc by (simp add: length_level)
qed

lemma power_of_two: "\<lbrakk> 0 < n; n AND (n - 1) = 0 \<rbrakk> \<Longrightarrow> \<exists>k. n = (2::nat) ^ k"
proof (induction n rule: less_induct)
  case (less n)
  show ?case
  proof (cases "even n")
    case True
    then obtain m where m: "n = 2 * m" by blast
    with less.prems have "m > 0" "(n - 1) div 2 = m - 1" "n div 2 = m" by auto
    with less.prems(2) True have "m AND (m - 1) = 0" by (subst (asm) and_nat_rec) simp
    with less.IH [of m] m \<open>m > 0\<close> obtain k where "m = 2 ^ k" by auto
    with m show ?thesis by (metis power_Suc)
  next
    case False
    then obtain m where m: "n = 2 * m + 1" by (auto elim: oddE)
    then have "n div 2 = m" "(n - 1) div 2 = m" by auto
    with less.prems(2) have "m = 0" by (subst (asm) and_nat_rec) (simp split: if_splits)
    with m show ?thesis by (auto intro: exI [of _ 0])
  qed
qed

lemma nextPowerOfTwo_power: "0 < n \<Longrightarrow> \<exists>k. nextPowerOfTwo n = 2 ^ k \<and> n \<le> 2 ^ k"
  using power_of_two [of n] floorlog_bounds [of n 2] by (auto simp: nextPowerOfTwo_def intro: less_imp_le)

definition padded :: "nat \<Rightarrow> DomainHash list \<Rightarrow> DomainHash option list" where
  "padded n hs = map Some hs @ replicate (n - length hs) None"

lemma merkleRoot_tree:
  assumes "nextPowerOfTwo (length hs) = 2 ^ k" "length hs \<le> 2 ^ k"
  shows "merkleRoot lib hs = Inr (treeRoot lib k (padded (2 ^ k) hs))"
proof -
  let ?q = "padded (2 ^ k) hs" and ?free = "replicate (2 ^ k - 1) None :: DomainHash option list"
  have len: "length ?q = 2 ^ k" using assms(2) by (simp add: padded_def)
  have size: "nat (int (2 ^ k) * 2 - 1) = 2 ^ k * 2 - 1" by (simp add: nat_diff_distrib' nat_mult_distrib nat_power_eq)
  have "2 ^ k * 2 - 1 - length hs = (2 ^ k - length hs) + (2 ^ k - 1)" using assms(2) by simp
  then have arr: "map Some hs @ replicate (2 ^ k * 2 - 1 - length hs) None = [] @ ?q @ ?free"
    by (simp only: replicate_add padded_def append_assoc append_Nil)
  have "last (merkleLoop lib 0 (2 ^ k) ([] @ ?q @ ?free)) = last (runQueue lib (length ?free) ?q)"
    using merkleLoop_queue [of ?q ?free lib "[]"] len by simp
  also have "\<dots> = treeRoot lib k ?q" using runQueue_tree [OF len] by simp
  moreover have "\<not> int (2 ^ k) * 2 - 1 < 0" unfolding of_nat_power of_nat_numeral using one_le_power [of "2 :: int" k] by linarith
  ultimately show ?thesis unfolding merkleRoot_def Let_def assms(1) size arr by simp
qed

section \<open>The root binds the hashes\<close>

text \<open>A collision of a hash function between two sets of messages.\<close>

definition collides :: "(bytes \<Rightarrow> bytes) \<Rightarrow> bytes set \<Rightarrow> bytes set \<Rightarrow> bool" where
  "collides H M N \<longleftrightarrow> (\<exists>x \<in> M. \<exists>y \<in> N. x \<noteq> y \<and> H x = H y)"

lemma collides_mono: "\<lbrakk> \<not> collides H M N; M' \<subseteq> M; N' \<subseteq> N \<rbrakk> \<Longrightarrow> \<not> collides H M' N'"
  unfolding collides_def by blast

text \<open>The messages that are hashed for the level above, and that level without the empty entries.\<close>

fun pairsOf :: "DomainHash list \<Rightarrow> bytes list" where
  "pairsOf (a # b # hs) = (a @ b) # pairsOf hs"
| "pairsOf [a] = [a @ zeroHash]"
| "pairsOf [] = []"

definition up :: "hashLib \<Rightarrow> DomainHash list \<Rightarrow> DomainHash list" where
  "up lib hs = map (merkleBranchHashWriter lib) (pairsOf hs)"

fun treeMessages :: "hashLib \<Rightarrow> nat \<Rightarrow> DomainHash list \<Rightarrow> bytes set" where
  "treeMessages lib 0 hs = {}"
| "treeMessages lib (Suc n) hs = set (pairsOf hs) \<union> treeMessages lib n (up lib hs)"

lemma length_up: "length (up lib hs) = (length hs + 1) div 2"
  by (induction hs rule: pairsOf.induct) (simp_all add: up_def)

lemma up_Nil [simp]: "up lib hs = [] \<longleftrightarrow> hs = []"
  by (cases hs rule: pairsOf.cases) (simp_all add: up_def)

lemma level_replicate: "level lib (replicate (2 * m) None) = replicate m None"
  by (induction m) (simp_all add: merkleParent_def)

lemma level_padded: "length hs \<le> 2 * n \<Longrightarrow> level lib (padded (2 * n) hs) = padded n (up lib hs)"
proof (induction hs arbitrary: n rule: pairsOf.induct)
  case (1 a b hs)
  then obtain m where m: "n = Suc m" by (cases n) auto
  with 1 have "level lib (padded (2 * m) hs) = padded m (up lib hs)" by simp
  then show ?case by (simp add: m padded_def merkleParent_def up_def hashMerkleBranches_def)
next
  case (2 a)
  then obtain m where "n = Suc m" by (cases n) auto
  then show ?case by (simp add: padded_def merkleParent_def level_replicate up_def hashMerkleBranches_def)
qed (simp add: padded_def level_replicate up_def)

definition sized :: "DomainHash list \<Rightarrow> bool" where
  "sized hs \<longleftrightarrow> list_all (\<lambda>h. length h = DomainHashSize) hs"

lemma pairsOf_inj: "\<lbrakk> length xs = length ys; sized xs; sized ys; pairsOf xs = pairsOf ys \<rbrakk> \<Longrightarrow> xs = ys"
  unfolding sized_def
proof (induction xs arbitrary: ys rule: pairsOf.induct)
  case (1 a b xs)
  then obtain c d zs where "ys = c # d # zs" by (cases ys; cases "tl ys") auto
  with 1 show ?case by (simp add: append_eq_append_conv)
next
  case (2 a)
  then show ?case by (cases ys) (auto simp: Suc_length_conv)
qed simp

lemma map_no_collision: "\<lbrakk> \<not> collides H (set xs) (set ys); map H xs = map H ys \<rbrakk> \<Longrightarrow> xs = ys"
  by (induction xs arbitrary: ys) (auto simp: collides_def)

lemma sized_up: "hash_size_ok lib \<Longrightarrow> sized (up lib hs)"
  by (simp add: sized_def up_def hash_size_ok_def merkleBranchHashWriter_def list_all_iff)

lemma treeRoot_binding:
  assumes "hash_size_ok lib"
  shows "\<lbrakk> length xs = length ys; sized xs; sized ys; xs \<noteq> []; length xs \<le> 2 ^ n;
      \<not> collides (merkleBranchHashWriter lib) (treeMessages lib n xs) (treeMessages lib n ys);
      treeRoot lib n (padded (2 ^ n) xs) = treeRoot lib n (padded (2 ^ n) ys) \<rbrakk> \<Longrightarrow> xs = ys"
proof (induction n arbitrary: xs ys)
  case 0
  then obtain x y where "xs = [x]" "ys = [y]" by (cases xs; cases ys) auto
  with 0 show ?case by (simp add: padded_def)
next
  case (Suc n)
  have "up lib xs = up lib ys"
  proof (rule Suc.IH)
    show "length (up lib xs) = length (up lib ys)" "length (up lib xs) \<le> 2 ^ n" using Suc.prems(1,5) by (simp_all add: length_up)
    show "\<not> collides (merkleBranchHashWriter lib) (treeMessages lib n (up lib xs)) (treeMessages lib n (up lib ys))"
      by (rule collides_mono [OF Suc.prems(6)]) simp_all
    show "treeRoot lib n (padded (2 ^ n) (up lib xs)) = treeRoot lib n (padded (2 ^ n) (up lib ys))"
      using Suc.prems(1,5,7) by (simp add: level_padded)
  qed (use Suc.prems(4) assms in \<open>simp_all add: sized_up\<close>)
  moreover have "\<not> collides (merkleBranchHashWriter lib) (set (pairsOf xs)) (set (pairsOf ys))"
    by (rule collides_mono [OF Suc.prems(6)]) simp_all
  ultimately have "pairsOf xs = pairsOf ys" unfolding up_def by (elim map_no_collision)
  with Suc.prems(1-3) show ?case by (rule pairsOf_inj)
qed

lemma treeRoot_Some:
  assumes "hash_size_ok lib"
  shows "\<lbrakk> sized hs; hs \<noteq> []; length hs \<le> 2 ^ n \<rbrakk> \<Longrightarrow> \<exists>r. treeRoot lib n (padded (2 ^ n) hs) = Some r \<and> length r = DomainHashSize"
proof (induction n arbitrary: hs)
  case 0
  then show ?case by (cases hs) (auto simp: padded_def sized_def)
next
  case (Suc n)
  from Suc.IH [of "up lib hs"] Suc.prems sized_up [OF assms] show ?case by (simp add: level_padded length_up)
qed

section \<open>Properties\<close>

text \<open>The messages that are hashed for the root of a list of hashes, and the encodings of transactions.\<close>

definition rootMessages :: "hashLib \<Rightarrow> DomainHash list \<Rightarrow> bytes set" where
  "rootMessages lib hs = treeMessages lib (floorlog 2 (nextPowerOfTwo (length hs)) - 1) hs"

definition encodings :: "DomainTransaction list \<Rightarrow> bytes list" where
  "encodings txs = map (\<lambda>tx. serializeTransaction tx txEncodingFull) txs"

lemma TransactionHash_encodings: "map (TransactionHash lib) txs = map (transactionHashWriter lib) (encodings txs)"
  by (simp add: encodings_def TransactionHash_def)

lemma merkleRoot_binding:
  assumes "hash_size_ok lib" "xs \<noteq> []" "length xs = length ys" "sized xs" "sized ys"
    and "merkleRoot lib xs = merkleRoot lib ys"
    and "\<not> collides (merkleBranchHashWriter lib) (rootMessages lib xs) (rootMessages lib ys)"
  shows "xs = ys"
proof -
  obtain k where k: "nextPowerOfTwo (length xs) = 2 ^ k" "length xs \<le> 2 ^ k"
    using nextPowerOfTwo_power [of "length xs"] assms(2) by auto
  have "floorlog 2 (1 * 2 ^ k) = floorlog 2 1 + k" by (intro floorlog_power) auto
  then have "floorlog 2 (nextPowerOfTwo (length xs)) - 1 = k" by (simp add: k(1) floorlog_def)
  with assms k merkleRoot_tree [of xs k lib] merkleRoot_tree [of ys k lib] show ?thesis
    by (intro treeRoot_binding [OF assms(1), of xs ys k]) (simp_all add: rootMessages_def)
qed

text \<open>
  C9: The root of the transactions of a block commits to them: it is computed for every nonempty list and
  is a hash of the documented size (for the empty list the code panics), and two lists of the same
  length with the same root have the same encodings, unless what is hashed for the two roots
  exhibits a collision of the hash function for branches or of that for transactions.
\<close>

theorem merkle_root_commits:
  assumes "hash_size_ok lib" "txs \<noteq> []" "length txs = length txs'"
  shows "CalculateHashMerkleRoot lib [] = Inl GoPanic \<and>
    (\<exists>root. CalculateHashMerkleRoot lib txs = Inr (Some root) \<and> length root = DomainHashSize) \<and>
    (CalculateHashMerkleRoot lib txs = CalculateHashMerkleRoot lib txs' \<longrightarrow>
       encodings txs = encodings txs' \<or>
       collides (merkleBranchHashWriter lib) (rootMessages lib (map (TransactionHash lib) txs)) (rootMessages lib (map (TransactionHash lib) txs')) \<or>
       collides (transactionHashWriter lib) (set (encodings txs)) (set (encodings txs')))"
proof (intro conjI impI)
  have sized: "sized (map (TransactionHash lib) ts)" for ts
    using assms(1) by (simp add: sized_def list_all_iff TransactionHash_def transactionHashWriter_def hash_size_ok_def)
  show "CalculateHashMerkleRoot lib [] = Inl GoPanic"
    by (simp add: CalculateHashMerkleRoot_def merkleRoot_def nextPowerOfTwo_def)
  obtain k where "nextPowerOfTwo (length txs) = 2 ^ k" "length txs \<le> 2 ^ k"
    using nextPowerOfTwo_power [of "length txs"] assms(2) by auto
  with treeRoot_Some [OF assms(1) sized] merkleRoot_tree [of "map (TransactionHash lib) txs" k lib] assms(2)
  show "\<exists>root. CalculateHashMerkleRoot lib txs = Inr (Some root) \<and> length root = DomainHashSize"
    by (simp add: CalculateHashMerkleRoot_def)
  assume "CalculateHashMerkleRoot lib txs = CalculateHashMerkleRoot lib txs'"
  with merkleRoot_binding [OF assms(1) _ _ sized sized, of txs txs'] assms(2,3)
  have "map (TransactionHash lib) txs = map (TransactionHash lib) txs' \<or>
      collides (merkleBranchHashWriter lib) (rootMessages lib (map (TransactionHash lib) txs)) (rootMessages lib (map (TransactionHash lib) txs'))"
    by (auto simp: CalculateHashMerkleRoot_def)
  moreover have "encodings txs = encodings txs'"
    if "map (TransactionHash lib) txs = map (TransactionHash lib) txs'" "\<not> collides (transactionHashWriter lib) (set (encodings txs)) (set (encodings txs'))"
    using that unfolding TransactionHash_encodings by (elim map_no_collision)
  ultimately show "encodings txs = encodings txs' \<or>
      collides (merkleBranchHashWriter lib) (rootMessages lib (map (TransactionHash lib) txs)) (rootMessages lib (map (TransactionHash lib) txs')) \<or>
      collides (transactionHashWriter lib) (set (encodings txs)) (set (encodings txs'))"
    by blast
qed

theorem merkle_root_commits_witness:
  "hash_size_ok sample_lib \<and> (\<exists>root. CalculateHashMerkleRoot sample_lib [sample_tx [1], sample_tx [2], sample_tx [3]] = Inr (Some root) \<and> length root = 32)"
  using merkle_root_commits [OF sample_spend_ok(1), of "[sample_tx [1], sample_tx [2], sample_tx [3]]" "[sample_tx [1], sample_tx [2], sample_tx [3]]"]
    sample_spend_ok(1)
  by (simp add: DomainHashSize_def)

end
