(* ===== verification/UtxoDiff.thy ===== *)
theory UtxoDiff
  imports Transaction "HOL-Library.AList"
begin

text \<open>
  UTXO collections and the algebra of UTXO diffs (\<^verbatim>\<open>domain/consensus/utils/utxo\<close>). A diff is a
  collection of entries to add and one of entries to remove; an output that is recreated with
  another DAA score is in both. The specification of a diff is what it does to a UTXO set
  (\<open>applied\<close>), and the lemmas show that combining, inverting and comparing diffs is right for
  every set on which they are valid.
\<close>

section \<open>Collections\<close>

text \<open>
  A Go map from outpoints to entries is an association list without repeated keys; the order of
  the list is the order of an iteration, on which no result below depends.
\<close>

type_synonym utxoCollection = "(DomainOutpoint \<times> UTXOEntry) list"

definition uc_Get :: "utxoCollection \<Rightarrow> DomainOutpoint \<Rightarrow> UTXOEntry option" where
  "uc_Get uc outpoint = map_of uc outpoint"

definition uc_Contains :: "utxoCollection \<Rightarrow> DomainOutpoint \<Rightarrow> bool" where
  "uc_Contains uc outpoint \<longleftrightarrow> map_of uc outpoint \<noteq> None"

definition uc_Len :: "utxoCollection \<Rightarrow> nat" where
  "uc_Len uc = length uc"

definition uc_add :: "utxoCollection \<Rightarrow> DomainOutpoint \<Rightarrow> UTXOEntry \<Rightarrow> utxoCollection" where
  "uc_add uc outpoint entry = AList.update outpoint entry uc"

definition uc_addMultiple :: "utxoCollection \<Rightarrow> utxoCollection \<Rightarrow> utxoCollection" where
  "uc_addMultiple uc collectionToAdd = foldl (\<lambda>uc (outpoint, entry). uc_add uc outpoint entry) uc collectionToAdd"

definition uc_remove :: "utxoCollection \<Rightarrow> DomainOutpoint \<Rightarrow> utxoCollection" where
  "uc_remove uc outpoint = AList.delete outpoint uc"

definition uc_removeMultiple :: "utxoCollection \<Rightarrow> utxoCollection \<Rightarrow> utxoCollection" where
  "uc_removeMultiple uc collectionToRemove = foldl (\<lambda>uc (outpoint, _). uc_remove uc outpoint) uc collectionToRemove"

definition containsWithDAAScore :: "utxoCollection \<Rightarrow> DomainOutpoint \<Rightarrow> uint64 \<Rightarrow> bool" where
  "containsWithDAAScore uc outpoint daaScore =
     (case uc_Get uc outpoint of None \<Rightarrow> False | Some entry \<Rightarrow> utxo_BlockDAAScore entry = daaScore)"

definition NewUTXOEntry :: "uint64 \<Rightarrow> ScriptPublicKey \<Rightarrow> bool \<Rightarrow> uint64 \<Rightarrow> UTXOEntry" where
  "NewUTXOEntry amount scriptPubKey isCoinbase blockDAAScore =
     \<lparr>utxo_Amount = amount, utxo_ScriptPublicKey = scriptPubKey, utxo_BlockDAAScore = blockDAAScore, utxo_IsCoinbase = isCoinbase\<rparr>"

section \<open>Diffs\<close>

record mutableUTXODiff =
  toAdd :: utxoCollection
  toRemove :: utxoCollection

definition newMutableUTXODiff :: mutableUTXODiff where
  "newMutableUTXODiff = \<lparr>toAdd = [], toRemove = []\<rparr>"

definition addEntry :: "mutableUTXODiff \<Rightarrow> DomainOutpoint \<Rightarrow> UTXOEntry \<Rightarrow> mutableUTXODiff outcome" where
  "addEntry mud outpoint entry =
     (if containsWithDAAScore (toRemove mud) outpoint (utxo_BlockDAAScore entry)
      then Inr (mud\<lparr>toRemove := uc_remove (toRemove mud) outpoint\<rparr>)
      else if uc_Contains (toAdd mud) outpoint then Inl OtherErr
      else Inr (mud\<lparr>toAdd := uc_add (toAdd mud) outpoint entry\<rparr>))"

definition removeEntry :: "mutableUTXODiff \<Rightarrow> DomainOutpoint \<Rightarrow> UTXOEntry \<Rightarrow> mutableUTXODiff outcome" where
  "removeEntry mud outpoint entry =
     (if containsWithDAAScore (toAdd mud) outpoint (utxo_BlockDAAScore entry)
      then Inr (mud\<lparr>toAdd := uc_remove (toAdd mud) outpoint\<rparr>)
      else if uc_Contains (toRemove mud) outpoint then Inl OtherErr
      else Inr (mud\<lparr>toRemove := uc_add (toRemove mud) outpoint entry\<rparr>))"

text \<open>The loops of \<^verbatim>\<open>AddTransaction\<close>; an input without a UTXO entry is a nil dereference.\<close>

fun removeInputs :: "mutableUTXODiff \<Rightarrow> DomainTransactionInput list \<Rightarrow> mutableUTXODiff outcome" where
  "removeInputs mud [] = Inr mud"
| "removeInputs mud (input # inputs) =
     (case in_UTXOEntry input of
        None \<Rightarrow> Inl GoPanic
      | Some entry \<Rightarrow> bindR (removeEntry mud (in_PreviousOutpoint input) entry) (\<lambda>mud. removeInputs mud inputs))"

fun addOutputs :: "mutableUTXODiff \<Rightarrow> bytes \<Rightarrow> bool \<Rightarrow> uint64 \<Rightarrow> nat \<Rightarrow> DomainTransactionOutput list \<Rightarrow> mutableUTXODiff outcome" where
  "addOutputs mud transactionID isCoinbase blockDAAScore i [] = Inr mud"
| "addOutputs mud transactionID isCoinbase blockDAAScore i (output # outputs) =
     bindR (addEntry mud \<lparr>outpoint_TransactionID = transactionID, outpoint_Index = word_of_nat i\<rparr>
         (NewUTXOEntry (out_Value output) (out_ScriptPublicKey output) isCoinbase blockDAAScore))
       (\<lambda>mud. addOutputs mud transactionID isCoinbase blockDAAScore (Suc i) outputs)"

text \<open>The diff, and the transaction with its ID cached.\<close>

definition AddTransaction ::
  "hashLib \<Rightarrow> mutableUTXODiff \<Rightarrow> DomainTransaction \<Rightarrow> uint64 \<Rightarrow> (mutableUTXODiff \<times> DomainTransaction) outcome" where
  "AddTransaction lib mud transaction blockDAAScore =
     bindR (removeInputs mud (tx_Inputs transaction)) (\<lambda>mud.
       let (transactionID, transaction') = TransactionID lib transaction
       in bindR (addOutputs mud transactionID (IsCoinBase transaction) blockDAAScore 0 (tx_Outputs transaction)) (\<lambda>mud.
            Inr (mud, transaction')))"

definition Reversed :: "mutableUTXODiff \<Rightarrow> mutableUTXODiff" where
  "Reversed mud = \<lparr>toAdd = toRemove mud, toRemove = toAdd mud\<rparr>"

section \<open>The algebra\<close>

definition checkIntersection :: "utxoCollection \<Rightarrow> utxoCollection \<Rightarrow> bool" where
  "checkIntersection collection1 collection2 = list_ex (\<lambda>(outpoint, _). uc_Contains collection2 outpoint) collection1"

definition checkIntersectionWithRule ::
  "utxoCollection \<Rightarrow> utxoCollection \<Rightarrow> (DomainOutpoint \<Rightarrow> UTXOEntry \<Rightarrow> UTXOEntry \<Rightarrow> bool) \<Rightarrow> DomainOutpoint option" where
  "checkIntersectionWithRule collection1 collection2 extraRule =
     map_option fst (List.find (\<lambda>(outpoint, utxoEntry).
       case uc_Get collection2 outpoint of None \<Rightarrow> False | Some diffEntry \<Rightarrow> extraRule outpoint utxoEntry diffEntry) collection1)"

definition intersectionWithRemainderHavingDAAScoreInPlace ::
  "utxoCollection \<Rightarrow> utxoCollection \<Rightarrow> utxoCollection \<Rightarrow> utxoCollection \<Rightarrow> utxoCollection \<times> utxoCollection" where
  "intersectionWithRemainderHavingDAAScoreInPlace collection1 collection2 result remainder =
     foldl (\<lambda>(result, remainder) (outpoint, utxoEntry).
       if containsWithDAAScore collection2 outpoint (utxo_BlockDAAScore utxoEntry)
       then (uc_add result outpoint utxoEntry, remainder)
       else (result, uc_add remainder outpoint utxoEntry)) (result, remainder) collection1"

definition subtractionHavingDAAScoreInPlace :: "utxoCollection \<Rightarrow> utxoCollection \<Rightarrow> utxoCollection \<Rightarrow> utxoCollection" where
  "subtractionHavingDAAScoreInPlace collection1 collection2 result =
     foldl (\<lambda>result (outpoint, utxoEntry).
       if \<not> containsWithDAAScore collection2 outpoint (utxo_BlockDAAScore utxoEntry)
       then uc_add result outpoint utxoEntry else result) result collection1"

definition subtractionWithRemainderHavingDAAScoreInPlace ::
  "utxoCollection \<Rightarrow> utxoCollection \<Rightarrow> utxoCollection \<Rightarrow> utxoCollection \<Rightarrow> utxoCollection \<times> utxoCollection" where
  "subtractionWithRemainderHavingDAAScoreInPlace collection1 collection2 result remainder =
     foldl (\<lambda>(result, remainder) (outpoint, utxoEntry).
       if \<not> containsWithDAAScore collection2 outpoint (utxo_BlockDAAScore utxoEntry)
       then (uc_add result outpoint utxoEntry, remainder)
       else (result, uc_add remainder outpoint utxoEntry)) (result, remainder) collection1"

definition diffFrom :: "mutableUTXODiff \<Rightarrow> mutableUTXODiff \<Rightarrow> mutableUTXODiff outcome" where
  "diffFrom this other =
     (let isNotAddedOutputRemovedWithDAAScore = (\<lambda>outpoint utxoEntry diffEntry.
            \<not> (utxo_BlockDAAScore diffEntry \<noteq> utxo_BlockDAAScore utxoEntry \<and>
               (containsWithDAAScore (toAdd this) outpoint (utxo_BlockDAAScore diffEntry) \<or>
                containsWithDAAScore (toRemove other) outpoint (utxo_BlockDAAScore utxoEntry))));
          isNotRemovedOutputAddedWithDAAScore = (\<lambda>outpoint utxoEntry diffEntry.
            \<not> (utxo_BlockDAAScore diffEntry \<noteq> utxo_BlockDAAScore utxoEntry \<and>
               (containsWithDAAScore (toRemove this) outpoint (utxo_BlockDAAScore diffEntry) \<or>
                containsWithDAAScore (toAdd other) outpoint (utxo_BlockDAAScore utxoEntry))))
      in if checkIntersectionWithRule (toRemove this) (toAdd other) isNotAddedOutputRemovedWithDAAScore \<noteq> None then Inl OtherErr
         else if checkIntersectionWithRule (toAdd this) (toRemove other) isNotRemovedOutputAddedWithDAAScore \<noteq> None then Inl OtherErr
         else if checkIntersectionWithRule (toRemove this) (toRemove other)
                (\<lambda>outpoint utxoEntry diffEntry. utxo_BlockDAAScore utxoEntry \<noteq> utxo_BlockDAAScore diffEntry) \<noteq> None
         then Inl OtherErr
         else let (remove1, inBothToAdd) = subtractionWithRemainderHavingDAAScoreInPlace (toAdd this) (toAdd other) [] []
              in if checkIntersection inBothToAdd (toRemove this) \<noteq> checkIntersection inBothToAdd (toRemove other) then Inl OtherErr
                 else let remove2 = subtractionHavingDAAScoreInPlace (toRemove other) (toRemove this) remove1;
                          add1 = subtractionHavingDAAScoreInPlace (toRemove this) (toRemove other) [];
                          add2 = subtractionHavingDAAScoreInPlace (toAdd other) (toAdd this) add1
                      in Inr \<lparr>toAdd = add2, toRemove = remove2\<rparr>)"

definition withDiffInPlace :: "mutableUTXODiff \<Rightarrow> mutableUTXODiff \<Rightarrow> mutableUTXODiff outcome" where
  "withDiffInPlace this other =
     (if checkIntersectionWithRule (toRemove other) (toRemove this)
           (\<lambda>outpoint entryToAdd existingEntry. \<not> containsWithDAAScore (toAdd this) outpoint (utxo_BlockDAAScore entryToAdd)) \<noteq> None
      then Inl OtherErr
      else if checkIntersectionWithRule (toAdd other) (toAdd this)
           (\<lambda>outpoint entryToAdd existingEntry. \<not> containsWithDAAScore (toRemove other) outpoint (utxo_BlockDAAScore existingEntry)) \<noteq> None
      then Inl OtherErr
      else let (intersection, remove1) =
                 intersectionWithRemainderHavingDAAScoreInPlace (toRemove other) (toAdd this) [] (toRemove this);
               add1 = uc_removeMultiple (toAdd this) intersection;
               (intersection, add2) = intersectionWithRemainderHavingDAAScoreInPlace (toAdd other) remove1 [] add1;
               remove2 = uc_removeMultiple remove1 intersection
           in Inr \<lparr>toAdd = add2, toRemove = remove2\<rparr>)"

text \<open>The copy that \<^verbatim>\<open>withDiff\<close> makes is the value itself.\<close>

definition withDiff :: "mutableUTXODiff \<Rightarrow> mutableUTXODiff \<Rightarrow> mutableUTXODiff outcome" where
  "withDiff this diff = withDiffInPlace this diff"

section \<open>Collections as maps\<close>

text \<open>The keys of a Go map are distinct.\<close>

definition wf_uc :: "utxoCollection \<Rightarrow> bool" where
  "wf_uc uc \<longleftrightarrow> distinct (map fst uc)"

named_theorems uc_map \<open>collections as maps\<close>

lemma wf_uc_simps [simp]:
  "wf_uc []" "wf_uc uc \<Longrightarrow> wf_uc (uc_add uc o' e)" "wf_uc uc \<Longrightarrow> wf_uc (uc_remove uc o')"
  by (simp_all add: wf_uc_def uc_add_def uc_remove_def distinct_update distinct_delete)

lemma uc_add_map [uc_map]: "map_of (uc_add uc o' e) = (map_of uc)(o' \<mapsto> e)"
  by (simp add: uc_add_def update_conv')

lemma uc_remove_map [uc_map]: "map_of (uc_remove uc o') = (map_of uc)(o' := None)"
  by (simp add: uc_remove_def delete_conv')

lemma containsWithDAAScore_iff:
  "containsWithDAAScore uc o' d \<longleftrightarrow> (\<exists>e. map_of uc o' = Some e \<and> utxo_BlockDAAScore e = d)"
  by (simp add: containsWithDAAScore_def uc_Get_def split: option.split)

lemma uc_removeMultiple_ok:
  "wf_uc uc \<Longrightarrow> wf_uc (uc_removeMultiple uc c) \<and>
     map_of (uc_removeMultiple uc c) o' = (if map_of c o' = None then map_of uc o' else None)"
  unfolding uc_removeMultiple_def
proof (induction c arbitrary: uc)
  case (Cons p c)
  obtain q e where p: "p = (q, e)" by fastforce
  from Cons.IH [of "uc_remove uc q"] Cons.prems show ?case by (auto simp: p uc_map)
qed simp

text \<open>One pass over a collection that adds the entries satisfying \<open>P\<close> to the result.\<close>

lemma filter_into:
  assumes "wf_uc c" "wf_uc r"
  shows "wf_uc (foldl (\<lambda>r (q, e). if P q e then uc_add r q e else r) r c) \<and>
    map_of (foldl (\<lambda>r (q, e). if P q e then uc_add r q e else r) r c) o' =
      (case map_of c o' of Some e \<Rightarrow> if P o' e then Some e else map_of r o' | None \<Rightarrow> map_of r o')"
  using assms
proof (induction c arbitrary: r)
  case (Cons p c)
  obtain q e where p: "p = (q, e)" by fastforce
  have "map_of c q = None" using Cons.prems(1) by (auto simp: p wf_uc_def map_of_eq_None_iff)
  moreover have "wf_uc c" using Cons.prems(1) by (simp add: wf_uc_def)
  ultimately show ?case
    using Cons.IH [of "if P q e then uc_add r q e else r"] Cons.prems(2)
    by (auto simp: p uc_map split: option.splits)
qed simp

lemma partition_into:
  "foldl (\<lambda>(a, b) (q, e). if P q e then (uc_add a q e, b) else (a, uc_add b q e)) (a, b) c =
     (foldl (\<lambda>r (q, e). if P q e then uc_add r q e else r) a c,
      foldl (\<lambda>r (q, e). if \<not> P q e then uc_add r q e else r) b c)"
  by (induction c arbitrary: a b) auto

lemma subtraction_ok:
  assumes "wf_uc c" "wf_uc r"
  shows "wf_uc (subtractionHavingDAAScoreInPlace c d r) \<and>
    map_of (subtractionHavingDAAScoreInPlace c d r) o' =
      (case map_of c o' of Some e \<Rightarrow> if containsWithDAAScore d o' (utxo_BlockDAAScore e) then map_of r o' else Some e
       | None \<Rightarrow> map_of r o')"
  using filter_into [OF assms, of "\<lambda>q e. \<not> containsWithDAAScore d q (utxo_BlockDAAScore e)" o']
  by (simp add: subtractionHavingDAAScoreInPlace_def split: option.splits)

lemma subtractionRemainder_ok:
  assumes "wf_uc c" "wf_uc r" "wf_uc m" "subtractionWithRemainderHavingDAAScoreInPlace c d r m = (x, y)"
  shows "wf_uc x \<and> wf_uc y \<and>
    map_of x o' = (case map_of c o' of Some e \<Rightarrow> if containsWithDAAScore d o' (utxo_BlockDAAScore e) then map_of r o' else Some e
       | None \<Rightarrow> map_of r o') \<and>
    map_of y o' = (case map_of c o' of Some e \<Rightarrow> if containsWithDAAScore d o' (utxo_BlockDAAScore e) then Some e else map_of m o'
       | None \<Rightarrow> map_of m o')"
  using assms(4) filter_into [OF assms(1,2), of "\<lambda>q e. \<not> containsWithDAAScore d q (utxo_BlockDAAScore e)" o']
    filter_into [OF assms(1,3), of "\<lambda>q e. containsWithDAAScore d q (utxo_BlockDAAScore e)" o']
    partition_into [of "\<lambda>q e. \<not> containsWithDAAScore d q (utxo_BlockDAAScore e)" r m c]
  by (auto simp: subtractionWithRemainderHavingDAAScoreInPlace_def split: option.splits)

lemma intersectionRemainder_ok:
  assumes "wf_uc c" "wf_uc r" "wf_uc m" "intersectionWithRemainderHavingDAAScoreInPlace c d r m = (x, y)"
  shows "wf_uc x \<and> wf_uc y \<and>
    map_of x o' = (case map_of c o' of Some e \<Rightarrow> if containsWithDAAScore d o' (utxo_BlockDAAScore e) then Some e else map_of r o'
       | None \<Rightarrow> map_of r o') \<and>
    map_of y o' = (case map_of c o' of Some e \<Rightarrow> if containsWithDAAScore d o' (utxo_BlockDAAScore e) then map_of m o' else Some e
       | None \<Rightarrow> map_of m o')"
  using assms(4) filter_into [OF assms(1,2), of "\<lambda>q e. containsWithDAAScore d q (utxo_BlockDAAScore e)" o']
    filter_into [OF assms(1,3), of "\<lambda>q e. \<not> containsWithDAAScore d q (utxo_BlockDAAScore e)" o']
    partition_into [of "\<lambda>q e. containsWithDAAScore d q (utxo_BlockDAAScore e)" r m c]
  by (auto simp: intersectionWithRemainderHavingDAAScoreInPlace_def split: option.splits)

lemma checkIntersectionWithRule_None:
  assumes "wf_uc c"
  shows "checkIntersectionWithRule c d rule = None \<longleftrightarrow>
    (\<forall>q e f. map_of c q = Some e \<longrightarrow> map_of d q = Some f \<longrightarrow> \<not> rule q e f)"
proof -
  have "map_of c q = Some e \<longleftrightarrow> (q, e) \<in> set c" for q e
    using assms by (simp add: wf_uc_def)
  then show ?thesis
    by (auto simp: checkIntersectionWithRule_def find_None_iff uc_Get_def split: option.splits)
qed

lemma checkIntersection_iff:
  "wf_uc c \<Longrightarrow> checkIntersection c d \<longleftrightarrow> (\<exists>q. map_of c q \<noteq> None \<and> map_of d q \<noteq> None)"
  by (force simp: checkIntersection_def list_ex_iff uc_Contains_def wf_uc_def)

section \<open>What a diff does to a set\<close>

type_synonym utxoSet = "DomainOutpoint \<Rightarrow> UTXOEntry option"

definition applied :: "mutableUTXODiff \<Rightarrow> utxoSet \<Rightarrow> utxoSet" where
  "applied d B = (\<lambda>q. case map_of (toAdd d) q of Some e \<Rightarrow> Some e
     | None \<Rightarrow> if map_of (toRemove d) q = None then B q else None)"

text \<open>
  A diff is valid on a set when it removes only entries of the set and adds only outpoints that
  are not in the set or that it removes with another DAA score.
\<close>

definition valid_at :: "mutableUTXODiff \<Rightarrow> utxoSet \<Rightarrow> DomainOutpoint \<Rightarrow> bool" where
  "valid_at d B q \<longleftrightarrow>
     (\<forall>e. map_of (toRemove d) q = Some e \<longrightarrow> B q = Some e) \<and>
     (\<forall>e. map_of (toAdd d) q = Some e \<longrightarrow>
        (case map_of (toRemove d) q of None \<Rightarrow> B q = None | Some r \<Rightarrow> utxo_BlockDAAScore r \<noteq> utxo_BlockDAAScore e))"

definition valid_on :: "mutableUTXODiff \<Rightarrow> utxoSet \<Rightarrow> bool" where
  "valid_on d B \<longleftrightarrow> wf_uc (toAdd d) \<and> wf_uc (toRemove d) \<and> (\<forall>q. valid_at d B q)"

text \<open>Entries of the same output with the same DAA score are equal.\<close>

definition agree :: "utxoSet \<Rightarrow> utxoSet \<Rightarrow> bool" where
  "agree m n \<longleftrightarrow> (\<forall>q e f. m q = Some e \<longrightarrow> n q = Some f \<longrightarrow> utxo_BlockDAAScore e = utxo_BlockDAAScore f \<longrightarrow> e = f)"

lemma agree_at: "agree m n \<Longrightarrow> \<forall>e f. m q = Some e \<longrightarrow> n q = Some f \<longrightarrow> utxo_BlockDAAScore e = utxo_BlockDAAScore f \<longrightarrow> e = f"
  by (simp add: agree_def)

lemma valid_onD: "valid_on d B \<Longrightarrow> wf_uc (toAdd d) \<and> wf_uc (toRemove d) \<and> valid_at d B q"
  by (simp add: valid_on_def)

lemma valid_remove: "\<lbrakk> valid_on d B; map_of (toRemove d) q = Some e \<rbrakk> \<Longrightarrow> B q = Some e"
  by (simp add: valid_on_def valid_at_def)

lemma valid_readd:
  "\<lbrakk> valid_on d B; map_of (toAdd d) q = Some e; map_of (toRemove d) q = Some r \<rbrakk> \<Longrightarrow> utxo_BlockDAAScore r \<noteq> utxo_BlockDAAScore e"
  by (auto simp: valid_on_def valid_at_def split: option.splits)

lemma valid_add: "\<lbrakk> valid_on d B; map_of (toAdd d) q = Some e; map_of (toRemove d) q = None \<rbrakk> \<Longrightarrow> B q = None"
  using valid_onD [of d B q] by (simp add: valid_at_def)

lemma valid_at_present: "\<lbrakk> valid_on d B; map_of (toAdd d) q = Some e; B q = Some b \<rbrakk> \<Longrightarrow> map_of (toRemove d) q = Some b"
  by (cases "map_of (toRemove d) q") (auto dest: valid_add valid_remove)

lemma Reversed_ok:
  assumes "valid_on d B"
  shows "valid_on (Reversed d) (applied d B) \<and> applied (Reversed d) (applied d B) = B"
proof -
  have "valid_at (Reversed d) (applied d B) q \<and> applied (Reversed d) (applied d B) q = B q" for q
    using valid_onD [OF assms, of q]
    by (cases "map_of (toAdd d) q"; cases "map_of (toRemove d) q") (auto simp: valid_at_def applied_def Reversed_def)
  moreover have "wf_uc (toAdd (Reversed d)) \<and> wf_uc (toRemove (Reversed d))"
    using assms by (simp add: valid_on_def Reversed_def)
  ultimately show ?thesis by (auto simp: valid_on_def)
qed

section \<open>One outpoint at a time\<close>

text \<open>The same notions for the entries of one outpoint: added, removed and in the set.\<close>

definition applied1 :: "UTXOEntry option \<Rightarrow> UTXOEntry option \<Rightarrow> UTXOEntry option \<Rightarrow> UTXOEntry option" where
  "applied1 A R b = (case A of Some e \<Rightarrow> Some e | None \<Rightarrow> if R = None then b else None)"

definition valid1 :: "UTXOEntry option \<Rightarrow> UTXOEntry option \<Rightarrow> UTXOEntry option \<Rightarrow> bool" where
  "valid1 A R b \<longleftrightarrow> (R \<noteq> None \<longrightarrow> R = b) \<and>
     (case A of None \<Rightarrow> True | Some e \<Rightarrow> (case R of None \<Rightarrow> b = None | Some r \<Rightarrow> utxo_BlockDAAScore r \<noteq> utxo_BlockDAAScore e))"

definition same1 :: "UTXOEntry option \<Rightarrow> UTXOEntry option \<Rightarrow> bool" where
  "same1 x y \<longleftrightarrow> (case x of None \<Rightarrow> True | Some e \<Rightarrow> (case y of None \<Rightarrow> True
     | Some f \<Rightarrow> e = f \<or> utxo_BlockDAAScore e \<noteq> utxo_BlockDAAScore f))"

definition score_in :: "UTXOEntry \<Rightarrow> UTXOEntry option \<Rightarrow> bool" where
  "score_in e x \<longleftrightarrow> (case x of None \<Rightarrow> False | Some f \<Rightarrow> utxo_BlockDAAScore f = utxo_BlockDAAScore e)"

lemma applied_1: "applied d B q = applied1 (map_of (toAdd d) q) (map_of (toRemove d) q) (B q)"
  by (simp add: applied_def applied1_def)

lemma valid_1: "valid_at d B q \<longleftrightarrow> valid1 (map_of (toAdd d) q) (map_of (toRemove d) q) (B q)"
  by (auto simp: valid_at_def valid1_def split: option.split)

lemma same_1: "agree m n \<Longrightarrow> same1 (m q) (n q)"
  by (auto simp: agree_def same1_def split: option.split)

lemma contains_1: "containsWithDAAScore uc q (utxo_BlockDAAScore e) \<longleftrightarrow> score_in e (map_of uc q)"
  by (auto simp: containsWithDAAScore_iff score_in_def split: option.split)

lemma withDiff_1:
  assumes "valid1 A R b" "valid1 A' R' (applied1 A R b)" "same1 A' b"
    and i: "i = (case R' of Some e \<Rightarrow> if score_in e A then Some e else None | None \<Rightarrow> None)"
    and r: "r = (case R' of Some e \<Rightarrow> if score_in e A then R else Some e | None \<Rightarrow> R)"
    and a: "a = (if i = None then A else None)"
    and i': "i' = (case A' of Some e \<Rightarrow> if score_in e r then Some e else None | None \<Rightarrow> None)"
    and a': "a' = (case A' of Some e \<Rightarrow> if score_in e r then a else Some e | None \<Rightarrow> a)"
    and r': "r' = (if i' = None then r else None)"
  shows "valid1 a' r' b \<and> applied1 a' r' b = applied1 A' R' (applied1 A R b)"
  using assms(1-3) unfolding r' a' i' a r i
  by (cases A; cases R; cases A'; cases R'; cases b; simp add: valid1_def applied1_def same1_def score_in_def) auto

lemma diffFrom_1:
  assumes "valid1 A R b" "valid1 A' R' b" "same1 A A'"
    and r: "r = (case A of Some e \<Rightarrow> if score_in e A' then None else Some e | None \<Rightarrow> None)"
    and r': "r' = (case R' of Some e \<Rightarrow> if score_in e R then r else Some e | None \<Rightarrow> r)"
    and a: "a = (case R of Some e \<Rightarrow> if score_in e R' then None else Some e | None \<Rightarrow> None)"
    and a': "a' = (case A' of Some e \<Rightarrow> if score_in e A then a else Some e | None \<Rightarrow> a)"
  shows "valid1 a' r' (applied1 A R b) \<and> applied1 a' r' (applied1 A R b) = applied1 A' R' b"
  using assms(1-3) unfolding r' a' a r
  by (cases A; cases R; cases A'; cases R'; cases b; simp add: valid1_def applied1_def same1_def score_in_def) auto

section \<open>Combining diffs\<close>

lemma withDiff_ok:
  assumes v1: "valid_on this B" and v2: "valid_on other (applied this B)"
    and same: "agree (map_of (toAdd other)) B"
  shows "\<exists>d. withDiff this other = Inr d \<and> valid_on d B \<and> applied d B = applied other (applied this B)"
proof -
  note wf = valid_onD [OF v1, THEN conjunct1] valid_onD [OF v1, THEN conjunct2, THEN conjunct1]
    valid_onD [OF v2, THEN conjunct1] valid_onD [OF v2, THEN conjunct2, THEN conjunct1]
  have c1: "checkIntersectionWithRule (toRemove other) (toRemove this)
      (\<lambda>q e f. \<not> containsWithDAAScore (toAdd this) q (utxo_BlockDAAScore e)) = None"
  proof -
    have "\<exists>a. map_of (toAdd this) q = Some a \<and> utxo_BlockDAAScore a = utxo_BlockDAAScore e"
      if "map_of (toRemove other) q = Some e" "map_of (toRemove this) q = Some f" for q e f
      using valid_remove [OF v2 that(1)] that(2) by (auto simp: applied_def split: option.splits)
    then show ?thesis by (auto simp: checkIntersectionWithRule_None [OF wf(4)] containsWithDAAScore_iff)
  qed
  have c2: "checkIntersectionWithRule (toAdd other) (toAdd this)
      (\<lambda>q e f. \<not> containsWithDAAScore (toRemove other) q (utxo_BlockDAAScore f)) = None"
    using valid_at_present [OF v2]
    by (auto simp: checkIntersectionWithRule_None [OF wf(3)] containsWithDAAScore_iff applied_def)
  obtain i1 r1 where p1: "intersectionWithRemainderHavingDAAScoreInPlace (toRemove other) (toAdd this) [] (toRemove this) = (i1, r1)"
    by fastforce
  define a1 where "a1 = uc_removeMultiple (toAdd this) i1"
  obtain i2 a2 where p2: "intersectionWithRemainderHavingDAAScoreInPlace (toAdd other) r1 [] a1 = (i2, a2)" by fastforce
  define d where "d = \<lparr>toAdd = a2, toRemove = uc_removeMultiple r1 i2\<rparr>"
  have run: "withDiff this other = Inr d"
    using c1 c2 p1 p2 by (simp add: withDiff_def withDiffInPlace_def d_def a1_def)
  note q1 = intersectionRemainder_ok [OF wf(4) _ wf(2) p1, simplified]
  have wa1: "wf_uc a1" and a1: "map_of a1 q = (if map_of i1 q = None then map_of (toAdd this) q else None)" for q
    using uc_removeMultiple_ok [OF wf(1), of i1] by (simp_all add: a1_def)
  note q2 = intersectionRemainder_ok [OF wf(3) _ wa1 p2, simplified]
  have wd: "wf_uc (toAdd d) \<and> wf_uc (toRemove d)"
    and rd: "map_of (toRemove d) q = (if map_of i2 q = None then map_of r1 q else None)" for q
    using q2 q1 uc_removeMultiple_ok [of r1 i2] by (simp_all add: d_def)
  have "valid_at d B q \<and> applied d B q = applied other (applied this B) q" for q
    unfolding valid_1 applied_1
    by (rule withDiff_1 [where A = "map_of (toAdd this) q" and R = "map_of (toRemove this) q" and
          A' = "map_of (toAdd other) q" and R' = "map_of (toRemove other) q"])
      (use valid_onD [OF v1, of q] valid_onD [OF v2, of q] same_1 [OF same, of q] q1 [of q] q2 [of q] a1 [of q] rd [of q]
       in \<open>simp_all add: valid_1 applied_1 contains_1 d_def cong: option.case_cong if_cong\<close>)
  with wd run show ?thesis by (auto simp: valid_on_def)
qed

lemma removed_and_readded:
  assumes "valid_on d B" "valid_on d' B" "map_of (toRemove d) q = Some e" "map_of (toAdd d') q = Some f"
  shows "map_of (toRemove d') q = Some e \<and> utxo_BlockDAAScore e \<noteq> utxo_BlockDAAScore f"
  using valid_at_present [OF assms(2,4) valid_remove [OF assms(1,3)]] valid_readd [OF assms(2,4)] by blast

lemma diffFrom_ok:
  assumes v1: "valid_on this B" and v2: "valid_on other B" and same: "agree (map_of (toAdd this)) (map_of (toAdd other))"
  shows "\<exists>d. diffFrom this other = Inr d \<and> valid_on d (applied this B) \<and> applied d (applied this B) = applied other B"
proof -
  note wf = valid_onD [OF v1, THEN conjunct1] valid_onD [OF v1, THEN conjunct2, THEN conjunct1]
    valid_onD [OF v2, THEN conjunct1] valid_onD [OF v2, THEN conjunct2, THEN conjunct1]
  have c1: "checkIntersectionWithRule (toRemove this) (toAdd other) (\<lambda>q e f.
      \<not> (utxo_BlockDAAScore f \<noteq> utxo_BlockDAAScore e \<and> (containsWithDAAScore (toAdd this) q (utxo_BlockDAAScore f) \<or>
        containsWithDAAScore (toRemove other) q (utxo_BlockDAAScore e)))) = None"
    unfolding checkIntersectionWithRule_None [OF wf(2)]
    by (intro allI impI, drule (1) removed_and_readded [OF v1 v2]) (auto simp: containsWithDAAScore_iff)
  have c2: "checkIntersectionWithRule (toAdd this) (toRemove other) (\<lambda>q e f.
      \<not> (utxo_BlockDAAScore f \<noteq> utxo_BlockDAAScore e \<and> (containsWithDAAScore (toRemove this) q (utxo_BlockDAAScore f) \<or>
        containsWithDAAScore (toAdd other) q (utxo_BlockDAAScore e)))) = None"
    unfolding checkIntersectionWithRule_None [OF wf(1)]
    by (intro allI impI, frule (1) removed_and_readded [OF v2 v1, rotated]) (auto simp: containsWithDAAScore_iff)
  have c3: "checkIntersectionWithRule (toRemove this) (toRemove other) (\<lambda>q e f. utxo_BlockDAAScore e \<noteq> utxo_BlockDAAScore f) = None"
    unfolding checkIntersectionWithRule_None [OF wf(2)]
    by (intro allI impI, drule valid_remove [OF v1], drule valid_remove [OF v2]) simp
  obtain r1 both where p1: "subtractionWithRemainderHavingDAAScoreInPlace (toAdd this) (toAdd other) [] [] = (r1, both)" by fastforce
  note q1 = subtractionRemainder_ok [OF wf(1) _ _ p1, simplified]
  have c4: "checkIntersection both (toRemove this) = checkIntersection both (toRemove other)"
  proof -
    have "map_of (toRemove this) q = None \<longleftrightarrow> map_of (toRemove other) q = None" if "map_of both q = Some e" for q e
    proof -
      have "\<exists>a. map_of (toAdd this) q = Some a" "\<exists>b. map_of (toAdd other) q = Some b"
        using q1 [of q] that by (auto simp: containsWithDAAScore_iff split: option.splits if_splits)
      then show ?thesis using valid_onD [OF v1, of q] valid_onD [OF v2, of q] by (auto simp: valid_at_def split: option.splits)
    qed
    then have "map_of both q \<noteq> None \<and> map_of (toRemove this) q \<noteq> None \<longleftrightarrow> map_of both q \<noteq> None \<and> map_of (toRemove other) q \<noteq> None" for q
      by (cases "map_of both q") auto
    moreover have w: "wf_uc both" using q1 by simp
    ultimately show ?thesis unfolding checkIntersection_iff [OF w] by simp
  qed
  define d where "d = \<lparr>toAdd = subtractionHavingDAAScoreInPlace (toAdd other) (toAdd this)
      (subtractionHavingDAAScoreInPlace (toRemove this) (toRemove other) []),
    toRemove = subtractionHavingDAAScoreInPlace (toRemove other) (toRemove this) r1\<rparr>"
  have run: "diffFrom this other = Inr d"
    using c1 c2 c3 c4 p1 by (simp add: diffFrom_def d_def Let_def)
  note a1 = subtraction_ok [OF wf(2), of "[]" "toRemove other", simplified]
  note a2 = subtraction_ok [OF wf(3) a1 [THEN conjunct1], of "toAdd this"]
  note r2 = subtraction_ok [OF wf(4), of r1 "toRemove this"]
  have wd: "wf_uc (toAdd d) \<and> wf_uc (toRemove d)" using a2 r2 q1 by (simp add: d_def)
  have "valid_at d (applied this B) q \<and> applied d (applied this B) q = applied other B q" for q
    unfolding valid_1 applied_1
    by (rule diffFrom_1 [where A = "map_of (toAdd this) q" and R = "map_of (toRemove this) q" and
          A' = "map_of (toAdd other) q" and R' = "map_of (toRemove other) q"])
      (use valid_onD [OF v1, of q] valid_onD [OF v2, of q] same_1 [OF same, of q] q1 [of q] a1 [of q] a2 [of q] r2 [of q]
       in \<open>simp_all add: valid_1 applied_1 contains_1 d_def cong: option.case_cong if_cong\<close>)
  with wd run show ?thesis by (auto simp: valid_on_def)
qed

section \<open>Transactions as changes of the set\<close>

lemma removeEntry_1:
  assumes "valid1 A R b" "applied1 A R b = Some e"
  shows "(if score_in e A then valid1 None R b \<and> applied1 None R b = None
          else R = None \<and> valid1 A (Some e) b \<and> applied1 A (Some e) b = None)"
  using assms by (cases A; cases R; cases b; simp add: valid1_def applied1_def score_in_def)

lemma addEntry_1:
  assumes "valid1 A R b" "applied1 A R b = None" "same1 (Some e) b"
  shows "(if score_in e R then valid1 A None b \<and> applied1 A None b = Some e
          else A = None \<and> valid1 (Some e) R b \<and> applied1 (Some e) R b = Some e)"
  using assms by (cases A; cases R; cases b; simp add: valid1_def applied1_def score_in_def same1_def) auto

lemma changed_at:
  assumes "valid_on d B" "wf_uc (toAdd d')" "wf_uc (toRemove d')"
    and "\<And>p. p \<noteq> q \<Longrightarrow> map_of (toAdd d') p = map_of (toAdd d) p \<and> map_of (toRemove d') p = map_of (toRemove d) p"
    and "valid_at d' B q \<and> applied d' B q = x"
  shows "valid_on d' B \<and> applied d' B = (applied d B)(q := x)"
proof -
  have "valid_at d' B p \<and> applied d' B p = ((applied d B)(q := x)) p" for p
    using assms(4) [of p] assms(5) valid_onD [OF assms(1), of p] by (cases "p = q") (simp_all add: valid_1 applied_1)
  then show ?thesis using assms(2,3) by (auto simp: valid_on_def)
qed

lemma removeEntry_ok:
  assumes v: "valid_on d B" and e: "applied d B q = Some e"
  shows "\<exists>d'. removeEntry d q e = Inr d' \<and> valid_on d' B \<and> applied d' B = (applied d B)(q := None)"
proof -
  note r = removeEntry_1 [OF valid_onD [OF v, THEN conjunct2, THEN conjunct2, unfolded valid_1] e [unfolded applied_1]]
  note wf = valid_onD [OF v]
  show ?thesis
  proof (cases "score_in e (map_of (toAdd d) q)")
    case True
    then show ?thesis using r wf
      by (intro exI [of _ "d\<lparr>toAdd := uc_remove (toAdd d) q\<rparr>"])
        (auto simp: removeEntry_def contains_1 uc_map valid_1 applied_1 intro!: changed_at [OF v, THEN conjunct1] changed_at [OF v, THEN conjunct2])
  next
    case False
    then show ?thesis using r wf
      by (intro exI [of _ "d\<lparr>toRemove := uc_add (toRemove d) q e\<rparr>"])
        (auto simp: removeEntry_def contains_1 uc_Contains_def uc_map valid_1 applied_1 intro!: changed_at [OF v, THEN conjunct1] changed_at [OF v, THEN conjunct2])
  qed
qed

lemma addEntry_ok:
  assumes v: "valid_on d B" and e: "applied d B q = None" and same: "same1 (Some e) (B q)"
  shows "\<exists>d'. addEntry d q e = Inr d' \<and> valid_on d' B \<and> applied d' B = (applied d B)(q \<mapsto> e)"
proof -
  note r = addEntry_1 [OF valid_onD [OF v, THEN conjunct2, THEN conjunct2, unfolded valid_1] e [unfolded applied_1] same]
  note wf = valid_onD [OF v]
  show ?thesis
  proof (cases "score_in e (map_of (toRemove d) q)")
    case True
    then show ?thesis using r wf
      by (intro exI [of _ "d\<lparr>toRemove := uc_remove (toRemove d) q\<rparr>"])
        (auto simp: addEntry_def contains_1 uc_map valid_1 applied_1 intro!: changed_at [OF v, THEN conjunct1] changed_at [OF v, THEN conjunct2])
  next
    case False
    then show ?thesis using r wf
      by (intro exI [of _ "d\<lparr>toAdd := uc_add (toAdd d) q e\<rparr>"])
        (auto simp: addEntry_def contains_1 uc_Contains_def uc_map valid_1 applied_1 intro!: changed_at [OF v, THEN conjunct1] changed_at [OF v, THEN conjunct2])
  qed
qed

lemma removeInputs_ok:
  assumes "valid_on d B" "distinct (map in_PreviousOutpoint ins)"
    "\<forall>i\<in>set ins. \<exists>e. in_UTXOEntry i = Some e \<and> applied d B (in_PreviousOutpoint i) = Some e"
  shows "\<exists>d'. removeInputs d ins = Inr d' \<and> valid_on d' B \<and>
    applied d' B = applied d B |` (- in_PreviousOutpoint ` set ins)"
  using assms
proof (induction ins arbitrary: d)
  case (Cons i ins)
  from Cons.prems obtain e where e: "in_UTXOEntry i = Some e" "applied d B (in_PreviousOutpoint i) = Some e" by auto
  from removeEntry_ok [OF Cons.prems(1) e(2)] obtain d1 where d1: "removeEntry d (in_PreviousOutpoint i) e = Inr d1"
    "valid_on d1 B" "applied d1 B = (applied d B)(in_PreviousOutpoint i := None)" by blast
  have "in_PreviousOutpoint j \<noteq> in_PreviousOutpoint i" if "j \<in> set ins" for j
    using Cons.prems(2) that by (metis distinct.simps(2) imageI list.set_map list.simps(9))
  then have "\<forall>i\<in>set ins. \<exists>e. in_UTXOEntry i = Some e \<and> applied d1 B (in_PreviousOutpoint i) = Some e"
    using Cons.prems(3) by (simp add: d1(3))
  from Cons.IH [OF d1(2) _ this] Cons.prems(2) show ?case
    by (auto simp: e d1 restrict_map_def fun_eq_iff bindR_def)
qed (simp add: restrict_map_def)

text \<open>The outputs of a transaction as entries of the set, and what it does to the set.\<close>

fun createdFrom :: "bytes \<Rightarrow> bool \<Rightarrow> uint64 \<Rightarrow> nat \<Rightarrow> DomainTransactionOutput list \<Rightarrow> utxoCollection" where
  "createdFrom txid coinbase daa i [] = []"
| "createdFrom txid coinbase daa i (out # outs) =
     (\<lparr>outpoint_TransactionID = txid, outpoint_Index = word_of_nat i\<rparr>, NewUTXOEntry (out_Value out) (out_ScriptPublicKey out) coinbase daa) #
     createdFrom txid coinbase daa (Suc i) outs"

definition created :: "hashLib \<Rightarrow> DomainTransaction \<Rightarrow> uint64 \<Rightarrow> utxoCollection" where
  "created lib tx daa = createdFrom (fst (TransactionID lib tx)) (IsCoinBase tx) daa 0 (tx_Outputs tx)"

definition spent :: "DomainTransaction \<Rightarrow> DomainOutpoint list" where
  "spent tx = map in_PreviousOutpoint (tx_Inputs tx)"

lemma createdFrom_index:
  "\<lbrakk> (q, e) \<in> set (createdFrom txid cb daa i outs); i + length outs \<le> 2 ^ 32 \<rbrakk>
    \<Longrightarrow> i \<le> unat (outpoint_Index q) \<and> utxo_BlockDAAScore e = daa"
proof (induction outs arbitrary: i)
  case (Cons out outs)
  from Cons.prems(2) have "unat (word_of_nat i :: uint32) = i" by (simp add: unsigned_of_nat take_bit_nat_eq_self)
  with Cons.prems Cons.IH [of "Suc i"] show ?case by (auto simp: NewUTXOEntry_def)
qed simp

lemma addOutputs_ok:
  assumes "valid_on d B" "i + length outs \<le> 2 ^ 32"
    "\<forall>p\<in>set (createdFrom txid cb daa i outs). applied d B (fst p) = None \<and> same1 (Some (snd p)) (B (fst p))"
  shows "\<exists>d'. addOutputs d txid cb daa i outs = Inr d' \<and> valid_on d' B \<and>
    applied d' B = applied d B ++ map_of (createdFrom txid cb daa i outs)"
  using assms
proof (induction outs arbitrary: d i)
  case (Cons out outs)
  define q where "q = \<lparr>outpoint_TransactionID = txid, outpoint_Index = (word_of_nat i :: uint32)\<rparr>"
  define e where "e = NewUTXOEntry (out_Value out) (out_ScriptPublicKey out) cb daa"
  have fresh: "fst p \<noteq> q" if "p \<in> set (createdFrom txid cb daa (Suc i) outs)" for p
    using createdFrom_index [of "fst p" "snd p" txid cb daa "Suc i" outs] that Cons.prems(2) by (auto simp: q_def unsigned_of_nat take_bit_nat_eq_self)
  from Cons.prems(3) have "applied d B q = None" "same1 (Some e) (B q)" by (simp_all add: q_def e_def)
  from addEntry_ok [OF Cons.prems(1) this] obtain d1 where d1: "addEntry d q e = Inr d1" "valid_on d1 B"
    "applied d1 B = (applied d B)(q \<mapsto> e)" by blast
  have later: "\<forall>p\<in>set (createdFrom txid cb daa (Suc i) outs). applied d1 B (fst p) = None \<and> same1 (Some (snd p)) (B (fst p))"
    using Cons.prems(3) fresh by (simp add: d1(3))
  have "map_of (createdFrom txid cb daa (Suc i) outs) q = None"
    using fresh by (force simp: map_of_eq_None_iff)
  then have m: "applied d1 B ++ map_of (createdFrom txid cb daa (Suc i) outs) = applied d B ++ map_of (createdFrom txid cb daa i (out # outs))"
    by (auto simp: d1(3) map_add_def fun_eq_iff q_def [symmetric] e_def [symmetric] split: option.split)
  have "addOutputs d txid cb daa i (out # outs) = addOutputs d1 txid cb daa (Suc i) outs"
    using d1(1) by (simp add: q_def e_def)
  with Cons.IH [OF d1(2) _ later] Cons.prems(2) show ?case unfolding m [symmetric] by simp
qed simp

lemma AddTransaction_ok:
  assumes "valid_on d B" "distinct (spent tx)" "length (tx_Outputs tx) \<le> 2 ^ 32"
    "\<forall>i\<in>set (tx_Inputs tx). in_UTXOEntry i \<noteq> None \<and> applied d B (in_PreviousOutpoint i) = in_UTXOEntry i"
    "\<forall>p\<in>set (created lib tx daa). (fst p \<in> set (spent tx) \<or> applied d B (fst p) = None) \<and> same1 (Some (snd p)) (B (fst p))"
  shows "\<exists>d'. AddTransaction lib d tx daa = Inr (d', snd (TransactionID lib tx)) \<and> valid_on d' B \<and>
    applied d' B = applied d B |` (- set (spent tx)) ++ map_of (created lib tx daa)"
proof -
  have "\<forall>i\<in>set (tx_Inputs tx). \<exists>e. in_UTXOEntry i = Some e \<and> applied d B (in_PreviousOutpoint i) = Some e"
    using assms(4) by auto
  from removeInputs_ok [OF assms(1) _ this] assms(2) obtain d1 where d1: "removeInputs d (tx_Inputs tx) = Inr d1"
    "valid_on d1 B" "applied d1 B = applied d B |` (- set (spent tx))" by (auto simp: spent_def)
  have "\<forall>p\<in>set (created lib tx daa). applied d1 B (fst p) = None \<and> same1 (Some (snd p)) (B (fst p))"
    using assms(5) by (auto simp: d1(3) restrict_map_def)
  from addOutputs_ok [OF d1(2) _ this [unfolded created_def]] assms(3) d1 show ?thesis
    by (auto simp: AddTransaction_def created_def split: prod.split)
qed

section \<open>Properties\<close>

text \<open>A set with one entry, two diffs of it that spend and create outputs, and transactions.\<close>

definition sample_outpoint :: "nat \<Rightarrow> DomainOutpoint" where
  "sample_outpoint i = \<lparr>outpoint_TransactionID = [], outpoint_Index = word_of_nat i\<rparr>"

definition sample_entry :: "uint64 \<Rightarrow> uint64 \<Rightarrow> UTXOEntry" where
  "sample_entry amount daa = NewUTXOEntry amount \<lparr>spk_Script = [], spk_Version = 0\<rparr> False daa"

definition sample_set :: utxoSet where
  "sample_set = [sample_outpoint 0 \<mapsto> sample_entry 5 1]"

definition sample_diff :: mutableUTXODiff where
  "sample_diff = \<lparr>toAdd = [(sample_outpoint 1, sample_entry 4 2)], toRemove = [(sample_outpoint 0, sample_entry 5 1)]\<rparr>"

definition sample_other :: mutableUTXODiff where
  "sample_other = \<lparr>toAdd = [(sample_outpoint 2, sample_entry 3 3)], toRemove = [(sample_outpoint 1, sample_entry 4 2)]\<rparr>"

definition sample_third :: mutableUTXODiff where
  "sample_third = \<lparr>toAdd = [(sample_outpoint 1, sample_entry 4 2), (sample_outpoint 2, sample_entry 1 2)],
     toRemove = [(sample_outpoint 0, sample_entry 5 1)]\<rparr>"

definition sample_payment :: DomainTransaction where
  "sample_payment = \<lparr>tx_Version = 0,
     tx_Inputs = [\<lparr>in_PreviousOutpoint = sample_outpoint 1, in_SignatureScript = [], in_Sequence = 0, in_SigOpCount = 0,
       in_UTXOEntry = Some (sample_entry 4 2)\<rparr>],
     tx_Outputs = [\<lparr>out_Value = 3, out_ScriptPublicKey = \<lparr>spk_Script = [], spk_Version = 0\<rparr>\<rparr>],
     tx_LockTime = 0, tx_SubnetworkID = 0 # replicate 19 0, tx_Gas = 0, tx_Payload = [], tx_Fee = 1, tx_Mass = 0, tx_ID = Some [7]\<rparr>"

lemmas sample_simps = sample_outpoint_def sample_entry_def NewUTXOEntry_def

lemma sample_diffs:
  "valid_on sample_diff sample_set" "valid_on sample_third sample_set"
  "valid_on sample_other (applied sample_diff sample_set)"
  "agree (map_of (toAdd sample_other)) sample_set" "agree (map_of (toAdd sample_diff)) (map_of (toAdd sample_third))"
  by (auto simp: valid_on_def valid_at_def wf_uc_def applied_def agree_def sample_diff_def sample_other_def sample_third_def
      sample_set_def sample_simps split: if_splits)

text \<open>
  C6: Combining diffs is right. For a diff \<open>this\<close> that is valid on a UTXO set and a diff
  \<open>other\<close> that is valid on the set \<open>this\<close> gives, \<open>withDiff\<close> succeeds, its result is a
  valid diff of the original set, and applying the result is applying the one diff after the other.
  Outputs that are created and spent on the way cancel, and outputs that come back with another DAA
  score stay both removed and added. (Two entries of an output with the same DAA score are the same.)
\<close>

theorem withDiff_composes:
  assumes "valid_on this B" "valid_on other (applied this B)" "agree (map_of (toAdd other)) B"
  shows "\<exists>d. withDiff this other = Inr d \<and> valid_on d B \<and> applied d B = applied other (applied this B)"
  using assms by (rule withDiff_ok)

theorem withDiff_composes_witness:
  "withDiff sample_diff sample_other =
     Inr \<lparr>toAdd = [(sample_outpoint 2, sample_entry 3 3)], toRemove = [(sample_outpoint 0, sample_entry 5 1)]\<rparr> \<and>
   (\<exists>d. withDiff sample_diff sample_other = Inr d \<and> valid_on d sample_set \<and>
        applied d sample_set = applied sample_other (applied sample_diff sample_set))"
proof -
  have "withDiff sample_diff sample_other =
      Inr \<lparr>toAdd = [(sample_outpoint 2, sample_entry 3 3)], toRemove = [(sample_outpoint 0, sample_entry 5 1)]\<rparr>"
    by code_simp
  then show ?thesis using withDiff_composes [OF sample_diffs(1,3,4)] by blast
qed

text \<open>
  C13: The difference of two diffs of one UTXO set is right: \<open>diffFrom this other\<close> succeeds, is
  valid on the set \<open>this\<close> gives, and takes it to the set \<open>other\<close> gives.
\<close>

theorem diffFrom_leads:
  assumes "valid_on this B" "valid_on other B" "agree (map_of (toAdd this)) (map_of (toAdd other))"
  shows "\<exists>d. diffFrom this other = Inr d \<and> valid_on d (applied this B) \<and> applied d (applied this B) = applied other B"
  using assms by (rule diffFrom_ok)

theorem diffFrom_leads_witness:
  "diffFrom sample_diff sample_third = Inr \<lparr>toAdd = [(sample_outpoint 2, sample_entry 1 2)], toRemove = []\<rparr> \<and>
   (\<exists>d. diffFrom sample_diff sample_third = Inr d \<and> valid_on d (applied sample_diff sample_set) \<and>
        applied d (applied sample_diff sample_set) = applied sample_third sample_set)"
proof -
  have "diffFrom sample_diff sample_third = Inr \<lparr>toAdd = [(sample_outpoint 2, sample_entry 1 2)], toRemove = []\<rparr>"
    by code_simp
  then show ?thesis using diffFrom_leads [OF sample_diffs(1,2,5)] by blast
qed

text \<open>
  C28: Reversing a diff undoes it, on every UTXO set on which the diff is valid.
\<close>

theorem Reversed_undoes:
  assumes "valid_on d B"
  shows "valid_on (Reversed d) (applied d B) \<and> applied (Reversed d) (applied d B) = B"
  using assms by (rule Reversed_ok)

theorem Reversed_undoes_witness:
  "valid_on sample_diff sample_set \<and> applied (Reversed sample_diff) (applied sample_diff sample_set) = sample_set"
  using Reversed_undoes [OF sample_diffs(1)] sample_diffs(1) by blast

text \<open>
  C14: Adding a transaction to a diff is applying the transaction to the set the diff stands for. If
  its inputs spend distinct entries of that set and its outputs are not in it, \<open>AddTransaction\<close>
  succeeds, the diff stays valid on the base set, and the set it stands for loses exactly the spent
  outputs and gains exactly the created ones.
\<close>

theorem AddTransaction_applies:
  assumes "valid_on d B" "distinct (spent tx)" "length (tx_Outputs tx) \<le> 2 ^ 32"
    "\<forall>i\<in>set (tx_Inputs tx). in_UTXOEntry i \<noteq> None \<and> applied d B (in_PreviousOutpoint i) = in_UTXOEntry i"
    "\<forall>p\<in>set (created lib tx daa). (fst p \<in> set (spent tx) \<or> applied d B (fst p) = None) \<and> same1 (Some (snd p)) (B (fst p))"
  shows "\<exists>d'. AddTransaction lib d tx daa = Inr (d', snd (TransactionID lib tx)) \<and> valid_on d' B \<and>
    applied d' B = applied d B |` (- set (spent tx)) ++ map_of (created lib tx daa)"
  using assms by (rule AddTransaction_ok)

theorem AddTransaction_applies_witness:
  "\<forall>lib. \<exists>d'. AddTransaction lib sample_diff sample_payment 9 = Inr (d', sample_payment) \<and> valid_on d' sample_set \<and>
     applied d' sample_set = [\<lparr>outpoint_TransactionID = [7], outpoint_Index = 0\<rparr> \<mapsto> sample_entry 3 9]"
proof
  fix lib
  have c: "created lib sample_payment 9 = [(\<lparr>outpoint_TransactionID = [7], outpoint_Index = 0\<rparr>, sample_entry 3 9)]"
    by (simp add: created_def sample_payment_def TransactionID_def IsCoinBase_def sample_simps SubnetworkIDCoinbase_def)
  have s: "spent sample_payment = [sample_outpoint 1]" by (simp add: spent_def sample_payment_def)
  have a: "applied sample_diff sample_set = [sample_outpoint 1 \<mapsto> sample_entry 4 2]"
    by (auto simp: applied_def sample_diff_def sample_set_def)
  have "sample_outpoint 1 \<noteq> \<lparr>outpoint_TransactionID = [7], outpoint_Index = 0\<rparr>"
    "sample_outpoint 0 \<noteq> \<lparr>outpoint_TransactionID = [7], outpoint_Index = 0\<rparr>" by (simp_all add: sample_outpoint_def)
  then show "\<exists>d'. AddTransaction lib sample_diff sample_payment 9 = Inr (d', sample_payment) \<and> valid_on d' sample_set \<and>
     applied d' sample_set = [\<lparr>outpoint_TransactionID = [7], outpoint_Index = 0\<rparr> \<mapsto> sample_entry 3 9]"
    using AddTransaction_applies [OF sample_diffs(1), of sample_payment lib 9]
    unfolding c s a by (auto simp: sample_payment_def TransactionID_def same1_def sample_set_def)
qed

end
