(* ===== verification/UtxoValue.thy ===== *)
theory UtxoValue
  imports UtxoDiff
begin

text \<open>
  The total value of a UTXO set, and how it changes when a transaction is applied to it.
\<close>

definition worth :: "utxoSet \<Rightarrow> nat" where
  "worth m = (\<Sum>q\<in>dom m. unat (utxo_Amount (the (m q))))"

lemma worth_restrict:
  assumes "finite (dom m)" "distinct qs" "set qs \<subseteq> dom m"
  shows "worth m = worth (m |` (- set qs)) + (\<Sum>q\<leftarrow>qs. unat (utxo_Amount (the (m q))))"
proof -
  have "dom (m |` (- set qs)) = dom m - set qs" by (auto simp: restrict_map_def split: if_splits)
  then have "worth (m |` (- set qs)) = (\<Sum>q\<in>dom m - set qs. unat (utxo_Amount (the (m q))))"
    by (auto simp: worth_def intro: sum.cong)
  moreover have "worth m = (\<Sum>q\<in>dom m - set qs. unat (utxo_Amount (the (m q)))) + (\<Sum>q\<in>set qs. unat (utxo_Amount (the (m q))))"
    unfolding worth_def using assms by (intro sum.subset_diff) auto
  ultimately show ?thesis using assms(2) by (simp add: sum_list_distinct_conv_sum_set)
qed

lemma worth_upd: "\<lbrakk> finite (dom m); m q = None \<rbrakk> \<Longrightarrow> worth (m(q \<mapsto> e)) = worth m + unat (utxo_Amount e)"
proof -
  assume "finite (dom m)" "m q = None"
  moreover from this have "(\<Sum>p\<in>dom m. unat (utxo_Amount (the ((m(q \<mapsto> e)) p)))) = worth m"
    unfolding worth_def by (intro sum.cong) auto
  ultimately show ?thesis by (simp add: worth_def domIff)
qed

lemma worth_add:
  "\<lbrakk> finite (dom m); distinct (map fst c); \<forall>p\<in>set c. m (fst p) = None \<rbrakk> \<Longrightarrow>
     worth (m ++ map_of c) = worth m + (\<Sum>p\<leftarrow>c. unat (utxo_Amount (snd p)))"
proof (induction c)
  case (Cons p c)
  have "map_of c (fst p) = None" using Cons.prems(2) by (simp add: map_of_eq_None_iff)
  with Cons.prems(3) have none: "(m ++ map_of c) (fst p) = None" by (simp add: map_add_None)
  have eq: "m ++ map_of (p # c) = (m ++ map_of c)(fst p \<mapsto> snd p)" by (cases p) simp
  have "worth (m ++ map_of (p # c)) = worth (m ++ map_of c) + unat (utxo_Amount (snd p))"
    unfolding eq by (rule worth_upd) (use Cons.prems(1) none in \<open>simp_all add: finite_dom_map_of\<close>)
  also have "worth (m ++ map_of c) = worth m + (\<Sum>p\<leftarrow>c. unat (utxo_Amount (snd p)))" using Cons by simp
  finally show ?case by (simp only: list.map sum_list.Cons add_ac)
qed simp

lemma createdFrom_value:
  "(\<Sum>p\<leftarrow>createdFrom txid cb daa i outs. unat (utxo_Amount (snd p))) = (\<Sum>out\<leftarrow>outs. unat (out_Value out))"
  by (induction outs arbitrary: i) (simp_all add: NewUTXOEntry_def)

lemma createdFrom_distinct: "i + length outs \<le> 2 ^ 32 \<Longrightarrow> distinct (map fst (createdFrom txid cb daa i outs))"
proof (induction outs arbitrary: i)
  case (Cons out outs)
  then have "unat (word_of_nat i :: uint32) = i" by (simp add: unsigned_of_nat take_bit_nat_eq_self)
  with Cons createdFrom_index [of _ _ txid cb daa "Suc i" outs] show ?case by force
qed simp

text \<open>The set loses the value of the inputs and gains that of the outputs.\<close>

lemma worth_transaction:
  assumes "finite (dom m)" "distinct (spent tx)" "length (tx_Outputs tx) \<le> 2 ^ 32"
    and "\<forall>i\<in>set (tx_Inputs tx). in_UTXOEntry i \<noteq> None \<and> m (in_PreviousOutpoint i) = in_UTXOEntry i"
    and "\<forall>p\<in>set (created lib tx daa). fst p \<in> set (spent tx) \<or> m (fst p) = None"
  shows "worth (m |` (- set (spent tx)) ++ map_of (created lib tx daa)) + (\<Sum>i\<leftarrow>tx_Inputs tx. unat (utxo_Amount (the (in_UTXOEntry i)))) =
    worth m + (\<Sum>out\<leftarrow>tx_Outputs tx. unat (out_Value out))"
proof -
  have "(\<Sum>q\<leftarrow>spent tx. unat (utxo_Amount (the (m q)))) = (\<Sum>i\<leftarrow>tx_Inputs tx. unat (utxo_Amount (the (in_UTXOEntry i))))"
    using assms(4) by (simp add: spent_def comp_def cong: map_cong)
  moreover have "set (spent tx) \<subseteq> dom m" using assms(4) by (auto simp: spent_def domIff)
  moreover have "worth (m |` (- set (spent tx)) ++ map_of (created lib tx daa)) =
      worth (m |` (- set (spent tx))) + (\<Sum>p\<leftarrow>created lib tx daa. unat (utxo_Amount (snd p)))"
    using assms(1,3,5) createdFrom_distinct [of 0 "tx_Outputs tx"]
    by (intro worth_add) (simp add: dom_restrict, simp add: created_def, auto simp: restrict_map_def)
  ultimately show ?thesis using worth_restrict [OF assms(1,2)] by (simp add: created_def createdFrom_value)
qed

end
