(* ===== verification/Spec2Isabelle.thy ===== *)
theory Spec2Isabelle
  imports Coinbase Merkle UtxoValue
begin

text \<open>
  Verification of the consensus core of the c4ex node, a Go program; the paths below are under
  \<^verbatim>\<open>src/\<close>. The development follows a transaction through the node: it is decoded and hashed,
  validated alone and against the outputs it spends, its scripts are executed, it is applied to the
  UTXO set, and the block that holds it has a Merkle root, a header hash, a difficulty and a coinbase.

  \<^bold>\<open>Conventions.\<close> Machine integers are words of their width and wrap around (\<^typ>\<open>uint64\<close>,
  \<^typ>\<open>byte\<close>); signed ones are integers brought back into range by \<open>int32\<close> and \<open>int64\<close>; a
  \<^verbatim>\<open>big.Int\<close> is an \<^typ>\<open>int\<close>. Slices are lists, pointers that may be nil are options, Go maps are
  association lists where the order of an iteration can show and maps otherwise. A function that
  returns an error is a function into \<open>'a outcome\<close> (script errors, other errors and panics) or into
  \<open>'a validated\<close> (rule errors of the consensus, other errors and panics); a panic of the code is a
  value, so that its absence is a theorem. State that the code mutates is passed and returned.
  Names are those of the code, with a prefix for the fields of a struct.

  \<^bold>\<open>Parameters.\<close> Hash functions (\<open>hashLib\<close>) and the signature library (\<open>sigLib\<close>) are third-party
  packages and are parameters; what is assumed of them is the size of the digests (\<open>hash_size_ok\<close>,
  \<open>digests_ok\<close>). Collision resistance is never assumed: the theorems on hashes exhibit a collision
  among the messages that the code hashes. The stores of the consensus are maps, which fail only when
  they have no data; the block window of a block is a parameter of the difficulty model.

  \<^bold>\<open>Scripts\<close> (\<^verbatim>\<open>domain/consensus/utils/txscript\<close>).
  \<^item> \<open>C4ex_Prelude\<close>, \<open>ScriptError\<close>: integers, byte strings, results and their postconditions.
  \<^item> \<open>ScriptNum\<close> (\<^verbatim>\<open>scriptnum.go\<close>), \<open>ScriptStack\<close> (\<^verbatim>\<open>stack.go\<close>): numbers with their unique minimal
    encodings and the stack operations.
  \<^item> \<open>Opcode\<close> (\<^verbatim>\<open>opcode.go\<close>), \<open>ScriptParse\<close> (\<^verbatim>\<open>script.go\<close>): the opcode table, parsing and unparsing,
    their round trips and the misnumbered entries of the table.
  \<^item> \<open>SigCache\<close> (\<^verbatim>\<open>sigcache.go\<close>): the caches of verified signatures; a cache is transparent.
  \<^item> \<open>ScriptOps\<close>, \<open>ScriptSigOps\<close> (\<^verbatim>\<open>opcode.go\<close>), \<open>ScriptEngine\<close> (\<^verbatim>\<open>engine.go\<close>): the opcode handlers
    and the engine; \<open>executeLoop\<close> terminates because each step consumes an opcode.
  \<^item> \<open>ScriptSafety\<close>, \<open>ScriptInvariant\<close>: the invariant of the engine; execution never panics, keeps the
    limits and makes at most 20520 steps.
  \<^item> \<open>ScriptSpends\<close>: what pay-to-public-key, multi-signature and lock-time scripts accept.

  \<^bold>\<open>Transactions.\<close>
  \<^item> \<open>Serialization\<close> (\<^verbatim>\<open>utils/serialization\<close>, \<^verbatim>\<open>util/binaryserializer\<close>), \<open>Transaction\<close>
    (\<^verbatim>\<open>externalapi/transaction.go\<close>, \<^verbatim>\<open>consensushashing/transaction.go\<close>): canonical encodings, and the
    hashed encoding of a transaction, which determines it.
  \<^item> \<open>SigHash\<close> (\<^verbatim>\<open>consensushashing/calculate_signature_hash.go\<close>): what a signature hash commits to,
    and that the reused values change nothing.
  \<^item> \<open>RuleErrors\<close> (\<^verbatim>\<open>ruleerrors\<close>), \<open>TxMass\<close> (\<^verbatim>\<open>util/txmass\<close>), \<open>TxValidator\<close>
    (\<^verbatim>\<open>processes/transactionvalidator\<close>): all checks of a transaction. Isolation accepts exactly the
    listed transactions; what the context accepts is sound, and it never panics.
  \<^item> \<open>UtxoDiff\<close> (\<^verbatim>\<open>utils/utxo\<close>), \<open>UtxoValue\<close>: UTXO diffs refine changes of a UTXO set, which is the
    abstract specification of their algebra; the value of a set.

  \<^bold>\<open>Blocks.\<close>
  \<^item> \<open>DomainHash\<close>, \<open>BlockHeader\<close> (\<^verbatim>\<open>utils/blockheader\<close>, \<^verbatim>\<open>consensushashing/block.go\<close>): hashes with their
    order, and the header that its hash identifies.
  \<^item> \<open>Merkle\<close> (\<^verbatim>\<open>utils/merkle\<close>): the array algorithm computes the tree built level by level, and the
    root commits to the transactions.
  \<^item> \<open>BigInt\<close>, \<open>Difficulty\<close> (\<^verbatim>\<open>util/difficulty\<close>, \<^verbatim>\<open>processes/difficultymanager\<close>): compact targets, the
    required difficulty and the DAA score.
  \<^item> \<open>Coinbase\<close> (\<^verbatim>\<open>processes/coinbasemanager\<close>): the payload, the subsidy with the bound on the
    emission, and the expected coinbase, which validation accepts.

  This theory composes them: a validated transaction that is added to a UTXO set lowers its value by
  its fee and nothing else, and it spends a pay-to-public-key output only with a signature of the key.

  \<^bold>\<open>Interfaces.\<close> The locale \<open>stream_codec\<close> is the contract of a reader and a writer, interpreted for
  scripts; \<open>memo_cache\<close> that of a cache of positive answers, interpreted for the signature cache;
  \<open>sig_scheme\<close> that of a signature scheme of the engine, interpreted for Schnorr and ECDSA.

  \<^bold>\<open>Bounds.\<close> No definition has fuel: loops are structural or have a termination proof. Where the code
  converts between widths, the theorems state the range in which nothing is lost (DAA scores below
  \<open>2\<^sup>6\<^sup>2\<close> for sequence locks, at most \<open>2\<^sup>3\<^sup>2\<close> outputs, coinbase scripts of at most 236 bytes), which
  covers what the network admits; the base-2 logarithm of the Merkle code is taken to be exact.

  \<^bold>\<open>Not modelled.\<close> GHOSTDAG, reachability, the traversal of the DAG, the rules of whole blocks, the
  consensus state manager, finality and pruning: these work on the whole DAG through the database, and
  the components above read only their results. Proof of work rests on third-party hash functions and
  floating-point numbers. UTXO iterators and the invalidation of immutable diffs concern references,
  while diffs are values here. Script building and signing, addresses, the mempool, the wallet, the
  network protocol, RPC, storage, configuration and logging are input, output or policy around the
  consensus rules. Texts of errors and log messages are left out everywhere.
\<close>

section \<open>Transactions that are validated and applied\<close>

text \<open>
  C1: Validated transactions conserve value. When a transaction that passed validation is added to a UTXO diff
  (its inputs being entries of the set the diff stands for and its outputs new), the addition
  succeeds and the total value of the set falls by exactly the fee that validation computed: no
  transaction creates or destroys value, by wrap-around or otherwise.
\<close>

theorem validated_transactions_conserve_value:
  assumes "digests_ok env" "validator_ok env v" "ValidateTransactionInIsolation v tx daa = Inr ()"
    and "ValidateTransactionInContextAndPopulateFee env v daaStore tx pov = Inr (tx', v')"
    and "valid_on d B" "finite (dom (applied d B))" "length (tx_Outputs tx) \<le> 2 ^ 32"
    and "\<forall>i\<in>set (tx_Inputs tx). applied d B (in_PreviousOutpoint i) = in_UTXOEntry i"
    and "\<forall>p\<in>set (created lib tx' daa). (fst p \<in> set (spent tx') \<or> applied d B (fst p) = None) \<and> same1 (Some (snd p)) (B (fst p))"
  shows "\<exists>d' tx''. AddTransaction lib d tx' daa = Inr (d', tx'') \<and> worth (applied d' B) + unat (tx_Fee tx') = worth (applied d B)"
proof -
  from grantsD [OF ValidateTransactionInContext_grants [OF assms(1,2)] assms(4)] have acc: "accepted env v daaStore pov tx tx'" by simp
  from assms(3) have iso: "distinct (map in_PreviousOutpoint (tx_Inputs tx))" "totalOut tx \<le> 29 * 10 ^ 17"
    by (auto simp: ValidateTransactionInIsolation_def bindR_Inr_iff checks_iff)
  from acc obtain fee where tx': "tx' = tx\<lparr>tx_Fee := fee\<rparr>" and sums: "totalIn tx = totalOut tx + unat fee" and pop: "populated tx"
    using iso(2) by (auto simp: accepted_def)
  have i: "\<forall>i\<in>set (tx_Inputs tx'). in_UTXOEntry i \<noteq> None \<and> applied d B (in_PreviousOutpoint i) = in_UTXOEntry i"
    using pop assms(8) by (simp add: tx' populated_def list_all_iff)
  have o: "distinct (spent tx')" "length (tx_Outputs tx') \<le> 2 ^ 32" using iso(1) assms(7) by (simp_all add: tx' spent_def)
  from AddTransaction_ok [OF assms(5) o i assms(9)] obtain d' where
    d': "AddTransaction lib d tx' daa = Inr (d', snd (TransactionID lib tx'))"
      "applied d' B = applied d B |` (- set (spent tx')) ++ map_of (created lib tx' daa)" by blast
  have "totalIn tx = (\<Sum>i\<leftarrow>tx_Inputs tx. unat (utxo_Amount (the (in_UTXOEntry i))))"
    using pop unfolding totalIn_def populated_def list_all_iff by (intro arg_cong [of _ _ sum_list] map_cong) auto
  with worth_transaction [OF assms(6) o i, of lib daa] assms(9) sums d' show ?thesis
    by (auto simp: tx' totalOut_def)
qed

theorem validated_transactions_conserve_value_witness:
  "\<forall>lib. \<exists>tx' v' d' tx''. ValidateTransactionInContextAndPopulateFee sample_env sample_validator sample_daa valid_spend [] = Inr (tx', v') \<and>
     AddTransaction lib \<lparr>toAdd = [], toRemove = []\<rparr> tx' 9 = Inr (d', tx'') \<and>
     worth (applied d' [in_PreviousOutpoint sample_input \<mapsto> the (in_UTXOEntry sample_input)]) = 9"
proof
  fix lib
  let ?B = "[in_PreviousOutpoint sample_input \<mapsto> the (in_UTXOEntry sample_input)]" and ?d = "\<lparr>toAdd = [], toRemove = []\<rparr>"
  obtain tx' v' where v: "ValidateTransactionInContextAndPopulateFee sample_env sample_validator sample_daa valid_spend [] = Inr (tx', v')"
    using valid_spend_accepted(2) by blast
  have acc: "tx' = valid_spend\<lparr>tx_Fee := tx_Fee tx'\<rparr>" "unat (tx_Fee tx') = 3"
  proof -
    have "totalIn valid_spend = 12" "totalOut valid_spend = 9" by code_simp+
    then show "tx' = valid_spend\<lparr>tx_Fee := tx_Fee tx'\<rparr>" "unat (tx_Fee tx') = 3"
      using grantsD [OF ValidateTransactionInContext_grants [OF sample_env_ok sample_validator_ok] v] by (simp_all add: accepted_def)
  qed
  have tx': "tx_Inputs tx' = [sample_input]" "length (tx_Outputs tx') = 1"
    by (subst acc(1), simp add: valid_spend_def sample_spend_def)+
  have d: "valid_on ?d ?B" "applied ?d ?B = ?B" by (simp_all add: valid_on_def valid_at_def wf_uc_def applied_def fun_eq_iff)
  have iso: "ValidateTransactionInIsolation sample_validator valid_spend 9 = Inr ()"
    using valid_spend_accepted(1) by (simp add: ValidateTransactionInIsolation_def)
  have new: "\<forall>p\<in>set (created lib tx' 9). (fst p \<in> set (spent tx') \<or> applied ?d ?B (fst p) = None) \<and> same1 (Some (snd p)) (?B (fst p))"
  proof
    fix p assume "p \<in> set (created lib tx' 9)"
    then have "utxo_BlockDAAScore (snd p) = 9"
      using createdFrom_index [of "fst p" "snd p" "fst (TransactionID lib tx')" "IsCoinBase tx'" 9 0 "tx_Outputs tx'"] tx'(2)
      by (simp add: created_def)
    then show "(fst p \<in> set (spent tx') \<or> applied ?d ?B (fst p) = None) \<and> same1 (Some (snd p)) (?B (fst p))"
      unfolding d(2) by (auto simp: tx'(1) same1_def spent_def sample_input_def)
  qed
  have w: "worth ?B = 12" by (simp add: worth_def sample_input_def)
  have "finite (dom (applied ?d ?B))" "length (tx_Outputs valid_spend) \<le> 2 ^ 32"
    "\<forall>i\<in>set (tx_Inputs valid_spend). applied ?d ?B (in_PreviousOutpoint i) = in_UTXOEntry i"
    unfolding d(2) by (simp_all add: valid_spend_def sample_spend_def sample_input_def)
  from validated_transactions_conserve_value [OF sample_env_ok sample_validator_ok iso v d(1) this new]
  show "\<exists>tx' v' d' tx''. ValidateTransactionInContextAndPopulateFee sample_env sample_validator sample_daa valid_spend [] = Inr (tx', v') \<and>
     AddTransaction lib ?d tx' 9 = Inr (d', tx'') \<and> worth (applied d' ?B) = 9"
    using v by (auto simp: d(2) w acc(2))
qed


definition signed_input :: "bytes \<Rightarrow> DomainTransactionInput" where
  "signed_input sigScript = sample_input\<lparr>in_SignatureScript := sigScript, in_SigOpCount := 1,
     in_UTXOEntry := Some \<lparr>utxo_Amount = 12, utxo_ScriptPublicKey = \<lparr>spk_Script = 32 # replicate 32 9 @ [OpCheckSig], spk_Version = 0\<rparr>,
       utxo_BlockDAAScore = 5, utxo_IsCoinbase = False\<rparr>\<rparr>"

definition signed_spend :: "bytes \<Rightarrow> DomainTransaction" where
  "signed_spend sigScript = valid_spend\<lparr>tx_Inputs := [signed_input sigScript]\<rparr>"

definition spend_sig :: bytes where
  "spend_sig = replicate 32 9 @ schnorrHash sample_lib (signed_spend []) 0 SigHashAll @ [SigHashAll]"


end
